(* ===== verification/Prelude.thy ===== *)
theory Prelude
  imports Main "HOL-Library.Word" "HOL-Library.Monad_Syntax"
begin

unbundle bit_operations_syntax

text \<open>
  Shared vocabulary of the development: the C integer types of the SDK as words, the
  SDK-wide error codes of \<^verbatim>\<open>include/common/bk_err.h\<close>, the loop shape
  ``scan a list and act on the first match'' that the SDK's list walks have, lemmas about
  bits of a bitmap, and the generic invariant argument for transition systems.
\<close>

section \<open>Machine types\<close>

type_synonym u8 = "8 word"
type_synonym u16 = "16 word"
type_synonym u32 = "32 word"
type_synonym u64 = "64 word"

text \<open>
  A code or data address. Function pointers and opaque \<^verbatim>\<open>void *\<close> arguments are never
  inspected beyond a comparison with \<^verbatim>\<open>NULL\<close>, so an address is all the model keeps of them.
\<close>

type_synonym addr = u32

abbreviation NULL :: addr where
  "NULL \<equiv> 0"

section \<open>Error codes\<close>

type_synonym bk_err_t = int

abbreviation BK_OK :: bk_err_t where "BK_OK \<equiv> 0"
abbreviation BK_FAIL :: bk_err_t where "BK_FAIL \<equiv> - 1"
abbreviation BK_ERR_COMMON_BASE :: bk_err_t where "BK_ERR_COMMON_BASE \<equiv> - 0x1000"
abbreviation BK_ERR_NOT_INIT :: bk_err_t where "BK_ERR_NOT_INIT \<equiv> BK_ERR_COMMON_BASE"
abbreviation BK_ERR_PARAM :: bk_err_t where "BK_ERR_PARAM \<equiv> BK_ERR_COMMON_BASE - 1"
abbreviation BK_ERR_NOT_FOUND :: bk_err_t where "BK_ERR_NOT_FOUND \<equiv> BK_ERR_COMMON_BASE - 2"
abbreviation BK_ERR_OPEN :: bk_err_t where "BK_ERR_OPEN \<equiv> BK_ERR_COMMON_BASE - 3"
abbreviation BK_ERR_IN_PROGRESS :: bk_err_t where "BK_ERR_IN_PROGRESS \<equiv> BK_ERR_COMMON_BASE - 4"
abbreviation BK_ERR_NO_MEM :: bk_err_t where "BK_ERR_NO_MEM \<equiv> BK_ERR_COMMON_BASE - 5"
abbreviation BK_ERR_TIMEOUT :: bk_err_t where "BK_ERR_TIMEOUT \<equiv> BK_ERR_COMMON_BASE - 6"
abbreviation BK_ERR_STATE :: bk_err_t where "BK_ERR_STATE \<equiv> BK_ERR_COMMON_BASE - 7"
abbreviation BK_ERR_TRY_AGAIN :: bk_err_t where "BK_ERR_TRY_AGAIN \<equiv> BK_ERR_COMMON_BASE - 8"
abbreviation BK_ERR_NULL_PARAM :: bk_err_t where "BK_ERR_NULL_PARAM \<equiv> BK_ERR_COMMON_BASE - 9"
abbreviation BK_ERR_NOT_SUPPORT :: bk_err_t where "BK_ERR_NOT_SUPPORT \<equiv> BK_ERR_COMMON_BASE - 10"
abbreviation BK_ERR_BUSY :: bk_err_t where "BK_ERR_BUSY \<equiv> BK_ERR_COMMON_BASE - 11"

section \<open>The first element of a list that satisfies a predicate\<close>

text \<open>
  A \<^verbatim>\<open>list_for_each_safe\<close> loop whose body returns at the first match sees the list as the
  part before the match, the match and the part after it.
\<close>

fun split_first :: "('a \<Rightarrow> bool) \<Rightarrow> 'a list \<Rightarrow> ('a list \<times> 'a \<times> 'a list) option" where
  "split_first P [] = None"
| "split_first P (x # xs) =
     (if P x then Some ([], x, xs)
      else map_option (\<lambda>(pre, y, post). (x # pre, y, post)) (split_first P xs))"

lemma split_first_SomeD:
  "split_first P xs = Some (pre, x, post) \<Longrightarrow>
     xs = pre @ x # post \<and> P x \<and> (\<forall>y \<in> set pre. \<not> P y)"
  by (induction xs arbitrary: pre) (auto split: if_splits)

lemma split_first_None_iff: "split_first P xs = None \<longleftrightarrow> (\<forall>x \<in> set xs. \<not> P x)"
  by (induction xs) auto

lemma split_first_append:
  "P x \<Longrightarrow> (\<forall>y \<in> set pre. \<not> P y) \<Longrightarrow> split_first P (pre @ x # post) = Some (pre, x, post)"
  by (induction pre) auto

lemma split_first_cases [case_names None Some]:
  assumes "(\<forall>x \<in> set xs. \<not> P x) \<Longrightarrow> split_first P xs = None \<Longrightarrow> thesis"
    and "\<And>pre x post. xs = pre @ x # post \<Longrightarrow> P x \<Longrightarrow> (\<forall>y \<in> set pre. \<not> P y) \<Longrightarrow>
           split_first P xs = Some (pre, x, post) \<Longrightarrow> thesis"
  shows thesis
proof (cases "split_first P xs")
  case None
  then show ?thesis using assms(1) by (simp add: split_first_None_iff)
next
  case (Some r)
  then obtain pre x post where r: "split_first P xs = Some (pre, x, post)" by (cases r) auto
  from split_first_SomeD [OF r] show ?thesis by (intro assms(2) [OF _ _ _ r]) auto
qed

text \<open>
  Lists of nodes with a key are searched with \<^const>\<open>find\<close> in specifications. Under distinct keys,
  replacing, removing or appending one node changes the result of a search at that key only.
\<close>

named_theorems keyed \<open>searching a list of keyed nodes\<close>

lemma find_key_hit [keyed]:
  "f x = k \<Longrightarrow> (\<forall>y \<in> set pre. f y \<noteq> k) \<Longrightarrow> find (\<lambda>y. f y = k) (pre @ x # post) = Some x"
  by (induction pre) auto

lemma find_key_miss [keyed]: "(\<forall>y \<in> set xs. f y \<noteq> k) \<Longrightarrow> find (\<lambda>y. f y = k) xs = None"
  by (auto simp: find_None_iff)

lemma find_key_skip [keyed]:
  "f x \<noteq> k \<Longrightarrow> find (\<lambda>y. f y = k) (pre @ x # post) = find (\<lambda>y. f y = k) (pre @ post)"
  by (induction pre) auto

lemma find_key_snoc [keyed]:
  "f x \<noteq> k \<Longrightarrow> find (\<lambda>y. f y = k) (xs @ [x]) = find (\<lambda>y. f y = k) xs"
  by (induction xs) auto

lemma find_split_first:
  "find P xs = map_option (\<lambda>(pre, x, post). x) (split_first P xs)"
  by (induction xs) (auto simp: option.map_comp intro!: option.map_cong0)

section \<open>Heap accounting\<close>

text \<open>
  What the code relies on of \<^verbatim>\<open>os_zalloc\<close> and \<^verbatim>\<open>os_free\<close>: an allocation may fail, and
  every block handed out has to be given back. The n-th allocation request fails when
  \<^verbatim>\<open>oom n\<close> says so, and \<^verbatim>\<open>live\<close> counts the blocks that are out (an integer, so that a
  block freed twice would make the count too small instead of going unnoticed).
\<close>

record heap =
  oom :: "nat \<Rightarrow> bool"
  requests :: nat
  live :: int

definition os_zalloc :: "heap \<Rightarrow> bool \<times> heap" where
  "os_zalloc h =
     (if oom h (requests h) then (False, h\<lparr>requests := requests h + 1\<rparr>)
      else (True, h\<lparr>requests := requests h + 1, live := live h + 1\<rparr>))"

definition os_free :: "heap \<Rightarrow> heap" where
  "os_free h = h\<lparr>live := live h - 1\<rparr>"

lemma os_free_simps [simp]:
  "live (os_free h) = live h - 1" "oom (os_free h) = oom h" "requests (os_free h) = requests h"
  by (simp_all add: os_free_def)

lemma os_zalloc_live: "os_zalloc h = (ok, h') \<Longrightarrow> live h' = live h + (if ok then 1 else 0)"
  by (auto simp: os_zalloc_def split: if_splits)

lemma os_zalloc_oom: "os_zalloc h = (ok, h') \<Longrightarrow> oom h' = oom h"
  by (auto simp: os_zalloc_def split: if_splits)

section \<open>Assertions and C strings\<close>

text \<open>
  \<^verbatim>\<open>BK_ASSERT\<close> stops the system when its condition fails. Operations that can be stopped, or whose
  loop can fail to end, have an optional result: the value \<^const>\<open>None\<close> means that the call never
  returns.
\<close>

definition bk_assert :: "bool \<Rightarrow> unit option" where
  "bk_assert b = (if b then Some () else None)"

lemma bk_assert_simps [simp]: "bk_assert True = Some ()" "bk_assert b = Some u \<longleftrightarrow> b"
  by (simp_all add: bk_assert_def)

text \<open>
  \<^verbatim>\<open>strncmp(a, b, n) == 0\<close>; the end of a list counts as the terminating NUL. It compares the
  strings up to their NUL, cut at \<^verbatim>\<open>n\<close> bytes.
\<close>

fun strncmp_eq :: "nat \<Rightarrow> u8 list \<Rightarrow> u8 list \<Rightarrow> bool" where
  "strncmp_eq 0 a b \<longleftrightarrow> True"
| "strncmp_eq (Suc n) [] [] \<longleftrightarrow> True"
| "strncmp_eq (Suc n) [] (y # b) \<longleftrightarrow> y = 0"
| "strncmp_eq (Suc n) (x # a) [] \<longleftrightarrow> x = 0"
| "strncmp_eq (Suc n) (x # a) (y # b) \<longleftrightarrow> x = y \<and> (x = 0 \<or> strncmp_eq n a b)"

definition c_string :: "nat \<Rightarrow> u8 list \<Rightarrow> u8 list" where
  "c_string n a = takeWhile (\<lambda>x. x \<noteq> 0) (take n a)"

lemma strncmp_eq_iff: "strncmp_eq n a b \<longleftrightarrow> c_string n a = c_string n b"
  by (induction n a b rule: strncmp_eq.induct) (auto simp: c_string_def)

section \<open>Bits of a bitmap\<close>

lemma bit_or_exp: "i < LENGTH('a) \<Longrightarrow> bit (w OR 2 ^ i :: 'a::len word) j \<longleftrightarrow> bit w j \<or> j = i"
  by (auto simp: bit_or_iff bit_exp_iff)

lemma bit_and_not_exp: "bit (w AND NOT (2 ^ i) :: 'a::len word) j \<longleftrightarrow> bit w j \<and> j \<noteq> i"
  using bit_imp_le_length [of w j] by (auto simp: bit_and_iff bit_not_iff bit_exp_iff)

lemma bit_iff_and_exp: "bit (w :: 'a::len word) i \<longleftrightarrow> w AND 2 ^ i \<noteq> 0"
  using bit_iff_and_push_bit_not_eq_0 [of w i] by (simp add: push_bit_eq_mult)

lemma ucast_u16_eq_iff: "(ucast v :: u32) = ucast u \<longleftrightarrow> v = u" for u v :: u16
proof
  assume "(ucast v :: u32) = ucast u"
  then have "i < 32 \<and> bit v i \<longleftrightarrow> i < 32 \<and> bit u i" for i
    using bit_ucast_iff [of v i, where 'a = 32] bit_ucast_iff [of u i, where 'a = 32] by simp
  then have "n < 32 \<Longrightarrow> bit v n \<longleftrightarrow> bit u n" for n by blast
  then show "v = u" by (intro bit_word_eqI) simp
qed simp

section \<open>Pools of slots\<close>

text \<open>
  Several drivers hand out the entries of a small fixed table and keep the taken ones in a bitmap.
\<close>

locale slot_pool =
  fixes slots :: nat
    and taken :: "'s \<Rightarrow> nat set"
    and request :: "'s \<Rightarrow> nat option \<times> 's"
    and release :: "nat \<Rightarrow> 's \<Rightarrow> 's"
  assumes taken_bound: "taken s \<subseteq> {..<slots}"
    and request_None: "request s = (None, t) \<Longrightarrow> taken s = {..<slots} \<and> t = s"
    and request_Some: "request s = (Some i, t) \<Longrightarrow> i \<notin> taken s \<and> taken t = insert i (taken s)"
    and release_taken: "i < slots \<Longrightarrow> taken (release i s) = taken s - {i}"
begin

lemma taken_finite [simp]: "finite (taken s)"
  using taken_bound finite_subset by blast

lemma request_card:
  "request s = (Some i, t) \<Longrightarrow> i < slots \<and> card (taken t) = Suc (card (taken s))"
  using request_Some [of s i t] taken_bound [of t] by auto

text \<open>A request is refused exactly when every slot is taken.\<close>

lemma request_refused_iff: "fst (request s) = None \<longleftrightarrow> card (taken s) = slots"
proof
  assume "fst (request s) = None"
  then show "card (taken s) = slots"
    using request_None [of s "snd (request s)"] by (cases "request s") auto
next
  assume full: "card (taken s) = slots"
  show "fst (request s) = None"
  proof (rule ccontr)
    assume "fst (request s) \<noteq> None"
    then obtain i t where "request s = (Some i, t)" by (cases "request s") auto
    then have "card (taken t) = Suc slots" using request_card full by blast
    then show False using card_mono [OF finite_lessThan taken_bound [of t]] by simp
  qed
qed

lemma request_release: "request s = (Some i, t) \<Longrightarrow> taken (release i t) = taken s"
  using request_card [of s i t] request_Some [of s i t] release_taken [of i t] by auto

end

section \<open>Invariants of transition systems\<close>

locale invariant_system =
  fixes init :: "'s \<Rightarrow> bool"
    and step :: "'s \<Rightarrow> 's \<Rightarrow> bool"
    and inv :: "'s \<Rightarrow> bool"
  assumes inv_init: "init s \<Longrightarrow> inv s"
    and inv_step: "inv s \<Longrightarrow> step s t \<Longrightarrow> inv t"
begin

lemma inv_steps:
  assumes "step\<^sup>*\<^sup>* s t" and "inv s"
  shows "inv t"
  using assms by (induction rule: rtranclp_induct) (auto intro: inv_step)

lemma inv_reachable: "init s \<Longrightarrow> step\<^sup>*\<^sup>* s t \<Longrightarrow> inv t"
  using inv_init inv_steps by blast

end

end
