(* ===== verification/Base64.thy ===== *)
theory Base64
  imports Prelude
begin

unbundle bit_operations_syntax

text \<open>
  The base64 component (\<^verbatim>\<open>components/base64/base_64.c\<close>): the encoder with its line feeds
  every 72 characters, the decoder with its translation table, and the two length
  estimators. A buffer is the list of the bytes in it; an \<^verbatim>\<open>out\<close> pointer that may be
  \<^verbatim>\<open>NULL\<close> and an allocation that may fail are boolean arguments.
  The theorems: decoding an encoded buffer gives it back, and the encoder writes no more
  bytes than the buffer size the component tells its callers to allocate.
\<close>

section \<open>The encoder\<close>

definition base_64_table :: "u8 list" where
  "base_64_table = map of_char
     ''ABCDEFGHIJKLMNOPQRSTUVWXYZabcdefghijklmnopqrstuvwxyz0123456789+/''"

definition base64_calc_encode_length :: "u32 \<Rightarrow> u32" where
  "base64_calc_encode_length src_Len =
     (let enc_len = src_Len * 4 div 3 + 4;
          enc_len = enc_len + enc_len div 72
      in enc_len + 1)"

text \<open>
  The loop \<^verbatim>\<open>while (end - in >= 3)\<close>: what it emits, the input it leaves and the
  value of \<^verbatim>\<open>line_len\<close> when it stops.
\<close>

fun base64_encode_loop :: "u8 list \<Rightarrow> nat \<Rightarrow> u8 list \<times> u8 list \<times> nat" where
  "base64_encode_loop (i0 # i1 # i2 # rest) line_len =
     (let quad =
            [base_64_table ! unat (drop_bit 2 i0),
             base_64_table ! unat (push_bit 4 (i0 AND 0x03) OR drop_bit 4 i1),
             base_64_table ! unat (push_bit 2 (i1 AND 0x0f) OR drop_bit 6 i2),
             base_64_table ! unat (i2 AND 0x3f)];
          line_len = line_len + 4;
          (nl, line_len) = (if 72 \<le> line_len then ([0x0a], 0) else ([], line_len));
          (out, rest', line_len') = base64_encode_loop rest line_len
      in (quad @ nl @ out, rest', line_len'))"
| "base64_encode_loop rest line_len = ([], rest, line_len)"

text \<open>
  \<^verbatim>\<open>base64_encode\<close> returns 0 for a \<^verbatim>\<open>NULL\<close> output buffer (here \<^const>\<open>None\<close>) and 1
  otherwise; the result is the text before the terminating \<^verbatim>\<open>'\0'\<close>, whose length is
  \<^verbatim>\<open>*out_len\<close>.
\<close>

definition base64_encode :: "u8 list \<Rightarrow> bool \<Rightarrow> u8 list option" where
  "base64_encode src out_non_null =
     (if \<not> out_non_null then None
      else
        let (out, inp, line_len) = base64_encode_loop src 0;
            (out, line_len) =
              (case inp of
                 [] \<Rightarrow> (out, line_len)
               | [i0] \<Rightarrow>
                   (out @ [base_64_table ! unat (drop_bit 2 i0),
                           base_64_table ! unat (push_bit 4 (i0 AND 0x03)),
                           0x3d, 0x3d], line_len + 4)
               | i0 # i1 # _ \<Rightarrow>
                   (out @ [base_64_table ! unat (drop_bit 2 i0),
                           base_64_table ! unat (push_bit 4 (i0 AND 0x03) OR drop_bit 4 i1),
                           base_64_table ! unat (push_bit 2 (i1 AND 0x0f)),
                           0x3d], line_len + 4))
        in Some (if line_len \<noteq> 0 then out @ [0x0a] else out))"

section \<open>The decoder\<close>

definition dtable :: "u8 list" where
  "dtable =
     (let t = replicate 256 0x80;
          t = foldl (\<lambda>t i. t[unat (base_64_table ! i) := word_of_nat i]) t [0 ..< 64]
      in t[0x3d := 0])"

definition count_valid :: "u8 list \<Rightarrow> nat" where
  "count_valid src = length (filter (\<lambda>c. dtable ! unat c \<noteq> 0x80) src)"

definition base64_calc_decode_length :: "bool \<Rightarrow> u8 list \<Rightarrow> nat" where
  "base64_calc_decode_length alloc_ok src =
     (if \<not> alloc_ok then 0
      else let dec_len = count_valid src in if dec_len mod 4 \<noteq> 0 then 0 else dec_len)"

text \<open>
  The decoding loop; \<^verbatim>\<open>in\<close> and \<^verbatim>\<open>block\<close> are the local arrays of four bytes, whose
  contents before the first write are whatever the stack held.
\<close>

fun base64_decode_loop ::
  "u8 list \<Rightarrow> (nat \<Rightarrow> u8) \<Rightarrow> (nat \<Rightarrow> u8) \<Rightarrow> nat \<Rightarrow> u8 list \<Rightarrow> u8 list \<times> (nat \<Rightarrow> u8)" where
  "base64_decode_loop [] inp block count out = (out, inp)"
| "base64_decode_loop (c # src) inp block count out =
     (let tmp = dtable ! unat c in
      if tmp = 0x80 then base64_decode_loop src inp block count out
      else
        let inp = inp(count := c); block = block(count := tmp); count = count + 1 in
        if count = 4 then
          base64_decode_loop src inp block 0
            (out @ [push_bit 2 (block 0) OR drop_bit 4 (block 1),
                    push_bit 4 (block 1) OR drop_bit 2 (block 2),
                    push_bit 6 (block 2) OR block 3])
        else base64_decode_loop src inp block count out)"

text \<open>
  \<^verbatim>\<open>base64_decode\<close>: the return value, what \<^verbatim>\<open>*out_len\<close> is set to (\<^const>\<open>None\<close> when it is
  left alone) and the decoded bytes.
\<close>

definition base64_decode ::
  "bool \<Rightarrow> (nat \<Rightarrow> u8) \<Rightarrow> (nat \<Rightarrow> u8) \<Rightarrow> u8 list \<Rightarrow> bool \<Rightarrow> u8 \<times> nat option \<times> u8 list" where
  "base64_decode alloc_ok in0 block0 src out_non_null =
     (if \<not> alloc_ok then (0, Some 0, [])
      else
        let count = count_valid src in
        if count mod 4 \<noteq> 0 then (0, None, [])
        else if \<not> out_non_null then (0, Some (count * 3 div 4), [])
        else
          let (out, inp) = base64_decode_loop src in0 block0 0 [];
              out = (if out \<noteq> []
                     then if inp 2 = 0x3d then take (length out - 2) out
                          else if inp 3 = 0x3d then take (length out - 1) out
                          else out
                     else out)
          in (1, Some (length out), out))"

section \<open>The translation table inverts the alphabet\<close>

lemma length_base_64_table [simp]: "length base_64_table = 64"
  by (simp add: base_64_table_def)

lemma dtable_base_64_table_all:
  "list_all (\<lambda>i. dtable ! unat (base_64_table ! i) = word_of_nat i) [0 ..< 64]"
  by code_simp

lemma base_64_table_no_pad_all: "list_all (\<lambda>i. base_64_table ! i \<noteq> 0x3d) [0 ..< 64]"
  by code_simp

lemma dtable_newline [simp]: "dtable ! 10 = 0x80"
  by code_simp

lemma dtable_pad [simp]: "dtable ! 61 = 0"
  by code_simp

lemma dtable_table [simp]: "unat w < 64 \<Longrightarrow> dtable ! unat (base_64_table ! unat w) = (w :: u8)"
  using dtable_base_64_table_all by (simp add: list_all_iff)

lemma table_not_pad [simp]: "unat (w :: u8) < 64 \<Longrightarrow> base_64_table ! unat w \<noteq> 0x3d"
  using base_64_table_no_pad_all by (auto simp: list_all_iff)

lemma sextet_valid: "unat (w :: u8) < 64 \<Longrightarrow> w \<noteq> 0x80"
  by auto

text \<open>Each table index the encoder computes is a sextet.\<close>

lemma mask_AND [simp]:
  "(a :: u8) AND 0x03 = take_bit 2 a" "a AND 0x0f = take_bit 4 a" "a AND 0x3f = take_bit 6 a"
  by (simp_all add: take_bit_eq_mask mask_eq_exp_minus_1)

lemma u8_eqI:
  assumes "bit (v :: u8) 0 = bit w 0" "bit v 1 = bit w 1" "bit v 2 = bit w 2" "bit v 3 = bit w 3"
    "bit v 4 = bit w 4" "bit v 5 = bit w 5" "bit v 6 = bit w 6" "bit v 7 = bit w 7"
  shows "v = w"
proof (rule bit_word_eqI)
  fix n :: nat
  assume "n < LENGTH(8)"
  then consider "n = 0" | "n = 1" | "n = 2" | "n = 3" | "n = 4" | "n = 5" | "n = 6" | "n = 7"
    by fastforce
  then show "bit v n = bit w n" using assms by cases auto
qed

lemma bit_u8_high [simp]: "8 \<le> n \<Longrightarrow> \<not> bit (w :: u8) n"
  by (auto dest: bit_imp_le_length)

lemma sextet_bit: "\<not> bit (w :: u8) 6 \<Longrightarrow> \<not> bit w 7 \<Longrightarrow> unat w < 64"
proof -
  assume b: "\<not> bit w 6" "\<not> bit w 7"
  have "take_bit 6 w = w"
    using b by (intro u8_eqI) (simp_all add: bit_simps)
  then have "unat w = unat (take_bit 6 w)" by simp
  also have "\<dots> < 2 ^ 6" by (simp only: unsigned_take_bit_eq take_bit_nat_less_exp)
  finally show ?thesis by simp
qed

lemma sextets [simp]:
  "unat (drop_bit 2 (a :: u8)) < 64"
  "unat (push_bit 4 (take_bit 2 a) OR drop_bit 4 (b :: u8)) < 64"
  "unat (push_bit 2 (take_bit 4 b) OR drop_bit 6 (c :: u8)) < 64"
  "unat (take_bit 6 c) < 64"
  "unat (push_bit 4 (take_bit 2 a)) < 64"
  "unat (push_bit 2 (take_bit 4 b)) < 64"
  by (rule sextet_bit; simp only: bit_simps; simp)+

text \<open>Reassembling the sextets gives the bytes back.\<close>

lemma unpack:
  "push_bit 2 (drop_bit 2 a) OR drop_bit 4 (push_bit 4 (take_bit 2 a) OR drop_bit 4 b) = (a :: u8)"
  "push_bit 4 (push_bit 4 (take_bit 2 a) OR drop_bit 4 b) OR
     drop_bit 2 (push_bit 2 (take_bit 4 b) OR drop_bit 6 c) = (b :: u8)"
  "push_bit 6 (push_bit 2 (take_bit 4 b) OR drop_bit 6 c) OR take_bit 6 c = (c :: u8)"
  "push_bit 2 (drop_bit 2 a) OR drop_bit 4 (push_bit 4 (take_bit 2 a)) = (a :: u8)"
  "push_bit 4 (push_bit 4 (take_bit 2 a) OR drop_bit 4 b) OR
     drop_bit 2 (push_bit 2 (take_bit 4 b)) = (b :: u8)"
  by (rule u8_eqI; simp only: bit_simps; simp add: bit_simps)+

section \<open>Decoding undoes encoding\<close>

text \<open>The decoder consumes one quad of alphabet characters or pads at a block boundary.\<close>

lemma decode_loop_quad:
  assumes "dtable ! unat c0 = b0" "dtable ! unat c1 = b1" "dtable ! unat c2 = b2" "dtable ! unat c3 = b3"
    and "b0 \<noteq> 0x80" "b1 \<noteq> 0x80" "b2 \<noteq> 0x80" "b3 \<noteq> 0x80"
  shows "base64_decode_loop (c0 # c1 # c2 # c3 # src) inp block 0 out =
     base64_decode_loop src (inp(0 := c0, 1 := c1, 2 := c2, 3 := c3))
       (block(0 := b0, 1 := b1, 2 := b2, 3 := b3)) 0
       (out @ [push_bit 2 b0 OR drop_bit 4 b1, push_bit 4 b1 OR drop_bit 2 b2, push_bit 6 b2 OR b3])"
  using assms by (simp add: Let_def numeral_2_eq_2 numeral_3_eq_3 eval_nat_numeral)

lemma decode_loop_newline:
  "base64_decode_loop (0x0a # src) inp block 0 out = base64_decode_loop src inp block 0 out"
  by simp

abbreviation sym64 :: "u8 \<Rightarrow> u8" where
  "sym64 w \<equiv> base_64_table ! unat w"

abbreviation quad_syms :: "u8 \<Rightarrow> u8 \<Rightarrow> u8 \<Rightarrow> u8 list" where
  "quad_syms i0 i1 i2 \<equiv>
     [sym64 (drop_bit 2 i0), sym64 (push_bit 4 (take_bit 2 i0) OR drop_bit 4 i1),
      sym64 (push_bit 2 (take_bit 4 i1) OR drop_bit 6 i2), sym64 (take_bit 6 i2)]"

lemma decode_quad:
  "\<exists>inp' block'. base64_decode_loop (quad_syms i0 i1 i2 @ src) inp block 0 out =
     base64_decode_loop src inp' block' 0 (out @ [i0, i1, i2]) \<and> inp' 2 \<noteq> 0x3d \<and> inp' 3 \<noteq> 0x3d"
proof -
  note step = decode_loop_quad [OF dtable_table dtable_table dtable_table dtable_table,
      OF sextets(1) [of i0] sextets(2) [of i0 i1] sextets(3) [of i1 i2] sextets(4) [of i2]
         sextet_valid sextet_valid sextet_valid sextet_valid,
      OF sextets(1) [of i0] sextets(2) [of i0 i1] sextets(3) [of i1 i2] sextets(4) [of i2],
      unfolded unpack]
  show ?thesis unfolding append.simps step by (intro exI conjI, rule refl) simp_all
qed

lemma decode_pad1:
  "\<exists>inp' block'. base64_decode_loop ([sym64 (drop_bit 2 i0), sym64 (push_bit 4 (take_bit 2 i0)), 0x3d, 0x3d] @ src)
       inp block 0 out =
     base64_decode_loop src inp' block' 0 (out @ [i0, push_bit 4 (push_bit 4 (take_bit 2 i0)) OR drop_bit 2 0, 0]) \<and>
     inp' 2 = 0x3d"
proof -
  note step = decode_loop_quad [OF dtable_table dtable_table _ _, of _ _ "0x3d" 0 "0x3d" 0,
      OF sextets(1) [of i0] sextets(5) [of i0] _ _ sextet_valid sextet_valid,
      OF _ _ sextets(1) [of i0] sextets(5) [of i0], unfolded unpack]
  have "base64_decode_loop ([sym64 (drop_bit 2 i0), sym64 (push_bit 4 (take_bit 2 i0)), 0x3d, 0x3d] @ src) inp block 0 out =
     base64_decode_loop src
       (inp(0 := sym64 (drop_bit 2 i0), 1 := sym64 (push_bit 4 (take_bit 2 i0)), 2 := 0x3d, 3 := 0x3d))
       (block(0 := drop_bit 2 i0, 1 := push_bit 4 (take_bit 2 i0), 2 := 0, 3 := 0)) 0
       (out @ [i0, push_bit 4 (push_bit 4 (take_bit 2 i0)) OR drop_bit 2 0, push_bit 6 0 OR 0])"
    unfolding append.simps by (rule step) simp_all
  then show ?thesis by (intro exI conjI) (simp only: push_bit_of_0 or.left_neutral, simp)
qed

lemma decode_pad2:
  "\<exists>inp' block'. base64_decode_loop ([sym64 (drop_bit 2 i0), sym64 (push_bit 4 (take_bit 2 i0) OR drop_bit 4 i1),
         sym64 (push_bit 2 (take_bit 4 i1)), 0x3d] @ src) inp block 0 out =
     base64_decode_loop src inp' block' 0 (out @ [i0, i1, push_bit 6 (push_bit 2 (take_bit 4 i1)) OR 0]) \<and>
     inp' 2 \<noteq> 0x3d \<and> inp' 3 = 0x3d"
proof -
  note step = decode_loop_quad [OF dtable_table dtable_table dtable_table _, of _ _ _ "0x3d" 0,
      OF sextets(1) [of i0] sextets(2) [of i0 i1] sextets(6) [of i1] _ sextet_valid sextet_valid sextet_valid,
      OF _ sextets(1) [of i0] sextets(2) [of i0 i1] sextets(6) [of i1], unfolded unpack]
  show ?thesis unfolding append.simps
    by (subst step) (simp_all, intro exI conjI, rule refl, simp_all)
qed

text \<open>
  The body of the text: the encoder loop's output, decoded from a block boundary, gives
  back the bytes the loop consumed, ends at a block boundary, and leaves in \<^verbatim>\<open>in[2]\<close>,
  \<^verbatim>\<open>in[3]\<close> no pad when it consumed anything.
\<close>

definition loop_inverts :: "u8 list \<Rightarrow> u8 list \<Rightarrow> bool" where
  "loop_inverts out cons \<longleftrightarrow>
     (\<forall>tl inp block acc. \<exists>inp' block'.
        base64_decode_loop (out @ tl) inp block 0 acc = base64_decode_loop tl inp' block' 0 (acc @ cons) \<and>
        (if cons = [] then inp' = inp else inp' 2 \<noteq> 0x3d \<and> inp' 3 \<noteq> 0x3d))"

lemma loop_inverts_Nil: "loop_inverts [] []"
  by (auto simp: loop_inverts_def)

lemma loop_inverts_newline: "loop_inverts out cons \<Longrightarrow> loop_inverts (0x0a # out) cons"
  by (simp add: loop_inverts_def)

lemma loop_inverts_quad:
  assumes "loop_inverts out cons"
  shows "loop_inverts (quad_syms i0 i1 i2 @ out) ([i0, i1, i2] @ cons)"
  unfolding loop_inverts_def
proof (intro allI)
  fix tl :: "u8 list" and inp block :: "nat \<Rightarrow> u8" and acc :: "u8 list"
  obtain inp1 block1 where q:
    "base64_decode_loop (quad_syms i0 i1 i2 @ out @ tl) inp block 0 acc =
       base64_decode_loop (out @ tl) inp1 block1 0 (acc @ [i0, i1, i2])"
    "inp1 2 \<noteq> 0x3d" "inp1 3 \<noteq> 0x3d"
    using decode_quad by meson
  from assms obtain inp2 block2 where r:
    "base64_decode_loop (out @ tl) inp1 block1 0 (acc @ [i0, i1, i2]) =
       base64_decode_loop tl inp2 block2 0 ((acc @ [i0, i1, i2]) @ cons)"
    "if cons = [] then inp2 = inp1 else inp2 2 \<noteq> 0x3d \<and> inp2 3 \<noteq> 0x3d"
    unfolding loop_inverts_def by meson
  have "inp2 2 \<noteq> 0x3d \<and> inp2 3 \<noteq> 0x3d" using r(2) q(2,3) by (auto split: if_splits)
  then show "\<exists>inp' block'. base64_decode_loop ((quad_syms i0 i1 i2 @ out) @ tl) inp block 0 acc =
       base64_decode_loop tl inp' block' 0 (acc @ [i0, i1, i2] @ cons) \<and>
       (if [i0, i1, i2] @ cons = [] then inp' = inp else inp' 2 \<noteq> 0x3d \<and> inp' 3 \<noteq> 0x3d)"
    using q(1) r(1) by (intro exI [of _ inp2] exI [of _ block2]) simp
qed

lemma encode_loop_step:
  "base64_encode_loop (i0 # i1 # i2 # src) l =
     (let (nl, l1) = (if 72 \<le> l + 4 then ([0x0a], 0) else ([], l + 4));
          (out, rest, l2) = base64_encode_loop src l1
      in (quad_syms i0 i1 i2 @ nl @ out, rest, l2))"
  by (simp add: Let_def split: prod.splits)

lemma encode_loop_inverts:
  "base64_encode_loop src l = (out, rest, l') \<Longrightarrow>
     length rest < 3 \<and> (\<exists>cons. src = cons @ rest \<and> loop_inverts out cons)"
proof (induction src arbitrary: l out rest l' rule: length_induct)
  case (1 src)
  consider i0 i1 i2 more where "src = i0 # i1 # i2 # more" | "length src < 3"
    by (cases "(src, l)" rule: base64_encode_loop.cases) auto
  then show ?case
  proof cases
    case 1
    obtain nl l1 where nl: "(nl, l1) = (if 72 \<le> l + 4 then ([0x0a :: u8], 0) else ([], l + 4 :: nat))"
      by (metis surj_pair)
    obtain out' r l2 where rec: "base64_encode_loop more l1 = (out', r, l2)"
      by (metis surj_pair)
    have out: "out = quad_syms i0 i1 i2 @ nl @ out'" "rest = r"
      using "1.prems" unfolding 1 encode_loop_step nl [symmetric] by (simp_all add: rec)
    have "length more < length src" by (simp add: 1)
    with "1.IH" rec obtain cons where IH: "length r < 3" "more = cons @ r" "loop_inverts out' cons"
      by blast
    have "loop_inverts (nl @ out') cons"
      using IH(3) nl loop_inverts_newline by (auto split: if_splits)
    then have "loop_inverts out ([i0, i1, i2] @ cons)"
      unfolding out by (rule loop_inverts_quad)
    then show ?thesis using IH out 1 by (intro conjI exI [of _ "[i0, i1, i2] @ cons"]) auto
  next
    case 2
    then have "base64_encode_loop src l = ([], src, l)"
      by (cases "(src, l)" rule: base64_encode_loop.cases) auto
    then have "out = []" "rest = src" using "1.prems" by simp_all
    with 2 show ?thesis by (simp add: loop_inverts_Nil)
  qed
qed

text \<open>The number of alphabet characters and pads in the text is a multiple of four.\<close>

lemma count_valid_append [simp]: "count_valid (xs @ ys) = count_valid xs + count_valid ys"
  by (simp add: count_valid_def)

lemma count_valid_Nil [simp]: "count_valid [] = 0"
  by (simp add: count_valid_def)

lemma count_valid_Cons [simp]:
  "count_valid (x # xs) = (if dtable ! unat x = 0x80 then count_valid xs else Suc (count_valid xs))"
  by (simp add: count_valid_def)

lemmas sextets_valid [simp] = sextets [THEN sextet_valid]

lemma count_encode_loop:
  "base64_encode_loop src l = (out, rest, l') \<Longrightarrow> count_valid out mod 4 = 0"
proof (induction src l arbitrary: out rest l' rule: base64_encode_loop.induct)
  case (1 i0 i1 i2 src l)
  obtain nl l1 where nl: "(nl, l1) = (if 72 \<le> l + 4 then ([0x0a :: u8], 0) else ([], l + 4 :: nat))"
    by (metis surj_pair)
  obtain out' r l2 where rec: "base64_encode_loop src l1 = (out', r, l2)"
    by (metis surj_pair)
  have out: "out = quad_syms i0 i1 i2 @ nl @ out'"
    using "1.prems" unfolding encode_loop_step nl [symmetric] by (simp add: rec)
  have "count_valid out' mod 4 = 0" using "1.IH" [OF refl refl nl refl rec] .
  moreover have "count_valid nl = 0" using nl by (auto split: if_splits)
  moreover have "count_valid (quad_syms i0 i1 i2) = 4" by simp
  ultimately show ?case unfolding out count_valid_append by simp
qed simp_all

definition tail_syms :: "u8 list \<Rightarrow> u8 list" where
  "tail_syms rest =
     (case rest of [] \<Rightarrow> []
      | [i0] \<Rightarrow> [sym64 (drop_bit 2 i0), sym64 (push_bit 4 (take_bit 2 i0)), 0x3d, 0x3d]
      | i0 # i1 # _ \<Rightarrow> [sym64 (drop_bit 2 i0), sym64 (push_bit 4 (take_bit 2 i0) OR drop_bit 4 i1),
                         sym64 (push_bit 2 (take_bit 4 i1)), 0x3d])"

lemma base64_encode_eq:
  assumes "base64_encode_loop src 0 = (out, rest, l)"
  shows "base64_encode src True =
     Some (out @ tail_syms rest @ (if l \<noteq> 0 \<or> rest \<noteq> [] then [0x0a] else []))"
  unfolding base64_encode_def tail_syms_def assms
  by (cases rest rule: remdups_adj.cases) simp_all

lemma count_tail_syms: "length rest < 3 \<Longrightarrow> count_valid (tail_syms rest) mod 4 = 0"
  by (cases rest rule: remdups_adj.cases) (simp_all add: tail_syms_def)

lemma decode_tail:
  "base64_decode_loop (if b then [0x0a] else []) inp block 0 out = (out, inp)"
  by (cases b) simp_all

lemma count_encode:
  assumes "base64_encode src True = Some t64"
  shows "count_valid t64 mod 4 = 0"
proof -
  obtain out rest l where e: "base64_encode_loop src 0 = (out, rest, l)" by (metis surj_pair)
  have "length rest < 3" using encode_loop_inverts [OF e] by simp
  then have "(count_valid out + count_valid (tail_syms rest)) mod 4 = 0"
    using count_encode_loop [OF e] count_tail_syms [of rest] by presburger
  moreover have "count_valid t64 = count_valid out + count_valid (tail_syms rest)"
    using assms unfolding base64_encode_eq [OF e] by (auto simp del: base64_encode_loop.simps)
  ultimately show ?thesis by simp
qed

lemma base64_decode_loop_result:
  assumes "base64_decode_loop t64 in0 block0 0 [] = (out, inp)" and "count_valid t64 mod 4 = 0"
  shows "base64_decode True in0 block0 t64 True =
    (let out' = (if out = [] then out
                 else if inp 2 = 0x3d then take (length out - 2) out
                 else if inp 3 = 0x3d then take (length out - 1) out else out)
     in (1, Some (length out'), out'))"
  using assms by (simp add: base64_decode_def Let_def)

lemma decode_encoded:
  assumes enc: "base64_encode src True = Some t64"
  obtains out inp where "base64_decode_loop t64 in0 block0 0 [] = (out, inp)"
    and "(out = src \<and> (src \<noteq> [] \<longrightarrow> inp 2 \<noteq> 0x3d \<and> inp 3 \<noteq> 0x3d)) \<or>
         (\<exists>x y. out = src @ [x, y] \<and> inp 2 = 0x3d) \<or>
         (\<exists>x. out = src @ [x] \<and> inp 2 \<noteq> 0x3d \<and> inp 3 = 0x3d)"
proof -
  obtain body rest l where e: "base64_encode_loop src 0 = (body, rest, l)" by (metis surj_pair)
  from encode_loop_inverts [OF e] obtain cons where
    rest: "length rest < 3" and src: "src = cons @ rest" and inv: "loop_inverts body cons" by blast
  define nl where "nl = (if l \<noteq> 0 \<or> rest \<noteq> [] then [0x0a :: u8] else [])"
  have t64: "t64 = body @ tail_syms rest @ nl"
    using enc unfolding base64_encode_eq [OF e] nl_def by simp
  obtain inp1 block1 where b:
    "base64_decode_loop t64 in0 block0 0 [] = base64_decode_loop (tail_syms rest @ nl) inp1 block1 0 cons"
    "if cons = [] then inp1 = in0 else inp1 2 \<noteq> 0x3d \<and> inp1 3 \<noteq> 0x3d"
    using inv unfolding loop_inverts_def t64 by (metis append_Nil)
  have nl: "base64_decode_loop nl i bl 0 acc = (acc, i)" for i bl acc
    unfolding nl_def by (rule decode_tail)
  from rest consider "rest = []" | i0 where "rest = [i0]" | i0 i1 where "rest = [i0, i1]"
    by (cases rest rule: remdups_adj.cases) auto
  then show ?thesis
  proof cases
    case 1
    with b nl src show ?thesis by (intro that [of cons inp1]) (auto simp: tail_syms_def split: if_splits)
  next
    case 2
    obtain inp2 block2 x where
      "base64_decode_loop (tail_syms rest @ nl) inp1 block1 0 cons = (cons @ [i0, x, 0], inp2)" "inp2 2 = 0x3d"
      using decode_pad1 [of i0 nl inp1 block1 cons] nl unfolding 2 tail_syms_def by auto
    with b(1) src 2 show ?thesis by (intro that [of "cons @ [i0, x, 0]" inp2]) auto
  next
    case 3
    obtain inp2 block2 x where
      "base64_decode_loop (tail_syms rest @ nl) inp1 block1 0 cons = (cons @ [i0, i1, x], inp2)"
      "inp2 2 \<noteq> 0x3d" "inp2 3 = 0x3d"
      using decode_pad2 [of i0 i1 nl inp1 block1 cons] nl unfolding 3 tail_syms_def by auto
    with b(1) src 3 show ?thesis by (intro that [of "cons @ [i0, i1, x]" inp2]) auto
  qed
qed

text \<open>
  C33. Round trip of the base64 component: for every input the encoder succeeds, and
  decoding its text, line feeds and padding included, returns 1, sets \<^verbatim>\<open>*out_len\<close> to the
  input's length and gives back exactly the input bytes, whatever the decoder's
  uninitialised local arrays held.
\<close>

theorem base64_roundtrip:
  "\<exists>t64. base64_encode src True = Some t64 \<and>
     base64_decode True in0 block0 t64 True = (1, Some (length src), src)"
proof -
  obtain body rest l where e: "base64_encode_loop src 0 = (body, rest, l)" by (metis surj_pair)
  then obtain t64 where enc: "base64_encode src True = Some t64"
    by (auto simp: base64_encode_eq [OF e])
  obtain out inp where d: "base64_decode_loop t64 in0 block0 0 [] = (out, inp)" and
    "(out = src \<and> (src \<noteq> [] \<longrightarrow> inp 2 \<noteq> 0x3d \<and> inp 3 \<noteq> 0x3d)) \<or>
     (\<exists>x y. out = src @ [x, y] \<and> inp 2 = 0x3d) \<or>
     (\<exists>x. out = src @ [x] \<and> inp 2 \<noteq> 0x3d \<and> inp 3 = 0x3d)"
    using decode_encoded [OF enc] .
  then have "base64_decode True in0 block0 t64 True = (1, Some (length src), src)"
    unfolding base64_decode_loop_result [OF d count_encode [OF enc]] by (auto simp: Let_def)
  with enc show ?thesis by blast
qed

section \<open>The encoder stays inside the advertised buffer\<close>

lemma encode_loop_length:
  assumes "base64_encode_loop src l = (out, rest, l')" and "l < 72" and "4 dvd l"
  shows "length out = 4 * (length src div 3) + (l + 4 * (length src div 3)) div 72 \<and>
    length rest = length src mod 3 \<and> l' = (l + 4 * (length src div 3)) mod 72"
  using assms
proof (induction src l arbitrary: out rest l' rule: base64_encode_loop.induct)
  case (1 i0 i1 i2 src l)
  let ?g = "length src div 3"
  obtain nl l1 where nl: "(nl, l1) = (if 72 \<le> l + 4 then ([0x0a :: u8], 0) else ([], l + 4 :: nat))"
    by (metis surj_pair)
  obtain out' r l2 where rec: "base64_encode_loop src l1 = (out', r, l2)"
    by (metis surj_pair)
  have out: "out = quad_syms i0 i1 i2 @ nl @ out'" "rest = r" "l' = l2"
    using "1.prems"(1) unfolding encode_loop_step nl [symmetric] by (simp_all add: rec)
  obtain k where k: "l = 4 * k" using "1.prems"(3) ..
  with "1.prems"(2) have l: "l + 4 = 72 \<or> l + 4 < 72" "4 dvd l + 4" by (presburger, simp)
  then have l1: "l1 < 72" "4 dvd l1" using nl by (auto split: if_splits)
  have IH: "length out' = 4 * ?g + (l1 + 4 * ?g) div 72"
    "length r = length src mod 3" "l2 = (l1 + 4 * ?g) mod 72"
    using "1.IH" [OF refl refl nl refl rec l1] by auto
  have len: "length (i0 # i1 # i2 # src) div 3 = Suc ?g" "length (i0 # i1 # i2 # src) mod 3 = length src mod 3"
    using div_add_self2 [of 3 "length src"] mod_add_self2 [of "length src" 3] by simp_all
  have nll: "length nl + (l1 + 4 * ?g) div 72 = (l + 4 + 4 * ?g) div 72"
    "(l1 + 4 * ?g) mod 72 = (l + 4 + 4 * ?g) mod 72"
    using nl l(1) by (auto split: if_splits)
  show ?case unfolding len out using IH nll by (simp add: add.assoc)
qed simp_all

lemma ceil_div_72: "x div 72 + (if x mod 72 \<noteq> 0 then 1 else 0) = (x + 71) div (72 :: nat)"
proof -
  have "(x + 71) div 72 = x div 72 + (x mod 72 + 71) div 72"
    using div_mult_self2 [of 72 "x mod 72 + 71" "x div 72"] by (simp add: algebra_simps)
  moreover have "(x mod 72 + 71) div 72 = (if x mod 72 \<noteq> 0 then 1 else 0)"
  proof (cases "x mod 72 = 0")
    case False
    moreover have "x mod 72 < 72" by simp
    ultimately have "1 * 72 \<le> x mod 72 + 71" "x mod 72 + 71 < 2 * 72" by linarith+
    then have "(x mod 72 + 71) div 72 = 1" by (simp add: div_nat_eqI)
    with False show ?thesis by simp
  qed simp
  ultimately show ?thesis by simp
qed

lemma ceil_div_72_tail: "4 * g + 4 * g div 72 + 5 \<le> 4 * Suc g + (4 * Suc g + 71) div (72 :: nat)"
proof -
  have "4 * g div 72 + 1 = (4 * g + 72) div 72" by simp
  also have "\<dots> \<le> (4 * Suc g + 71) div 72" by (rule div_le_mono) simp
  finally show ?thesis by simp
qed

lemma encode_length:
  assumes "base64_encode src True = Some t64"
  shows "length t64 \<le> 4 * ((length src + 2) div 3) + (4 * ((length src + 2) div 3) + 71) div 72"
proof -
  let ?n = "length src"
  obtain out rest l where e: "base64_encode_loop src 0 = (out, rest, l)" by (metis surj_pair)
  have loop: "length out = 4 * (?n div 3) + (4 * (?n div 3)) div 72" "length rest = ?n mod 3"
    "l = (4 * (?n div 3)) mod 72"
    using encode_loop_length [OF e] by auto
  have t64: "t64 = out @ tail_syms rest @ (if l \<noteq> 0 \<or> rest \<noteq> [] then [0x0a] else [])"
    using assms by (simp add: base64_encode_eq [OF e])
  have tail: "length (tail_syms rest) = (if rest = [] then 0 else 4)"
    by (simp add: tail_syms_def split: list.splits)
  show ?thesis
  proof (cases "rest = []")
    case True
    then have "?n mod 3 = 0" using loop(2) by simp
    then have "(?n + 2) div 3 = ?n div 3" by presburger
    moreover have "length t64 = 4 * (?n div 3) + (4 * (?n div 3) div 72 +
        (if 4 * (?n div 3) mod 72 \<noteq> 0 then 1 else 0))"
      unfolding t64 using True tail loop(1,3) by simp
    ultimately show ?thesis by (simp only: ceil_div_72)
  next
    case False
    then have "?n mod 3 \<noteq> 0" using loop(2) by (metis length_0_conv)
    then have g: "(?n + 2) div 3 = Suc (?n div 3)" by presburger
    have "length t64 = 4 * (?n div 3) + (4 * (?n div 3)) div 72 + 5"
      unfolding t64 using False tail loop(1) by simp
    then show ?thesis unfolding g using ceil_div_72_tail [of "?n div 3"] by simp
  qed
qed

lemma unat_calc_encode_length:
  assumes "n < 2 ^ 30"
  shows "unat (base64_calc_encode_length (word_of_nat n)) =
     n * 4 div 3 + 4 + (n * 4 div 3 + 4) div 72 + 1"
proof -
  have nn: "unat (word_of_nat n :: u32) = n"
    using assms by (simp add: unsigned_of_nat take_bit_nat_eq_self)
  have n4: "unat (word_of_nat n * 4 :: u32) = n * 4"
    using assms by (simp add: unat_word_ariths nn del: unsigned_of_nat)
  have e1: "unat (word_of_nat n * 4 div 3 + 4 :: u32) = n * 4 div 3 + 4"
    using assms by (simp add: unat_word_ariths unat_div nn del: unsigned_of_nat)
  have "unat ((word_of_nat n * 4 div 3 + 4) div 72 :: u32) = (n * 4 div 3 + 4) div 72"
    by (simp add: unat_div e1 del: unsigned_of_nat)
  then have "unat (word_of_nat n * 4 div 3 + 4 + (word_of_nat n * 4 div 3 + 4) div 72 :: u32) =
      n * 4 div 3 + 4 + (n * 4 div 3 + 4) div 72"
    using assms e1 by (subst unat_word_ariths(1)) (simp del: unsigned_of_nat)
  then show ?thesis
    unfolding base64_calc_encode_length_def Let_def
    using assms by (subst unat_word_ariths(1)) (simp del: unsigned_of_nat)
qed

lemma encode_length_estimate:
  "4 * ((n + 2) div 3) + (4 * ((n + 2) div 3) + 71) div 72 \<le>
     n * 4 div 3 + 4 + (n * 4 div 3 + 4) div (72 :: nat)"
proof -
  define q where "q = (n + 2) div 3"
  have "3 * q \<le> n + 2" "n * 4 \<le> 3 * (n * 4 div 3) + 2" unfolding q_def by linarith+
  then have q: "4 * q \<le> n * 4 div 3 + 3" by linarith
  have "(4 * q + 71) div 72 \<le> (n * 4 div 3 + 4 + 72) div 72"
    using q by (intro div_le_mono) linarith
  also have "\<dots> = (n * 4 div 3 + 4) div 72 + 1" by simp
  finally show ?thesis using q unfolding q_def [symmetric] by linarith
qed

text \<open>
  Buffer safety of the encoder: for inputs below 1 GiB (so that the 32-bit product in
  \<^verbatim>\<open>base64_calc_encode_length\<close> does not wrap) the text together with its terminating
  \<^verbatim>\<open>'\0'\<close> fits in a buffer of the size that \<^verbatim>\<open>base64_calc_encode_length\<close> reports.
\<close>

theorem base64_encode_fits:
  assumes "base64_encode src True = Some t64" and "length src < 2 ^ 30"
  shows "length t64 + 1 \<le> unat (base64_calc_encode_length (word_of_nat (length src)))"
  unfolding unat_calc_encode_length [OF assms(2)]
  using encode_length [OF assms(1)] encode_length_estimate [of "length src"] by linarith

theorem base64_encode_fits_witness:
  "base64_encode [0x4d, 0x61] True = Some [0x54, 0x57, 0x45, 0x3d, 0x0a] \<and>
   length [0x54, 0x57, 0x45, 0x3d, 0x0a :: u8] + 1 \<le>
     unat (base64_calc_encode_length (word_of_nat (length [0x4d, 0x61 :: u8])))"
proof -
  have e: "base64_encode [0x4d, 0x61] True = Some [0x54, 0x57, 0x45, 0x3d, 0x0a]" by code_simp
  show ?thesis using e base64_encode_fits [OF e] by simp
qed

end
