(* ===== verification/Bk_Event.thy ===== *)
theory Bk_Event
  imports Prelude
begin

text \<open>
  The event dispatcher of \<^verbatim>\<open>components/bk_event\<close>. One task owns a registry of callbacks: a
  list of module nodes, each with the callbacks for all events of the module and a list of
  event nodes with the callbacks for one event. Other tasks talk to it through a queue of 16
  message pointers. Registration messages are synchronous: they live on the caller's stack and
  carry a semaphore. Posted events are asynchronous and are allocated with a copy of their data.

  The first section is the registry, the second the messages and the task, the third the API.
  Then come the well-formedness invariant, the refinement of the registry to a table of
  subscriptions, the accounting of heap blocks, and the step system of the whole component.
  A callback is an address. Running it is recorded in a trace: only the event task changes the
  registry, and while a callback runs the event task is inside that callback.
\<close>

section \<open>The registry\<close>

abbreviation EVENT_MOD_COUNT :: int where "EVENT_MOD_COUNT \<equiv> 3"
abbreviation EVENT_ID_ALL :: int where "EVENT_ID_ALL \<equiv> - 1"
abbreviation EVENT_QUEUE_SIZE :: nat where "EVENT_QUEUE_SIZE \<equiv> 16"
abbreviation BK_ERR_EVENT_BASE :: bk_err_t where "BK_ERR_EVENT_BASE \<equiv> - 0x1b00"
abbreviation BK_ERR_EVENT_MOD_OR_ID :: bk_err_t where "BK_ERR_EVENT_MOD_OR_ID \<equiv> BK_ERR_EVENT_BASE - 3"
abbreviation BK_ERR_EVENT_CB_EXIST :: bk_err_t where "BK_ERR_EVENT_CB_EXIST \<equiv> BK_ERR_EVENT_BASE - 4"
abbreviation BK_ERR_EVENT_NO_CB :: bk_err_t where "BK_ERR_EVENT_NO_CB \<equiv> BK_ERR_EVENT_BASE - 5"
abbreviation BK_ERR_EVENT_NULL_MSG :: bk_err_t where "BK_ERR_EVENT_NULL_MSG \<equiv> BK_ERR_EVENT_BASE - 9"
abbreviation BK_ERR_EVENT_INIT_SEM :: bk_err_t where "BK_ERR_EVENT_INIT_SEM \<equiv> BK_ERR_EVENT_BASE - 10"
abbreviation BK_ERR_EVENT_POST_QUEUE :: bk_err_t where "BK_ERR_EVENT_POST_QUEUE \<equiv> BK_ERR_EVENT_BASE - 12"
abbreviation BK_ERR_EVENT_UNKNOWN_MSG :: bk_err_t where "BK_ERR_EVENT_UNKNOWN_MSG \<equiv> BK_ERR_EVENT_BASE - 13"

record event_cb_node_t =
  event_cb :: addr
  event_cb_arg :: addr

record event_node_t =
  node_event_id :: int
  node_cb_list :: "event_cb_node_t list"

record event_module_node_t =
  event_module_id :: int
  event_node_list :: "event_node_t list"
  module_cb_list :: "event_cb_node_t list"

record event_info_t =
  info_module_id :: int
  info_event_id :: int
  info_event_data :: "u8 list option"

record event_register_info_t =
  reg_module_id :: int
  reg_event_id :: int
  reg_event_cb :: addr
  reg_event_cb_arg :: addr

type_synonym event_registry = "event_module_node_t list"

definition event_is_invalid :: "int \<Rightarrow> int \<Rightarrow> bool" where
  "event_is_invalid event_module event_id \<longleftrightarrow>
     event_module \<ge> EVENT_MOD_COUNT \<or> event_module < 0 \<or>
     event_id \<noteq> EVENT_ID_ALL \<and> event_id < 0"

definition register_cb_to_cb_list ::
  "event_register_info_t \<Rightarrow> event_cb_node_t list \<Rightarrow> heap \<Rightarrow> bk_err_t \<times> event_cb_node_t list \<times> heap" where
  "register_cb_to_cb_list reg_info cb_list h =
     (case split_first (\<lambda>cb_node. event_cb cb_node = reg_event_cb reg_info) cb_list of
        Some _ \<Rightarrow> (BK_ERR_EVENT_CB_EXIST, cb_list, h)
      | None \<Rightarrow>
          (case os_zalloc h of
             (False, h) \<Rightarrow> (BK_ERR_NO_MEM, cb_list, h)
           | (True, h) \<Rightarrow>
               (BK_OK,
                cb_list @ [\<lparr>event_cb = reg_event_cb reg_info, event_cb_arg = reg_event_cb_arg reg_info\<rparr>],
                h)))"

definition register_cb_to_event_node_list ::
  "event_register_info_t \<Rightarrow> event_node_t list \<Rightarrow> heap \<Rightarrow> bk_err_t \<times> event_node_t list \<times> heap" where
  "register_cb_to_event_node_list reg_info nodes h =
     (case split_first (\<lambda>event_node. node_event_id event_node = reg_event_id reg_info) nodes of
        Some (pre, event_node, post) \<Rightarrow>
          (case register_cb_to_cb_list reg_info (node_cb_list event_node) h of
             (ret, cbs, h) \<Rightarrow> (ret, pre @ event_node\<lparr>node_cb_list := cbs\<rparr> # post, h))
      | None \<Rightarrow>
          (case os_zalloc h of
             (False, h) \<Rightarrow> (BK_ERR_NO_MEM, nodes, h)
           | (True, h) \<Rightarrow>
               (case register_cb_to_cb_list reg_info [] h of
                  (ret, cbs, h) \<Rightarrow>
                    if ret \<noteq> BK_OK then (ret, nodes, os_free h)
                    else (BK_OK,
                          nodes @ [\<lparr>node_event_id = reg_event_id reg_info, node_cb_list = cbs\<rparr>], h))))"

definition register_cb_to_module_node ::
  "event_register_info_t \<Rightarrow> event_module_node_t \<Rightarrow> heap \<Rightarrow> bk_err_t \<times> event_module_node_t \<times> heap" where
  "register_cb_to_module_node reg_info module_node h =
     (if reg_event_id reg_info = EVENT_ID_ALL then
        (case register_cb_to_cb_list reg_info (module_cb_list module_node) h of
           (ret, cbs, h) \<Rightarrow> (ret, module_node\<lparr>module_cb_list := cbs\<rparr>, h))
      else
        (case register_cb_to_event_node_list reg_info (event_node_list module_node) h of
           (ret, nodes, h) \<Rightarrow> (ret, module_node\<lparr>event_node_list := nodes\<rparr>, h)))"

definition register_cb ::
  "event_register_info_t \<Rightarrow> event_registry \<Rightarrow> heap \<Rightarrow> bk_err_t \<times> event_registry \<times> heap" where
  "register_cb reg_info modules h =
     (case split_first (\<lambda>module_node. event_module_id module_node = reg_module_id reg_info) modules of
        Some (pre, module_node, post) \<Rightarrow>
          (case register_cb_to_module_node reg_info module_node h of
             (ret, node, h) \<Rightarrow> (ret, pre @ node # post, h))
      | None \<Rightarrow>
          (case os_zalloc h of
             (False, h) \<Rightarrow> (BK_ERR_NO_MEM, modules, h)
           | (True, h) \<Rightarrow>
               (case register_cb_to_module_node reg_info
                       \<lparr>event_module_id = reg_module_id reg_info, event_node_list = [], module_cb_list = []\<rparr> h of
                  (ret, node, h) \<Rightarrow>
                    if ret \<noteq> BK_OK then (ret, modules, os_free h)
                    else (BK_OK, modules @ [node], h))))"

definition unregister_cb_from_cb_list ::
  "event_register_info_t \<Rightarrow> event_cb_node_t list \<Rightarrow> heap \<Rightarrow> bk_err_t \<times> event_cb_node_t list \<times> heap" where
  "unregister_cb_from_cb_list unreg_info cb_list h =
     (case split_first (\<lambda>cb_node. event_cb cb_node = reg_event_cb unreg_info) cb_list of
        Some (pre, cb_node, post) \<Rightarrow> (BK_OK, pre @ post, os_free h)
      | None \<Rightarrow> (BK_ERR_EVENT_NO_CB, cb_list, h))"

definition unregister_cb_from_event_node_list ::
  "event_register_info_t \<Rightarrow> event_node_t list \<Rightarrow> heap \<Rightarrow> bk_err_t \<times> event_node_t list \<times> heap" where
  "unregister_cb_from_event_node_list unreg_info nodes h =
     (case split_first (\<lambda>event_node. node_event_id event_node = reg_event_id unreg_info) nodes of
        Some (pre, event_node, post) \<Rightarrow>
          (case unregister_cb_from_cb_list unreg_info (node_cb_list event_node) h of
             (ret, cbs, h) \<Rightarrow>
               if cbs = [] then (ret, pre @ post, os_free h)
               else (ret, pre @ event_node\<lparr>node_cb_list := cbs\<rparr> # post, h))
      | None \<Rightarrow> (BK_ERR_EVENT_NO_CB, nodes, h))"

definition unregister_cb_from_module_node ::
  "event_register_info_t \<Rightarrow> event_module_node_t \<Rightarrow> heap \<Rightarrow> bk_err_t \<times> event_module_node_t \<times> heap" where
  "unregister_cb_from_module_node unreg_info module_node h =
     (if reg_event_id unreg_info = EVENT_ID_ALL then
        (case unregister_cb_from_cb_list unreg_info (module_cb_list module_node) h of
           (ret, cbs, h) \<Rightarrow> (ret, module_node\<lparr>module_cb_list := cbs\<rparr>, h))
      else
        (case unregister_cb_from_event_node_list unreg_info (event_node_list module_node) h of
           (ret, nodes, h) \<Rightarrow> (ret, module_node\<lparr>event_node_list := nodes\<rparr>, h)))"

definition unregister_cb ::
  "event_register_info_t \<Rightarrow> event_registry \<Rightarrow> heap \<Rightarrow> bk_err_t \<times> event_registry \<times> heap" where
  "unregister_cb unreg_info modules h =
     (case split_first (\<lambda>module_node. event_module_id module_node = reg_module_id unreg_info) modules of
        Some (pre, module_node, post) \<Rightarrow>
          (case unregister_cb_from_module_node unreg_info module_node h of
             (ret, node, h) \<Rightarrow>
               if module_cb_list node = [] \<and> event_node_list node = [] then (ret, pre @ post, os_free h)
               else (ret, pre @ node # post, h))
      | None \<Rightarrow> (BK_ERR_EVENT_NO_CB, modules, h))"

fun event_deinit_cb_list :: "event_cb_node_t list \<Rightarrow> heap \<Rightarrow> heap" where
  "event_deinit_cb_list [] h = h"
| "event_deinit_cb_list (cb_node # cb_list) h = event_deinit_cb_list cb_list (os_free h)"

fun event_deinit_event_nodes :: "event_node_t list \<Rightarrow> heap \<Rightarrow> heap" where
  "event_deinit_event_nodes [] h = h"
| "event_deinit_event_nodes (event_node # nodes) h =
     event_deinit_event_nodes nodes (os_free (event_deinit_cb_list (node_cb_list event_node) h))"

definition event_deinit_module_node :: "event_module_node_t \<Rightarrow> heap \<Rightarrow> heap" where
  "event_deinit_module_node event_module h =
     os_free (event_deinit_event_nodes (event_node_list event_module)
       (event_deinit_cb_list (module_cb_list event_module) h))"

fun event_deinit :: "event_registry \<Rightarrow> heap \<Rightarrow> event_registry \<times> heap" where
  "event_deinit [] h = ([], h)"
| "event_deinit (module_node # modules) h = event_deinit modules (event_deinit_module_node module_node h)"

text \<open>
  One run of a callback: the function, its argument, and the event it is given.
\<close>

record event_call =
  call_cb :: addr
  call_arg :: addr
  call_module_id :: int
  call_event_id :: int
  call_event_data :: "u8 list option"

definition event_post_to_cb_list :: "event_cb_node_t list \<Rightarrow> event_info_t \<Rightarrow> event_call list" where
  "event_post_to_cb_list cb_list event_info =
     map (\<lambda>cb_node. \<lparr>call_cb = event_cb cb_node, call_arg = event_cb_arg cb_node,
            call_module_id = info_module_id event_info, call_event_id = info_event_id event_info,
            call_event_data = info_event_data event_info\<rparr>) cb_list"

definition event_post_to_module :: "event_module_node_t \<Rightarrow> event_info_t \<Rightarrow> event_call list" where
  "event_post_to_module module_node event_info =
     event_post_to_cb_list (module_cb_list module_node) event_info @
     (case split_first (\<lambda>event_node. node_event_id event_node = info_event_id event_info)
             (event_node_list module_node) of
        Some (pre, event_node, post) \<Rightarrow> event_post_to_cb_list (node_cb_list event_node) event_info
      | None \<Rightarrow> [])"

text \<open>Freeing a pointer that may be \<^verbatim>\<open>NULL\<close>, as \<^verbatim>\<open>if (p) os_free(p)\<close> does.\<close>

definition free_data :: "u8 list option \<Rightarrow> heap \<Rightarrow> heap" where
  "free_data event_data h = (if event_data = None then h else os_free h)"

definition event_post ::
  "event_info_t \<Rightarrow> event_registry \<Rightarrow> heap \<Rightarrow> bk_err_t \<times> event_call list \<times> heap" where
  "event_post event_info modules h =
     (if event_is_invalid (info_module_id event_info) (info_event_id event_info)
      then (BK_ERR_EVENT_MOD_OR_ID, [], h)
      else case split_first (\<lambda>module_node. event_module_id module_node = info_module_id event_info) modules of
        Some (pre, module_node, post) \<Rightarrow>
          (BK_OK, event_post_to_module module_node event_info, free_data (info_event_data event_info) h)
      | None \<Rightarrow> (BK_OK, [], free_data (info_event_data event_info) h))"

section \<open>Messages and the event task\<close>

text \<open>
  The tag and the union of \<^verbatim>\<open>event_msg_t\<close>. \<^verbatim>\<open>EVENT_MSG_OTHER\<close> stands for the tags
  no function sends.
\<close>

datatype event_msg_body =
    EVENT_MSG_REGISTER event_register_info_t
  | EVENT_MSG_UNREGISTER event_register_info_t
  | EVENT_MSG_DEINIT
  | EVENT_MSG_POST event_info_t
  | EVENT_MSG_OTHER int

text \<open>
  A synchronous message carries the semaphore its sender waits on; the model names the sender.
  Setting the semaphore and storing \<^verbatim>\<open>sync_msg_ret\<close> is an entry of \<^verbatim>\<open>ev_replies\<close>.
\<close>

record event_msg_t =
  msg_body :: event_msg_body
  is_sync_msg :: bool
  sync_sender :: nat

record event_st =
  s_event_queue :: "event_msg_t list option"
  s_event_task :: bool
  s_event_module_list :: event_registry
  s_event_inited :: bool
  ev_heap :: heap
  ev_blocked :: "event_msg_t list"
  ev_sems :: int
  ev_replies :: "(nat \<times> bk_err_t) list"
  ev_calls :: "event_call list"

definition event_task_handle_msg :: "event_msg_t option \<Rightarrow> event_st \<Rightarrow> bk_err_t \<times> event_st" where
  "event_task_handle_msg msg s =
     (case msg of None \<Rightarrow> (BK_ERR_EVENT_NULL_MSG, s)
      | Some m \<Rightarrow>
        (case msg_body m of
           EVENT_MSG_REGISTER info \<Rightarrow>
             (case register_cb info (s_event_module_list s) (ev_heap s) of
                (ret, modules, h) \<Rightarrow> (ret, s\<lparr>s_event_module_list := modules, ev_heap := h\<rparr>))
         | EVENT_MSG_UNREGISTER info \<Rightarrow>
             (case unregister_cb info (s_event_module_list s) (ev_heap s) of
                (ret, modules, h) \<Rightarrow> (ret, s\<lparr>s_event_module_list := modules, ev_heap := h\<rparr>))
         | EVENT_MSG_POST info \<Rightarrow>
             (case event_post info (s_event_module_list s) (ev_heap s) of
                (ret, calls, h) \<Rightarrow> (ret, s\<lparr>ev_heap := h, ev_calls := ev_calls s @ calls\<rparr>))
         | EVENT_MSG_DEINIT \<Rightarrow> (BK_ERR_EVENT_UNKNOWN_MSG, s)
         | EVENT_MSG_OTHER _ \<Rightarrow> (BK_ERR_EVENT_UNKNOWN_MSG, s)))"


definition event_task_deinit :: "event_st \<Rightarrow> event_st" where
  "event_task_deinit s =
     (case event_deinit (s_event_module_list s) (ev_heap s) of
        (modules, h) \<Rightarrow>
          s\<lparr>s_event_module_list := modules, ev_heap := h, s_event_queue := None, s_event_task := False\<rparr>)"

text \<open>
  One turn of the loop of \<^verbatim>\<open>event_task\<close>: it blocks (no change) while the queue is empty.
  Taking a message lets the RTOS move the message of the first sender that is blocked on the
  full queue into it. The task leaves the loop on a DEINIT message, and otherwise handles the message and either answers
  its sender or frees it.
\<close>

definition event_task :: "event_st \<Rightarrow> event_st" where
  "event_task s =
     (case s_event_queue s of
        None \<Rightarrow> s
      | Some [] \<Rightarrow> s
      | Some (msg # rest) \<Rightarrow>
          let s = s\<lparr>s_event_queue := Some (rest @ take 1 (ev_blocked s)), ev_blocked := drop 1 (ev_blocked s)\<rparr> in
          if msg_body msg = EVENT_MSG_DEINIT then event_task_deinit s
          else case event_task_handle_msg (Some msg) s of
            (event_ret, s) \<Rightarrow>
              if is_sync_msg msg then s\<lparr>ev_replies := ev_replies s @ [(sync_sender msg, event_ret)]\<rparr>
              else s\<lparr>ev_heap := os_free (ev_heap s)\<rparr>)"

section \<open>The API\<close>

text \<open>
  How a call stands after it has sent its message: it has returned, or it waits, for room in
  the full queue or for its semaphore. A synchronous call that waits ends with
  \<^verbatim>\<open>event_send_finish\<close>, an asynchronous one returns once its message is in the queue.
\<close>

datatype 'a send_result = Returns 'a | Waits

text \<open>
  The RTOS decides whether a semaphore can be created (\<^verbatim>\<open>sem_ok\<close>). A push fails on a queue
  that does not exist, and on a full queue once a finite timeout has run out. With the
  timeout \<^verbatim>\<open>BEKEN_WAIT_FOREVER\<close> the sender is blocked, in the order of arrival.
\<close>

abbreviation BEKEN_WAIT_FOREVER :: u32 where "BEKEN_WAIT_FOREVER \<equiv> 0xFFFFFFFF"

definition event_send_msg_to_event_task ::
  "bool \<Rightarrow> event_msg_t \<Rightarrow> u32 \<Rightarrow> event_st \<Rightarrow> bk_err_t send_result \<times> event_st" where
  "event_send_msg_to_event_task sem_ok msg timeout s =
     (if is_sync_msg msg \<and> \<not> sem_ok then (Returns BK_ERR_EVENT_INIT_SEM, s)
      else case s_event_queue s of
        None \<Rightarrow> (Returns BK_ERR_EVENT_POST_QUEUE, s)
      | Some q \<Rightarrow>
          let t = (if is_sync_msg msg then s\<lparr>ev_sems := ev_sems s + 1\<rparr> else s) in
          if length q < EVENT_QUEUE_SIZE then
            (if is_sync_msg msg then Waits else Returns BK_OK, t\<lparr>s_event_queue := Some (q @ [msg])\<rparr>)
          else if timeout = BEKEN_WAIT_FOREVER then (Waits, t\<lparr>ev_blocked := ev_blocked t @ [msg]\<rparr>)
          else (Returns BK_ERR_EVENT_POST_QUEUE, s))"



definition bk_event_deinit :: "event_st \<Rightarrow> bk_err_t send_result \<times> event_st" where
  "bk_event_deinit s =
     (if \<not> s_event_inited s then (Returns BK_OK, s)
      else let s' = s\<lparr>s_event_inited := False\<rparr> in
        case os_zalloc (ev_heap s') of
          (False, h) \<Rightarrow> (Returns BK_ERR_NO_MEM, s'\<lparr>ev_heap := h\<rparr>)
        | (True, h) \<Rightarrow>
            (case event_send_msg_to_event_task False
                    \<lparr>msg_body = EVENT_MSG_DEINIT, is_sync_msg = False, sync_sender = 0\<rparr>
                    BEKEN_WAIT_FOREVER (s'\<lparr>ev_heap := h\<rparr>) of
               (Waits, t) \<Rightarrow> (Waits, t)
             | (Returns ret, t) \<Rightarrow>
                 if ret \<noteq> BK_OK then (Returns BK_FAIL, t\<lparr>ev_heap := os_free (ev_heap t)\<rparr>)
                 else (Returns BK_OK, t)))"




section \<open>What the registry means: a table of subscriptions\<close>

definition wf_event_node :: "event_node_t \<Rightarrow> bool" where
  "wf_event_node e \<longleftrightarrow>
     node_event_id e \<noteq> EVENT_ID_ALL \<and> node_cb_list e \<noteq> [] \<and> distinct (map event_cb (node_cb_list e))"

definition wf_event_nodes :: "event_node_t list \<Rightarrow> bool" where
  "wf_event_nodes es \<longleftrightarrow> distinct (map node_event_id es) \<and> (\<forall>e \<in> set es. wf_event_node e)"

definition wf_module :: "event_module_node_t \<Rightarrow> bool" where
  "wf_module n \<longleftrightarrow> wf_event_nodes (event_node_list n) \<and> distinct (map event_cb (module_cb_list n))"

definition nonempty_module :: "event_module_node_t \<Rightarrow> bool" where
  "nonempty_module n \<longleftrightarrow> module_cb_list n \<noteq> [] \<or> event_node_list n \<noteq> []"

definition wf_registry :: "event_registry \<Rightarrow> bool" where
  "wf_registry ms \<longleftrightarrow>
     distinct (map event_module_id ms) \<and> (\<forall>n \<in> set ms. wf_module n \<and> nonempty_module n)"

text \<open>The callbacks subscribed to one event id (or to all events) of one module.\<close>

definition event_subs :: "event_node_t list \<Rightarrow> int \<Rightarrow> event_cb_node_t list" where
  "event_subs es i = (case find (\<lambda>e. node_event_id e = i) es of None \<Rightarrow> [] | Some e \<Rightarrow> node_cb_list e)"

definition module_subs :: "event_module_node_t \<Rightarrow> int \<Rightarrow> event_cb_node_t list" where
  "module_subs n i = (if i = EVENT_ID_ALL then module_cb_list n else event_subs (event_node_list n) i)"

definition subs :: "event_registry \<Rightarrow> int \<Rightarrow> int \<Rightarrow> event_cb_node_t list" where
  "subs ms m i = (case find (\<lambda>n. event_module_id n = m) ms of None \<Rightarrow> [] | Some n \<Rightarrow> module_subs n i)"

text \<open>The heap blocks a registry consists of.\<close>

definition event_blocks :: "event_node_t list \<Rightarrow> int" where
  "event_blocks es = (\<Sum>e \<leftarrow> es. 1 + int (length (node_cb_list e)))"

definition module_blocks :: "event_module_node_t \<Rightarrow> int" where
  "module_blocks n = 1 + int (length (module_cb_list n)) + event_blocks (event_node_list n)"

definition registry_blocks :: "event_registry \<Rightarrow> int" where
  "registry_blocks ms = (\<Sum>n \<leftarrow> ms. module_blocks n)"

lemmas wf_defs = wf_registry_def wf_module_def wf_event_nodes_def wf_event_node_def
lemmas subs_defs = subs_def module_subs_def event_subs_def
lemmas blocks_defs = registry_blocks_def module_blocks_def event_blocks_def

text \<open>
  The contract of a registration and of its removal at the addressed list of callbacks.
\<close>

definition new_cb :: "event_register_info_t \<Rightarrow> event_cb_node_t" where
  "new_cb r = \<lparr>event_cb = reg_event_cb r, event_cb_arg = reg_event_cb_arg r\<rparr>"

definition registered :: "event_register_info_t \<Rightarrow> event_cb_node_t list \<Rightarrow> bool" where
  "registered r cbs \<longleftrightarrow> reg_event_cb r \<in> event_cb ` set cbs"

definition register_outcome ::
  "event_register_info_t \<Rightarrow> bk_err_t \<Rightarrow> event_cb_node_t list \<Rightarrow> event_cb_node_t list \<Rightarrow> bool" where
  "register_outcome r ret old new \<longleftrightarrow>
     (if registered r old then ret = BK_ERR_EVENT_CB_EXIST \<and> new = old
      else ret = BK_OK \<and> new = old @ [new_cb r] \<or> ret = BK_ERR_NO_MEM \<and> new = old)"

definition unregister_outcome ::
  "event_register_info_t \<Rightarrow> bk_err_t \<Rightarrow> event_cb_node_t list \<Rightarrow> event_cb_node_t list \<Rightarrow> bool" where
  "unregister_outcome r ret old new \<longleftrightarrow>
     (if registered r old then ret = BK_OK else ret = BK_ERR_EVENT_NO_CB) \<and>
     new = filter (\<lambda>n. event_cb n \<noteq> reg_event_cb r) old"

definition heap_moved :: "heap \<Rightarrow> heap \<Rightarrow> int \<Rightarrow> bool" where
  "heap_moved h h' d \<longleftrightarrow> live h' = live h + d \<and> oom h' = oom h \<and> requests h \<le> requests h'"

lemma heap_moved_refl [simp]: "heap_moved h h d \<longleftrightarrow> d = 0"
  by (auto simp: heap_moved_def)

lemma heap_moved_alloc: "os_zalloc h = (ok, h') \<Longrightarrow> heap_moved h h' (if ok then 1 else 0)"
  by (auto simp: heap_moved_def os_zalloc_def split: if_splits)

lemma heap_moved_free: "heap_moved h (os_free h) (- 1)"
  by (auto simp: heap_moved_def)

lemma heap_moved_trans: "heap_moved h h' d \<Longrightarrow> heap_moved h' h'' d' \<Longrightarrow> heap_moved h h'' (d + d')"
  by (auto simp: heap_moved_def)

lemma heap_moved_trans_free: "heap_moved h h' d \<Longrightarrow> heap_moved h (os_free h') (d - 1)"
  by (auto simp: heap_moved_def)

lemma os_zalloc_no_oom: "\<forall>n. \<not> oom h n \<Longrightarrow> fst (os_zalloc h)"
  by (auto simp: os_zalloc_def)

section \<open>Registration\<close>

lemma register_cb_to_cb_list_ok:
  assumes "register_cb_to_cb_list r cbs h = (ret, cbs', h')"
  shows "register_outcome r ret cbs cbs'"
    and "heap_moved h h' (int (length cbs') - int (length cbs))"
    and "ret = BK_ERR_NO_MEM \<Longrightarrow> \<exists>n. oom h n"
  using assms
  by (cases rule: split_first_cases [of cbs "\<lambda>n. event_cb n = reg_event_cb r"];
      auto simp: register_cb_to_cb_list_def register_outcome_def registered_def new_cb_def os_zalloc_def
        heap_moved_def split: if_splits)+

lemma register_outcome_distinct:
  "register_outcome r ret old new \<Longrightarrow> distinct (map event_cb old) \<Longrightarrow> distinct (map event_cb new)"
  by (auto simp: register_outcome_def registered_def new_cb_def split: if_splits)

lemma register_outcome_nonempty: "register_outcome r BK_OK old new \<Longrightarrow> new \<noteq> []"
  by (auto simp: register_outcome_def split: if_splits)

lemma register_outcome_grows: "register_outcome r ret old new \<Longrightarrow> old \<noteq> [] \<Longrightarrow> new \<noteq> []"
  by (auto simp: register_outcome_def split: if_splits)

lemma register_outcome_fresh: "register_outcome r ret [] new \<Longrightarrow> ret = BK_OK \<or> ret = BK_ERR_NO_MEM"
  by (auto simp: register_outcome_def registered_def)

lemma register_outcome_NO_MEM: "\<not> registered r old \<Longrightarrow> register_outcome r BK_ERR_NO_MEM old old"
  by (auto simp: register_outcome_def)

text \<open>
  At an inner level the search either finds its node and works inside it, or appends a node,
  or fails. The three shapes are the same for event nodes and for module nodes.
\<close>

lemma register_cb_to_event_node_list_cases:
  assumes "register_cb_to_event_node_list r es h = (ret, es', h')"
  obtains
    (found) pre e post cbs where "es = pre @ e # post" "node_event_id e = reg_event_id r"
      "\<forall>y \<in> set pre. node_event_id y \<noteq> reg_event_id r" "es' = pre @ e\<lparr>node_cb_list := cbs\<rparr> # post"
      "register_outcome r ret (node_cb_list e) cbs"
      "heap_moved h h' (int (length cbs) - int (length (node_cb_list e)))"
      "ret = BK_ERR_NO_MEM \<longrightarrow> (\<exists>n. oom h n)"
  | (failed) "\<forall>y \<in> set es. node_event_id y \<noteq> reg_event_id r" "ret = BK_ERR_NO_MEM" "es' = es"
      "heap_moved h h' 0" "\<exists>n. oom h n"
  | (added) "\<forall>y \<in> set es. node_event_id y \<noteq> reg_event_id r" "ret = BK_OK"
      "es' = es @ [\<lparr>node_event_id = reg_event_id r, node_cb_list = [new_cb r]\<rparr>]" "heap_moved h h' 2"
proof (cases rule: split_first_cases [of es "\<lambda>n. node_event_id n = reg_event_id r"])
  case None
  obtain ok h1 where a: "os_zalloc h = (ok, h1)" by fastforce
  obtain rc cbs h2 where b: "register_cb_to_cb_list r [] h1 = (rc, cbs, h2)" by (metis prod_cases3)
  note b' = register_cb_to_cb_list_ok [OF b]
  have moved: "heap_moved h h1 (if ok then 1 else 0)" by (rule heap_moved_alloc [OF a])
  show ?thesis
  proof (cases "ok \<and> rc = BK_OK")
    case True
    with b'(1) have "cbs = [new_cb r]" by (auto simp: register_outcome_def registered_def)
    then show ?thesis
      using assms None a b True moved heap_moved_trans [OF moved b'(2)]
      by (intro added) (auto simp: register_cb_to_event_node_list_def)
  next
    case False
    with b'(1) have "ok \<Longrightarrow> cbs = []" "ok \<Longrightarrow> rc = BK_ERR_NO_MEM"
      by (auto simp: register_outcome_def registered_def)
    then show ?thesis
      using assms None a b False moved heap_moved_trans_free [OF heap_moved_trans [OF moved b'(2)]] b'(3)
      by (intro failed)
        (auto simp: register_cb_to_event_node_list_def heap_moved_def os_zalloc_def split: if_splits)
  qed
next
  case (Some pre e post)
  obtain rc cbs h2 where b: "register_cb_to_cb_list r (node_cb_list e) h = (rc, cbs, h2)"
    by (metis prod_cases3)
  then show ?thesis
    using assms Some register_cb_to_cb_list_ok [OF b]
    by (intro found [of pre e post cbs]) (auto simp: register_cb_to_event_node_list_def)
qed

lemma register_cb_to_event_node_list_ok:
  assumes "register_cb_to_event_node_list r es h = (ret, es', h')"
    and "wf_event_nodes es" and "reg_event_id r \<noteq> EVENT_ID_ALL"
  shows "register_outcome r ret (event_subs es (reg_event_id r)) (event_subs es' (reg_event_id r))"
    and "i \<noteq> reg_event_id r \<Longrightarrow> event_subs es' i = event_subs es i"
    and "wf_event_nodes es'"
    and "heap_moved h h' (event_blocks es' - event_blocks es)"
    and "ret = BK_ERR_NO_MEM \<Longrightarrow> \<exists>n. oom h n"
    and "ret \<noteq> BK_OK \<Longrightarrow> es' = es"
    and "ret = BK_OK \<or> es \<noteq> [] \<Longrightarrow> es' \<noteq> []"
proof -
  have "register_outcome r ret (event_subs es (reg_event_id r)) (event_subs es' (reg_event_id r)) \<and>
    (i \<noteq> reg_event_id r \<longrightarrow> event_subs es' i = event_subs es i) \<and> wf_event_nodes es' \<and>
    heap_moved h h' (event_blocks es' - event_blocks es) \<and>
    (ret = BK_ERR_NO_MEM \<longrightarrow> (\<exists>n. oom h n)) \<and> (ret \<noteq> BK_OK \<longrightarrow> es' = es) \<and>
    (ret = BK_OK \<or> es \<noteq> [] \<longrightarrow> es' \<noteq> [])"
    using assms(1)
  proof (cases rule: register_cb_to_event_node_list_cases)
    case (found pre e post cbs)
    then have "ret \<noteq> BK_OK \<longrightarrow> cbs = node_cb_list e"
      by (auto simp: register_outcome_def split: if_splits)
    then show ?thesis
      using found assms(2) register_outcome_distinct [OF found(5)] register_outcome_grows [OF found(5)]
      by (auto simp: event_subs_def keyed wf_event_nodes_def wf_event_node_def event_blocks_def)
  next
    case failed
    then show ?thesis using assms(2)
      by (auto simp: event_subs_def keyed register_outcome_def registered_def)
  next
    case added
    then show ?thesis using assms(2,3)
      by (auto simp: event_subs_def keyed find_key_hit [of _ _ _ _ "[]"] register_outcome_def
          registered_def wf_event_nodes_def wf_event_node_def event_blocks_def)
  qed
  then show "register_outcome r ret (event_subs es (reg_event_id r)) (event_subs es' (reg_event_id r))"
    and "i \<noteq> reg_event_id r \<Longrightarrow> event_subs es' i = event_subs es i"
    and "wf_event_nodes es'"
    and "heap_moved h h' (event_blocks es' - event_blocks es)"
    and "ret = BK_ERR_NO_MEM \<Longrightarrow> \<exists>n. oom h n"
    and "ret \<noteq> BK_OK \<Longrightarrow> es' = es"
    and "ret = BK_OK \<or> es \<noteq> [] \<Longrightarrow> es' \<noteq> []"
    by blast+
qed

lemma register_cb_to_module_node_ok:
  assumes "register_cb_to_module_node r n h = (ret, n', h')" and "wf_module n"
  shows "register_outcome r ret (module_subs n (reg_event_id r)) (module_subs n' (reg_event_id r))"
    and "\<forall>i. i \<noteq> reg_event_id r \<longrightarrow> module_subs n' i = module_subs n i"
    and "wf_module n'"
    and "heap_moved h h' (module_blocks n' - module_blocks n)"
    and "ret = BK_ERR_NO_MEM \<longrightarrow> (\<exists>n. oom h n)"
    and "ret \<noteq> BK_OK \<longrightarrow> n' = n"
    and "ret = BK_OK \<or> nonempty_module n \<longrightarrow> nonempty_module n'"
    and "event_module_id n' = event_module_id n"
proof -
  have "register_outcome r ret (module_subs n (reg_event_id r)) (module_subs n' (reg_event_id r)) \<and>
    (\<forall>i. i \<noteq> reg_event_id r \<longrightarrow> module_subs n' i = module_subs n i) \<and> wf_module n' \<and>
    heap_moved h h' (module_blocks n' - module_blocks n) \<and> (ret = BK_ERR_NO_MEM \<longrightarrow> (\<exists>n. oom h n)) \<and>
    (ret \<noteq> BK_OK \<longrightarrow> n' = n) \<and> (ret = BK_OK \<or> nonempty_module n \<longrightarrow> nonempty_module n') \<and>
    event_module_id n' = event_module_id n"
  proof (cases "reg_event_id r = EVENT_ID_ALL")
    case True
    obtain cbs where b: "register_cb_to_cb_list r (module_cb_list n) h = (ret, cbs, h')"
      and n': "n' = n\<lparr>module_cb_list := cbs\<rparr>"
      using assms(1) True by (auto simp: register_cb_to_module_node_def split: prod.splits)
    note b' = register_cb_to_cb_list_ok [OF b]
    have "ret \<noteq> BK_OK \<longrightarrow> cbs = module_cb_list n" "ret = BK_OK \<longrightarrow> cbs \<noteq> []"
      using b'(1) by (auto simp: register_outcome_def split: if_splits)
    then show ?thesis
      using True n' b' assms(2) register_outcome_distinct [OF b'(1)] register_outcome_grows [OF b'(1)]
      by (auto simp: module_subs_def wf_module_def module_blocks_def nonempty_module_def)
  next
    case False
    obtain es where b: "register_cb_to_event_node_list r (event_node_list n) h = (ret, es, h')"
      and n': "n' = n\<lparr>event_node_list := es\<rparr>"
      using assms(1) False by (auto simp: register_cb_to_module_node_def split: prod.splits)
    have w: "wf_event_nodes (event_node_list n)" using assms(2) by (simp add: wf_module_def)
    show ?thesis
      using False n' register_cb_to_event_node_list_ok [OF b w False] assms(2)
      by (auto simp: module_subs_def wf_module_def module_blocks_def nonempty_module_def)
  qed
  then show "register_outcome r ret (module_subs n (reg_event_id r)) (module_subs n' (reg_event_id r))"
    and "\<forall>i. i \<noteq> reg_event_id r \<longrightarrow> module_subs n' i = module_subs n i"
    and "wf_module n'"
    and "heap_moved h h' (module_blocks n' - module_blocks n)"
    and "ret = BK_ERR_NO_MEM \<longrightarrow> (\<exists>n. oom h n)"
    and "ret \<noteq> BK_OK \<longrightarrow> n' = n"
    and "ret = BK_OK \<or> nonempty_module n \<longrightarrow> nonempty_module n'"
    and "event_module_id n' = event_module_id n"
    by blast+
qed

abbreviation empty_module :: "int \<Rightarrow> event_module_node_t" where
  "empty_module m \<equiv> \<lparr>event_module_id = m, event_node_list = [], module_cb_list = []\<rparr>"

lemma empty_module_simps [simp]:
  "wf_module (empty_module m)" "module_subs (empty_module m) i = []" "module_blocks (empty_module m) = 1"
  by (auto simp: wf_module_def wf_event_nodes_def module_subs_def event_subs_def module_blocks_def
      event_blocks_def)

lemma register_cb_cases:
  assumes "register_cb r ms h = (ret, ms', h')"
  obtains
    (found) pre n post n' where "ms = pre @ n # post" "event_module_id n = reg_module_id r"
      "\<forall>y \<in> set pre. event_module_id y \<noteq> reg_module_id r" "ms' = pre @ n' # post"
      "register_cb_to_module_node r n h = (ret, n', h')"
  | (failed) "\<forall>y \<in> set ms. event_module_id y \<noteq> reg_module_id r" "ret = BK_ERR_NO_MEM" "ms' = ms"
      "heap_moved h h' 0" "\<exists>n. oom h n"
  | (added) n' h1 where "\<forall>y \<in> set ms. event_module_id y \<noteq> reg_module_id r" "ret = BK_OK"
      "ms' = ms @ [n']" "register_cb_to_module_node r (empty_module (reg_module_id r)) h1 = (BK_OK, n', h')"
      "heap_moved h h1 1"
proof (cases rule: split_first_cases [of ms "\<lambda>n. event_module_id n = reg_module_id r"])
  case None
  obtain ok h1 where a: "os_zalloc h = (ok, h1)" by fastforce
  obtain rc n' h2 where b: "register_cb_to_module_node r (empty_module (reg_module_id r)) h1 = (rc, n', h2)"
    by (metis prod_cases3)
  note b' = register_cb_to_module_node_ok [OF b empty_module_simps(1)]
  have moved: "heap_moved h h1 (if ok then 1 else 0)" by (rule heap_moved_alloc [OF a])
  show ?thesis
  proof (cases "ok \<and> rc = BK_OK")
    case True
    then show ?thesis using assms None a b moved
      by (intro added [of n' h1]) (auto simp: register_cb_def)
  next
    case False
    with b'(1,6) have "ok \<Longrightarrow> n' = empty_module (reg_module_id r)" "ok \<Longrightarrow> rc = BK_ERR_NO_MEM"
      using register_outcome_fresh [of r rc] by auto
    then show ?thesis
      using assms None a b False moved heap_moved_trans_free [OF heap_moved_trans [OF moved b'(4)]] b'(5)
      by (intro failed) (auto simp: register_cb_def heap_moved_def os_zalloc_def split: if_splits)
  qed
next
  case (Some pre n post)
  obtain rc n' h2 where b: "register_cb_to_module_node r n h = (rc, n', h2)" by (metis prod_cases3)
  then show ?thesis using assms Some
    by (intro found [of pre n post n']) (auto simp: register_cb_def)
qed

lemma register_cb_ok:
  assumes "register_cb r ms h = (ret, ms', h')" and "wf_registry ms"
  shows "register_outcome r ret (subs ms (reg_module_id r) (reg_event_id r))
           (subs ms' (reg_module_id r) (reg_event_id r))"
    and "\<forall>m i. (m, i) \<noteq> (reg_module_id r, reg_event_id r) \<longrightarrow> subs ms' m i = subs ms m i"
    and "wf_registry ms'"
    and "heap_moved h h' (registry_blocks ms' - registry_blocks ms)"
    and "ret = BK_ERR_NO_MEM \<longrightarrow> (\<exists>n. oom h n)"
    and "ret \<noteq> BK_OK \<longrightarrow> ms' = ms"
proof -
  have "register_outcome r ret (subs ms (reg_module_id r) (reg_event_id r))
           (subs ms' (reg_module_id r) (reg_event_id r)) \<and>
    (\<forall>m i. (m, i) \<noteq> (reg_module_id r, reg_event_id r) \<longrightarrow> subs ms' m i = subs ms m i) \<and> wf_registry ms' \<and>
    heap_moved h h' (registry_blocks ms' - registry_blocks ms) \<and> (ret = BK_ERR_NO_MEM \<longrightarrow> (\<exists>n. oom h n)) \<and>
    (ret \<noteq> BK_OK \<longrightarrow> ms' = ms)"
    using assms(1)
  proof (cases rule: register_cb_cases)
    case (found pre n post n')
    have w: "wf_module n" "nonempty_module n" using assms(2) found by (auto simp: wf_registry_def)
    note n' = register_cb_to_module_node_ok [OF found(5) w(1)]
    have "subs ms' m i = subs ms m i" if "(m, i) \<noteq> (reg_module_id r, reg_event_id r)" for m i
      using found n' that by (cases "m = reg_module_id r") (auto simp: subs_def keyed)
    then show ?thesis
      using found n' w assms(2)
      by (auto simp: subs_def keyed wf_registry_def registry_blocks_def)
  next
    case failed
    then show ?thesis using assms(2)
      by (auto simp: subs_def keyed register_outcome_def registered_def)
  next
    case (added n' h1)
    note n' = register_cb_to_module_node_ok [OF added(4) empty_module_simps(1)]
    have "subs ms' m i = subs ms m i" if "(m, i) \<noteq> (reg_module_id r, reg_event_id r)" for m i
      using added n' that find_key_hit [of event_module_id n' m ms "[]"]
      by (cases "m = reg_module_id r") (auto simp: subs_def keyed)
    then show ?thesis
      using added n' assms(2) heap_moved_trans [OF added(5) n'(4)]
      by (auto simp: subs_def keyed find_key_hit [of event_module_id _ _ _ "[]"] wf_registry_def
          registry_blocks_def)
  qed
  then show "register_outcome r ret (subs ms (reg_module_id r) (reg_event_id r))
           (subs ms' (reg_module_id r) (reg_event_id r))"
    and "\<forall>m i. (m, i) \<noteq> (reg_module_id r, reg_event_id r) \<longrightarrow> subs ms' m i = subs ms m i"
    and "wf_registry ms'"
    and "heap_moved h h' (registry_blocks ms' - registry_blocks ms)"
    and "ret = BK_ERR_NO_MEM \<longrightarrow> (\<exists>n. oom h n)"
    and "ret \<noteq> BK_OK \<longrightarrow> ms' = ms"
    by blast+
qed

section \<open>Removal\<close>

lemma filter_split:
  assumes "distinct (map f (pre @ x # post))" and "f x = k"
  shows "filter (\<lambda>y. f y \<noteq> k) (pre @ x # post) = pre @ post"
proof -
  have "\<forall>y \<in> set pre \<union> set post. f y \<noteq> k" using assms by (auto simp: image_iff)
  then show ?thesis using assms(2) by (simp add: filter_id_conv)
qed

lemma unregister_cb_from_cb_list_ok:
  assumes "unregister_cb_from_cb_list r cbs h = (ret, cbs', h')" and "distinct (map event_cb cbs)"
  shows "unregister_outcome r ret cbs cbs'"
    and "heap_moved h h' (int (length cbs') - int (length cbs))"
    and "distinct (map event_cb cbs')"
proof -
  have "unregister_outcome r ret cbs cbs' \<and> heap_moved h h' (int (length cbs') - int (length cbs))"
  proof (cases rule: split_first_cases [of cbs "\<lambda>n. event_cb n = reg_event_cb r"])
    case None
    then show ?thesis using assms
      by (auto simp: unregister_cb_from_cb_list_def unregister_outcome_def registered_def filter_id_conv)
  next
    case (Some pre x post)
    then show ?thesis using assms filter_split [of event_cb pre x post "reg_event_cb r"]
      by (auto simp: unregister_cb_from_cb_list_def unregister_outcome_def registered_def heap_moved_free)
  qed
  then show "unregister_outcome r ret cbs cbs'" "heap_moved h h' (int (length cbs') - int (length cbs))"
    by auto
  then show "distinct (map event_cb cbs')"
    using assms(2) by (auto simp: unregister_outcome_def distinct_map_filter)
qed

lemma unregister_cb_from_event_node_list_ok:
  assumes "unregister_cb_from_event_node_list r es h = (ret, es', h')" and "wf_event_nodes es"
  shows "unregister_outcome r ret (event_subs es (reg_event_id r)) (event_subs es' (reg_event_id r))"
    and "\<forall>i. i \<noteq> reg_event_id r \<longrightarrow> event_subs es' i = event_subs es i"
    and "wf_event_nodes es'"
    and "heap_moved h h' (event_blocks es' - event_blocks es)"
proof -
  have "unregister_outcome r ret (event_subs es (reg_event_id r)) (event_subs es' (reg_event_id r)) \<and>
    (\<forall>i. i \<noteq> reg_event_id r \<longrightarrow> event_subs es' i = event_subs es i) \<and> wf_event_nodes es' \<and>
    heap_moved h h' (event_blocks es' - event_blocks es)"
  proof (cases rule: split_first_cases [of es "\<lambda>n. node_event_id n = reg_event_id r"])
    case None
    then show ?thesis using assms
      by (auto simp: unregister_cb_from_event_node_list_def event_subs_def keyed unregister_outcome_def
          registered_def)
  next
    case (Some pre e post)
    obtain cbs h1 where b: "unregister_cb_from_cb_list r (node_cb_list e) h = (ret, cbs, h1)"
      using assms(1) Some
      by (auto simp: unregister_cb_from_event_node_list_def split: prod.splits if_splits)
    have w: "distinct (map event_cb (node_cb_list e))"
      using assms(2) Some by (auto simp: wf_event_nodes_def wf_event_node_def)
    have d: "\<forall>y \<in> set (pre @ post). node_event_id y \<noteq> reg_event_id r"
      using assms(2) Some(1,2) by (auto simp: wf_event_nodes_def image_iff)
    note b' = unregister_cb_from_cb_list_ok [OF b w]
    show ?thesis
    proof (cases "cbs = []")
      case True
      then have es': "es' = pre @ post" "h' = os_free h1"
        using assms(1) Some b by (auto simp: unregister_cb_from_event_node_list_def)
      have "event_subs es' i = event_subs es i" if "i \<noteq> reg_event_id r" for i
        using es' Some(1,2) that by (auto simp: event_subs_def keyed)
      then show ?thesis
        using es' Some(1-3) b'(1) d True assms(2) heap_moved_trans_free [OF b'(2)]
        by (auto simp: event_subs_def keyed wf_event_nodes_def event_blocks_def heap_moved_def)
    next
      case False
      then have es': "es' = pre @ e\<lparr>node_cb_list := cbs\<rparr> # post" "h' = h1"
        using assms(1) Some b by (auto simp: unregister_cb_from_event_node_list_def)
      have "event_subs es' i = event_subs es i" if "i \<noteq> reg_event_id r" for i
        using es' Some(1,2) that by (auto simp: event_subs_def keyed)
      then show ?thesis
        using es' Some(1-3) b' False assms(2)
        by (auto simp: event_subs_def keyed wf_event_nodes_def wf_event_node_def event_blocks_def)
    qed
  qed
  then show "unregister_outcome r ret (event_subs es (reg_event_id r)) (event_subs es' (reg_event_id r))"
    and "\<forall>i. i \<noteq> reg_event_id r \<longrightarrow> event_subs es' i = event_subs es i"
    and "wf_event_nodes es'"
    and "heap_moved h h' (event_blocks es' - event_blocks es)"
    by blast+
qed

lemma unregister_cb_from_module_node_ok:
  assumes "unregister_cb_from_module_node r n h = (ret, n', h')" and "wf_module n"
  shows "unregister_outcome r ret (module_subs n (reg_event_id r)) (module_subs n' (reg_event_id r))"
    and "\<forall>i. i \<noteq> reg_event_id r \<longrightarrow> module_subs n' i = module_subs n i"
    and "wf_module n'"
    and "heap_moved h h' (module_blocks n' - module_blocks n)"
    and "event_module_id n' = event_module_id n"
proof -
  have "unregister_outcome r ret (module_subs n (reg_event_id r)) (module_subs n' (reg_event_id r)) \<and>
    (\<forall>i. i \<noteq> reg_event_id r \<longrightarrow> module_subs n' i = module_subs n i) \<and> wf_module n' \<and>
    heap_moved h h' (module_blocks n' - module_blocks n) \<and> event_module_id n' = event_module_id n"
  proof (cases "reg_event_id r = EVENT_ID_ALL")
    case True
    then obtain cbs where b: "unregister_cb_from_cb_list r (module_cb_list n) h = (ret, cbs, h')"
      and n': "n' = n\<lparr>module_cb_list := cbs\<rparr>"
      using assms(1) by (auto simp: unregister_cb_from_module_node_def split: prod.splits)
    have w: "distinct (map event_cb (module_cb_list n))" using assms(2) by (simp add: wf_module_def)
    show ?thesis
      using True n' unregister_cb_from_cb_list_ok [OF b w] assms(2)
      by (auto simp: module_subs_def wf_module_def module_blocks_def)
  next
    case False
    then obtain es where b: "unregister_cb_from_event_node_list r (event_node_list n) h = (ret, es, h')"
      and n': "n' = n\<lparr>event_node_list := es\<rparr>"
      using assms(1) by (auto simp: unregister_cb_from_module_node_def split: prod.splits)
    have w: "wf_event_nodes (event_node_list n)" using assms(2) by (simp add: wf_module_def)
    show ?thesis
      using False n' unregister_cb_from_event_node_list_ok [OF b w] assms(2)
      by (auto simp: module_subs_def wf_module_def module_blocks_def)
  qed
  then show "unregister_outcome r ret (module_subs n (reg_event_id r)) (module_subs n' (reg_event_id r))"
    and "\<forall>i. i \<noteq> reg_event_id r \<longrightarrow> module_subs n' i = module_subs n i"
    and "wf_module n'"
    and "heap_moved h h' (module_blocks n' - module_blocks n)"
    and "event_module_id n' = event_module_id n"
    by blast+
qed

lemma empty_module_subs: "\<not> nonempty_module n \<Longrightarrow> module_subs n i = [] \<and> module_blocks n = 1"
  by (auto simp: nonempty_module_def module_subs_def event_subs_def module_blocks_def event_blocks_def)

lemma unregister_cb_ok:
  assumes "unregister_cb r ms h = (ret, ms', h')" and "wf_registry ms"
  shows "unregister_outcome r ret (subs ms (reg_module_id r) (reg_event_id r))
           (subs ms' (reg_module_id r) (reg_event_id r))"
    and "\<forall>m i. (m, i) \<noteq> (reg_module_id r, reg_event_id r) \<longrightarrow> subs ms' m i = subs ms m i"
    and "wf_registry ms'"
    and "heap_moved h h' (registry_blocks ms' - registry_blocks ms)"
proof -
  have "unregister_outcome r ret (subs ms (reg_module_id r) (reg_event_id r))
           (subs ms' (reg_module_id r) (reg_event_id r)) \<and>
    (\<forall>m i. (m, i) \<noteq> (reg_module_id r, reg_event_id r) \<longrightarrow> subs ms' m i = subs ms m i) \<and>
    wf_registry ms' \<and> heap_moved h h' (registry_blocks ms' - registry_blocks ms)"
  proof (cases rule: split_first_cases [of ms "\<lambda>n. event_module_id n = reg_module_id r"])
    case None
    then show ?thesis using assms
      by (auto simp: unregister_cb_def subs_def keyed unregister_outcome_def registered_def)
  next
    case (Some pre n post)
    obtain n' h1 where b: "unregister_cb_from_module_node r n h = (ret, n', h1)"
      using assms(1) Some by (auto simp: unregister_cb_def split: prod.splits if_splits)
    have w: "wf_module n" using assms(2) Some by (auto simp: wf_registry_def)
    have d: "\<forall>y \<in> set (pre @ post). event_module_id y \<noteq> reg_module_id r"
      using assms(2) Some(1,2) by (auto simp: wf_registry_def image_iff)
    note b' = unregister_cb_from_module_node_ok [OF b w]
    show ?thesis
    proof (cases "nonempty_module n'")
      case True
      then have ms': "ms' = pre @ n' # post" "h' = h1"
        using assms(1) Some b by (auto simp: unregister_cb_def nonempty_module_def)
      have "subs ms' m i = subs ms m i" if "(m, i) \<noteq> (reg_module_id r, reg_event_id r)" for m i
        using ms' Some b' that by (cases "m = reg_module_id r") (auto simp: subs_def keyed)
      then show ?thesis using ms' Some b' d w True assms(2)
        by (auto simp: subs_def keyed wf_registry_def registry_blocks_def)
    next
      case False
      then have ms': "ms' = pre @ post" "h' = os_free h1"
        using assms(1) Some b by (auto simp: unregister_cb_def nonempty_module_def)
      have "subs ms' m i = subs ms m i" if "(m, i) \<noteq> (reg_module_id r, reg_event_id r)" for m i
        using ms' Some b' that d empty_module_subs [OF False, of i]
        by (cases "m = reg_module_id r") (auto simp: subs_def keyed)
      then show ?thesis using ms' Some b' d w assms(2) empty_module_subs [OF False]
          heap_moved_trans_free [OF b'(4)]
        by (auto simp: subs_def keyed wf_registry_def registry_blocks_def heap_moved_def)
    qed
  qed
  then show "unregister_outcome r ret (subs ms (reg_module_id r) (reg_event_id r))
           (subs ms' (reg_module_id r) (reg_event_id r))"
    and "\<forall>m i. (m, i) \<noteq> (reg_module_id r, reg_event_id r) \<longrightarrow> subs ms' m i = subs ms m i"
    and "wf_registry ms'"
    and "heap_moved h h' (registry_blocks ms' - registry_blocks ms)"
    by blast+
qed

section \<open>Deinitialisation and posting\<close>

lemma event_deinit_cb_list_ok: "heap_moved h (event_deinit_cb_list cbs h) (- int (length cbs))"
proof (induction cbs arbitrary: h)
  case (Cons c cbs)
  show ?case
    using heap_moved_trans [OF heap_moved_free Cons.IH] by (simp add: heap_moved_def)
qed simp

lemma event_deinit_event_nodes_ok: "heap_moved h (event_deinit_event_nodes es h) (- event_blocks es)"
proof (induction es arbitrary: h)
  case (Cons e es)
  have "heap_moved h (os_free (event_deinit_cb_list (node_cb_list e) h)) (- int (length (node_cb_list e)) - 1)"
    by (rule heap_moved_trans_free [OF event_deinit_cb_list_ok])
  from heap_moved_trans [OF this Cons.IH] show ?case by (simp add: event_blocks_def heap_moved_def)
qed (simp add: event_blocks_def)

lemma event_deinit_module_node_ok: "heap_moved h (event_deinit_module_node n h) (- module_blocks n)"
  using heap_moved_trans_free [OF heap_moved_trans
      [OF event_deinit_cb_list_ok [of h "module_cb_list n"]
        event_deinit_event_nodes_ok [of _ "event_node_list n"]]]
  by (simp add: event_deinit_module_node_def module_blocks_def heap_moved_def)

lemma event_deinit_ok:
  "fst (event_deinit ms h) = [] \<and> heap_moved h (snd (event_deinit ms h)) (- registry_blocks ms)"
proof (induction ms arbitrary: h)
  case (Cons n ms)
  have "heap_moved h (snd (event_deinit ms (event_deinit_module_node n h))) (- module_blocks n + - registry_blocks ms)"
    using heap_moved_trans [OF event_deinit_module_node_ok conjunct2 [OF Cons.IH]] .
  then show ?case using Cons.IH by (simp add: registry_blocks_def heap_moved_def)
qed (simp add: registry_blocks_def)



section \<open>The registry as an interface\<close>

text \<open>
  What the event task relies on: a table of subscriptions with a registration that appends, a
  removal that takes one callback out, and blocks that are all accounted for.
\<close>

locale subscription_table =
  fixes register :: "event_register_info_t \<Rightarrow> 'm \<Rightarrow> heap \<Rightarrow> bk_err_t \<times> 'm \<times> heap"
    and unregister :: "event_register_info_t \<Rightarrow> 'm \<Rightarrow> heap \<Rightarrow> bk_err_t \<times> 'm \<times> heap"
    and table :: "'m \<Rightarrow> int \<Rightarrow> int \<Rightarrow> event_cb_node_t list"
    and wf :: "'m \<Rightarrow> bool"
    and blocks :: "'m \<Rightarrow> int"
  assumes reg_outcome: "wf ms \<Longrightarrow> register r ms h = (ret, ms', h') \<Longrightarrow>
        register_outcome r ret (table ms (reg_module_id r) (reg_event_id r))
          (table ms' (reg_module_id r) (reg_event_id r))"
    and reg_frame: "wf ms \<Longrightarrow> register r ms h = (ret, ms', h') \<Longrightarrow>
        (m, i) \<noteq> (reg_module_id r, reg_event_id r) \<Longrightarrow> table ms' m i = table ms m i"
    and reg_wf: "wf ms \<Longrightarrow> register r ms h = (ret, ms', h') \<Longrightarrow> wf ms'"
    and reg_heap: "wf ms \<Longrightarrow> register r ms h = (ret, ms', h') \<Longrightarrow> heap_moved h h' (blocks ms' - blocks ms)"
    and unreg_outcome: "wf ms \<Longrightarrow> unregister r ms h = (ret, ms', h') \<Longrightarrow>
        unregister_outcome r ret (table ms (reg_module_id r) (reg_event_id r))
          (table ms' (reg_module_id r) (reg_event_id r))"
    and unreg_frame: "wf ms \<Longrightarrow> unregister r ms h = (ret, ms', h') \<Longrightarrow>
        (m, i) \<noteq> (reg_module_id r, reg_event_id r) \<Longrightarrow> table ms' m i = table ms m i"
    and unreg_wf: "wf ms \<Longrightarrow> unregister r ms h = (ret, ms', h') \<Longrightarrow> wf ms'"
    and unreg_heap: "wf ms \<Longrightarrow> unregister r ms h = (ret, ms', h') \<Longrightarrow> heap_moved h h' (blocks ms' - blocks ms)"
begin

lemma registered_cb_leaves_again:
  assumes "wf ms" and r: "register r ms h = (BK_OK, ms', h')"
    and u: "unregister r ms' h' = (ret, ms'', h'')"
  shows "ret = BK_OK" and "table ms'' = table ms" and "wf ms''"
    and "live h'' - blocks ms'' = live h - blocks ms"
proof -
  have w: "wf ms'" by (rule reg_wf [OF assms(1) r])
  let ?at = "\<lambda>ms. table ms (reg_module_id r) (reg_event_id r)"
  have o: "?at ms' = ?at ms @ [new_cb r]" "\<not> registered r (?at ms)"
    using reg_outcome [OF assms(1) r] by (auto simp: register_outcome_def split: if_splits)
  then have k: "registered r (?at ms')" "filter (\<lambda>n. event_cb n \<noteq> reg_event_cb r) (?at ms') = ?at ms"
    by (auto simp: registered_def new_cb_def image_iff filter_id_conv)
  then have at: "?at ms'' = ?at ms" and "ret = BK_OK"
    using unreg_outcome [OF w u] by (auto simp: unregister_outcome_def)
  then show "ret = BK_OK" by simp
  have "table ms'' m i = table ms m i" for m i
    using at unreg_frame [OF w u, of m i] reg_frame [OF assms(1) r, of m i] by auto
  then show "table ms'' = table ms" by (intro ext)
  show "wf ms''" by (rule unreg_wf [OF w u])
  show "live h'' - blocks ms'' = live h - blocks ms"
    using reg_heap [OF assms(1) r] unreg_heap [OF w u] by (simp add: heap_moved_def)
qed

lemma register_balance:
  "wf ms \<Longrightarrow> register r ms h = (ret, ms', h') \<Longrightarrow> live h' - blocks ms' = live h - blocks ms"
  using reg_heap [of ms r h ret ms' h'] by (simp add: heap_moved_def)

lemma unregister_balance:
  "wf ms \<Longrightarrow> unregister r ms h = (ret, ms', h') \<Longrightarrow> live h' - blocks ms' = live h - blocks ms"
  using unreg_heap [of ms r h ret ms' h'] by (simp add: heap_moved_def)

end

interpretation ev: subscription_table register_cb unregister_cb subs wf_registry registry_blocks
proof unfold_locales
  fix ms r h ret ms' h' m i
  assume w: "wf_registry ms"
  {
    assume a: "register_cb r ms h = (ret, ms', h')"
    show "register_outcome r ret (subs ms (reg_module_id r) (reg_event_id r))
            (subs ms' (reg_module_id r) (reg_event_id r))"
      and "wf_registry ms'" and "heap_moved h h' (registry_blocks ms' - registry_blocks ms)"
      and "(m, i) \<noteq> (reg_module_id r, reg_event_id r) \<Longrightarrow> subs ms' m i = subs ms m i"
      using register_cb_ok [OF a w] by simp_all
  }
  {
    assume a: "unregister_cb r ms h = (ret, ms', h')"
    show "unregister_outcome r ret (subs ms (reg_module_id r) (reg_event_id r))
            (subs ms' (reg_module_id r) (reg_event_id r))"
      and "wf_registry ms'" and "heap_moved h h' (registry_blocks ms' - registry_blocks ms)"
      and "(m, i) \<noteq> (reg_module_id r, reg_event_id r) \<Longrightarrow> subs ms' m i = subs ms m i"
      using unregister_cb_ok [OF a w] by simp_all
  }
qed

section \<open>The component as a step system\<close>

text \<open>
  The messages on their way, the heap blocks they hold, and the tasks that wait for an answer.
\<close>

definition pending :: "event_st \<Rightarrow> event_msg_t list" where
  "pending s = (case s_event_queue s of None \<Rightarrow> [] | Some q \<Rightarrow> q) @ ev_blocked s"

definition msg_blocks :: "event_msg_t \<Rightarrow> int" where
  "msg_blocks m = (case msg_body m of
     EVENT_MSG_POST e \<Rightarrow> (if info_event_data e = None then 1 else 2)
   | EVENT_MSG_DEINIT \<Rightarrow> 1
   | _ \<Rightarrow> 0)"

definition msg_ok :: "event_msg_t \<Rightarrow> bool" where
  "msg_ok m = (case msg_body m of
     EVENT_MSG_REGISTER r \<Rightarrow> is_sync_msg m \<and> \<not> event_is_invalid (reg_module_id r) (reg_event_id r)
   | EVENT_MSG_UNREGISTER r \<Rightarrow> is_sync_msg m \<and> \<not> event_is_invalid (reg_module_id r) (reg_event_id r)
   | EVENT_MSG_POST e \<Rightarrow> \<not> is_sync_msg m \<and> \<not> event_is_invalid (info_module_id e) (info_event_id e)
   | _ \<Rightarrow> False)"

definition senders :: "event_st \<Rightarrow> nat list" where
  "senders s = map sync_sender (filter is_sync_msg (pending s)) @ map fst (ev_replies s)"

definition queue_ok :: "event_st \<Rightarrow> bool" where
  "queue_ok s = (case s_event_queue s of
     None \<Rightarrow> \<not> s_event_inited s \<and> ev_blocked s = [] \<and> s_event_module_list s = []
   | Some q \<Rightarrow> s_event_inited s \<and> length q \<le> EVENT_QUEUE_SIZE \<and>
       (ev_blocked s \<noteq> [] \<longrightarrow> length q = EVENT_QUEUE_SIZE))"

text \<open>
  The invariant, with the number of live blocks that belong neither to the registry nor to a
  message on its way: none between two operations.
\<close>

definition event_inv_extra :: "int \<Rightarrow> event_st \<Rightarrow> bool" where
  "event_inv_extra d s \<longleftrightarrow>
     wf_registry (s_event_module_list s) \<and> (\<forall>m \<in> set (pending s). msg_ok m) \<and> queue_ok s \<and>
     live (ev_heap s) = registry_blocks (s_event_module_list s) + (\<Sum>m \<leftarrow> pending s. msg_blocks m) + d \<and>
     ev_sems s = int (length (senders s)) \<and> distinct (senders s)"

abbreviation event_inv :: "event_st \<Rightarrow> bool" where
  "event_inv \<equiv> event_inv_extra 0"





















section \<open>Properties\<close>

text \<open>The state of the component after reset, with a heap that never runs out.\<close>

definition event_boot :: event_st where
  "event_boot = \<lparr>s_event_queue = None, s_event_task = False, s_event_module_list = [], s_event_inited = False,
     ev_heap = \<lparr>oom = \<lambda>_. False, requests = 0, live = 0\<rparr>, ev_blocked = [], ev_sems = 0, ev_replies = [],
     ev_calls = []\<rparr>"

definition sample_reg :: event_register_info_t where
  "sample_reg = \<lparr>reg_module_id = 1, reg_event_id = 2, reg_event_cb = 0x100, reg_event_cb_arg = 7\<rparr>"

definition sample_info :: event_info_t where
  "sample_info = \<lparr>info_module_id = 1, info_event_id = 2, info_event_data = Some [42]\<rparr>"

definition sample_registry :: event_registry where
  "sample_registry = fst (snd (register_cb sample_reg [] (ev_heap event_boot)))"

lemmas event_exec = register_cb_def register_cb_to_module_node_def register_cb_to_event_node_list_def
  register_cb_to_cb_list_def os_zalloc_def event_boot_def sample_reg_def sample_info_def

lemma sample_registry_eq:
  "sample_registry = [\<lparr>event_module_id = 1, event_node_list = [\<lparr>node_event_id = 2,
     node_cb_list = [\<lparr>event_cb = 0x100, event_cb_arg = 7\<rparr>]\<rparr>], module_cb_list = []\<rparr>]"
  by (simp add: sample_registry_def event_exec)

lemma sample_registry_wf: "wf_registry sample_registry"
  by (simp add: sample_registry_eq wf_defs nonempty_module_def)

text \<open>
  C1. Registering a callback on a well-formed registry keeps the registry well formed and acts on
  the table of subscriptions as the contract says: a callback that is already subscribed at that
  module and event is refused with \<^verbatim>\<open>BK_ERR_EVENT_CB_EXIST\<close>, a new one is appended at the end,
  and a failed allocation gives \<^verbatim>\<open>BK_ERR_NO_MEM\<close> and changes nothing. Every other module and
  event keeps its subscribers, and the heap grows by exactly the blocks the registry grows by, so
  the nodes allocated before a failure are freed again.
\<close>
theorem event_register_refines:
  assumes "wf_registry ms" and "register_cb r ms h = (ret, ms', h')"
  shows "(wf_registry ms') \<and>
    (if registered r (subs ms (reg_module_id r) (reg_event_id r))
         then ret = BK_ERR_EVENT_CB_EXIST \<and> ms' = ms
         else ret = BK_OK \<and> subs ms' (reg_module_id r) (reg_event_id r) =
                subs ms (reg_module_id r) (reg_event_id r) @ [new_cb r] \<or>
              ret = BK_ERR_NO_MEM \<and> ms' = ms \<and> (\<exists>n. oom h n)) \<and>
    (\<forall>m i. (m, i) \<noteq> (reg_module_id r, reg_event_id r) \<longrightarrow> subs ms' m i = subs ms m i) \<and>
    (live h' - live h = registry_blocks ms' - registry_blocks ms)"
  using register_cb_ok [OF assms(2,1)] by (auto simp: register_outcome_def heap_moved_def split: if_splits)

theorem event_register_refines_witness:
  "wf_registry (fst (snd (register_cb sample_reg [] (ev_heap event_boot)))) \<and>
   live (snd (snd (register_cb sample_reg [] (ev_heap event_boot)))) = 3"
  using event_register_refines [of "[]" sample_reg "ev_heap event_boot" BK_OK sample_registry
      "snd (snd (register_cb sample_reg [] (ev_heap event_boot)))"]
  by (simp add: event_exec sample_registry_eq wf_registry_def blocks_defs)

text \<open>
  C21. Unregistering a callback removes exactly that callback from the subscribers of its module and
  event and returns \<^verbatim>\<open>BK_OK\<close>, or returns \<^verbatim>\<open>BK_ERR_EVENT_NO_CB\<close> and leaves the table
  alone when it is not subscribed. The registry stays well formed (nodes that became empty are
  gone), every other entry is kept, and the freed blocks are those the registry lost.
\<close>
theorem event_unregister_refines:
  assumes "wf_registry ms" and "unregister_cb r ms h = (ret, ms', h')"
  shows "(wf_registry ms') \<and>
    (ret = (if registered r (subs ms (reg_module_id r) (reg_event_id r)) then BK_OK else BK_ERR_EVENT_NO_CB)) \<and>
    (subs ms' (reg_module_id r) (reg_event_id r) =
      filter (\<lambda>n. event_cb n \<noteq> reg_event_cb r) (subs ms (reg_module_id r) (reg_event_id r))) \<and>
    (\<forall>m i. (m, i) \<noteq> (reg_module_id r, reg_event_id r) \<longrightarrow> subs ms' m i = subs ms m i) \<and>
    (live h' - live h = registry_blocks ms' - registry_blocks ms)"
  using unregister_cb_ok [OF assms(2,1)] by (auto simp: unregister_outcome_def heap_moved_def split: if_splits)

theorem event_unregister_refines_witness:
  "wf_registry sample_registry \<and> fst (unregister_cb sample_reg sample_registry (ev_heap event_boot)) = BK_OK"
  using sample_registry_wf
    event_unregister_refines [OF sample_registry_wf, of sample_reg "ev_heap event_boot" BK_OK "[]"
      "snd (snd (unregister_cb sample_reg sample_registry (ev_heap event_boot)))"]
  by (simp add: sample_registry_eq unregister_cb_def unregister_cb_from_module_node_def
      unregister_cb_from_event_node_list_def unregister_cb_from_cb_list_def event_exec subs_defs registered_def)

text \<open>
  A successful registration can be undone: unregistering the same callback succeeds, gives back
  the table of subscriptions from before, and leaves no block behind.
\<close>
theorem event_register_unregister:
  assumes "wf_registry ms" and "register_cb r ms h = (BK_OK, ms', h')"
    and "unregister_cb r ms' h' = (ret, ms'', h'')"
  shows "(ret = BK_OK) \<and>
    (subs ms'' = subs ms) \<and>
    (wf_registry ms'') \<and>
    (live h'' - registry_blocks ms'' = live h - registry_blocks ms)"
  using ev.registered_cb_leaves_again [OF assms] by simp_all

theorem event_register_unregister_witness:
  "fst (unregister_cb sample_reg sample_registry (snd (snd (register_cb sample_reg [] (ev_heap event_boot))))) = BK_OK"
  using event_register_unregister [of "[]" sample_reg "ev_heap event_boot" sample_registry
      "snd (snd (register_cb sample_reg [] (ev_heap event_boot)))" _ "[]"]
  by (auto simp: sample_registry_eq unregister_cb_def unregister_cb_from_module_node_def
      unregister_cb_from_event_node_list_def unregister_cb_from_cb_list_def event_exec wf_registry_def)






definition event_booted :: event_st where
  "event_booted = event_boot\<lparr>s_event_queue := Some [], s_event_inited := True, s_event_task := True\<rparr>"

lemma event_booted_inv: "event_inv event_booted"
  by (simp add: event_booted_def event_boot_def event_inv_extra_def wf_registry_def pending_def queue_ok_def
      senders_def registry_blocks_def)


text \<open>
  Shutting the component down loses a block: \<^verbatim>\<open>bk_event_deinit\<close> allocates its message, and
  the event task leaves its loop on it without freeing it. Even with an empty queue, after the
  task has freed the whole registry one block is still live.
\<close>
theorem event_deinit_leaks_message:
  assumes "event_inv s" and "s_event_queue s = Some []" and "\<forall>n. \<not> oom (ev_heap s) n"
  shows "fst (bk_event_deinit s) = Returns BK_OK \<and>
    (let t = event_task (snd (bk_event_deinit s))
     in s_event_queue t = None \<and> s_event_module_list t = [] \<and> live (ev_heap t) = 1)"
proof -
  have l: "live (ev_heap s) = registry_blocks (s_event_module_list s)" "s_event_inited s" "ev_blocked s = []"
    using assms(1,2) by (auto simp: event_inv_extra_def queue_ok_def pending_def)
  have d: "fst (event_deinit (s_event_module_list s) h) = []"
    "live (snd (event_deinit (s_event_module_list s) h)) = live h - registry_blocks (s_event_module_list s)" for h
    using event_deinit_ok [of "s_event_module_list s" h] by (auto simp: heap_moved_def)
  show ?thesis
    using assms(2,3) l d
    by (simp add: bk_event_deinit_def os_zalloc_def event_send_msg_to_event_task_def Let_def
        event_task_def event_task_deinit_def case_prod_beta)
qed

theorem event_deinit_leaks_message_witness:
  "live (ev_heap (event_task (snd (bk_event_deinit event_booted)))) = 1"
  using event_deinit_leaks_message [OF event_booted_inv]
  by (simp add: event_booted_def event_boot_def Let_def)

end
