(* ===== verification/Aon_Rtc_Hw.thy ===== *)
theory Aon_Rtc_Hw
  imports Prelude
begin

text \<open>
  The registers of the always-on real-time counter: \<^verbatim>\<open>soc/aon_rtc_struct.h\<close>, the accessors of
  \<^verbatim>\<open>hal/aon_rtc_ll.h\<close> and the thin layer of \<^verbatim>\<open>hal/aon_rtc_hal.c\<close> (which only computes the
  register base of the single unit before it calls the accessor).

  A field of the control register is assigned by reading the register, changing the field and
  writing the register back. The two status bits are ``write 1 to clear'', so a write-back of a
  pending status bit clears it. The counter and the two ``lpo'' registers belong to the hardware:
  what successive reads return is a function of the number of reads made so far.
\<close>

record aon_rtc_hw_t =
  ctrl_v :: u32
  upper_val :: u32
  tick_val :: u32
  counter_at :: "nat \<Rightarrow> u32"
  up_lpo_at :: "nat \<Rightarrow> u32"
  tick_lpo_at :: "nat \<Rightarrow> u32"
  hw_now :: nat

section \<open>Writing the control register\<close>

definition AON_RTC_STS_MASK :: u32 where
  "AON_RTC_STS_MASK = 0x30"

definition ctrl_write :: "u32 \<Rightarrow> aon_rtc_hw_t \<Rightarrow> aon_rtc_hw_t" where
  "ctrl_write v hw =
     hw\<lparr>ctrl_v := (v AND NOT AON_RTC_STS_MASK) OR (ctrl_v hw AND NOT v AND AON_RTC_STS_MASK)\<rparr>"

section \<open>The low-level accessors\<close>

definition aon_rtc_ll_enable :: "aon_rtc_hw_t \<Rightarrow> aon_rtc_hw_t" where
  "aon_rtc_ll_enable hw = ctrl_write (set_bit 6 (ctrl_v hw)) hw"

definition aon_rtc_ll_disable :: "aon_rtc_hw_t \<Rightarrow> aon_rtc_hw_t" where
  "aon_rtc_ll_disable hw = ctrl_write (unset_bit 6 (ctrl_v hw)) hw"

definition aon_rtc_ll_stop_counter :: "aon_rtc_hw_t \<Rightarrow> aon_rtc_hw_t" where
  "aon_rtc_ll_stop_counter hw = ctrl_write (set_bit 1 (ctrl_v hw)) hw"

definition aon_rtc_ll_start_counter :: "aon_rtc_hw_t \<Rightarrow> aon_rtc_hw_t" where
  "aon_rtc_ll_start_counter hw = ctrl_write (unset_bit 1 (ctrl_v hw)) hw"

definition aon_rtc_ll_reset_counter :: "aon_rtc_hw_t \<Rightarrow> aon_rtc_hw_t" where
  "aon_rtc_ll_reset_counter hw = ctrl_write (set_bit 0 (ctrl_v hw)) hw"

definition aon_rtc_ll_clear_reset_counter :: "aon_rtc_hw_t \<Rightarrow> aon_rtc_hw_t" where
  "aon_rtc_ll_clear_reset_counter hw = ctrl_write (unset_bit 0 (ctrl_v hw)) hw"

definition aon_rtc_ll_enable_tick_int :: "aon_rtc_hw_t \<Rightarrow> aon_rtc_hw_t" where
  "aon_rtc_ll_enable_tick_int hw = ctrl_write (set_bit 3 (ctrl_v hw)) hw"

definition aon_rtc_ll_disable_tick_int :: "aon_rtc_hw_t \<Rightarrow> aon_rtc_hw_t" where
  "aon_rtc_ll_disable_tick_int hw = ctrl_write (unset_bit 3 (ctrl_v hw)) hw"

definition aon_rtc_ll_clear_tick_int_status :: "aon_rtc_hw_t \<Rightarrow> aon_rtc_hw_t" where
  "aon_rtc_ll_clear_tick_int_status hw = ctrl_write (set_bit 5 (ctrl_v hw)) hw"

definition aon_rtc_ll_enable_upper_int :: "aon_rtc_hw_t \<Rightarrow> aon_rtc_hw_t" where
  "aon_rtc_ll_enable_upper_int hw = ctrl_write (set_bit 2 (ctrl_v hw)) hw"

definition aon_rtc_ll_disable_upper_int :: "aon_rtc_hw_t \<Rightarrow> aon_rtc_hw_t" where
  "aon_rtc_ll_disable_upper_int hw = ctrl_write (unset_bit 2 (ctrl_v hw)) hw"

definition aon_rtc_ll_clear_upper_int_status :: "aon_rtc_hw_t \<Rightarrow> aon_rtc_hw_t" where
  "aon_rtc_ll_clear_upper_int_status hw = ctrl_write (set_bit 4 (ctrl_v hw)) hw"

definition aon_rtc_ll_is_enable :: "aon_rtc_hw_t \<Rightarrow> bool" where
  "aon_rtc_ll_is_enable hw = bit (ctrl_v hw) 6"

definition aon_rtc_ll_is_counter_stop :: "aon_rtc_hw_t \<Rightarrow> bool" where
  "aon_rtc_ll_is_counter_stop hw = bit (ctrl_v hw) 1"

definition aon_rtc_ll_is_counter_reset :: "aon_rtc_hw_t \<Rightarrow> bool" where
  "aon_rtc_ll_is_counter_reset hw = bit (ctrl_v hw) 0"

definition aon_rtc_ll_is_tick_int_enable :: "aon_rtc_hw_t \<Rightarrow> bool" where
  "aon_rtc_ll_is_tick_int_enable hw = bit (ctrl_v hw) 3"

definition aon_rtc_ll_get_tick_int_status :: "aon_rtc_hw_t \<Rightarrow> bool" where
  "aon_rtc_ll_get_tick_int_status hw = bit (ctrl_v hw) 5"

definition aon_rtc_ll_is_upper_int_enable :: "aon_rtc_hw_t \<Rightarrow> bool" where
  "aon_rtc_ll_is_upper_int_enable hw = bit (ctrl_v hw) 2"

definition aon_rtc_ll_get_upper_int_status :: "aon_rtc_hw_t \<Rightarrow> bool" where
  "aon_rtc_ll_get_upper_int_status hw = bit (ctrl_v hw) 4"

definition aon_rtc_ll_clear_ctrl :: "aon_rtc_hw_t \<Rightarrow> aon_rtc_hw_t" where
  "aon_rtc_ll_clear_ctrl hw = ctrl_write 0 hw"

definition aon_rtc_ll_set_tick_val :: "u32 \<Rightarrow> aon_rtc_hw_t \<Rightarrow> aon_rtc_hw_t" where
  "aon_rtc_ll_set_tick_val val hw = hw\<lparr>tick_val := val\<rparr>"

definition aon_rtc_ll_get_tick_val :: "aon_rtc_hw_t \<Rightarrow> u32" where
  "aon_rtc_ll_get_tick_val hw = tick_val hw"

definition aon_rtc_ll_set_upper_val :: "u32 \<Rightarrow> aon_rtc_hw_t \<Rightarrow> aon_rtc_hw_t" where
  "aon_rtc_ll_set_upper_val val hw = hw\<lparr>upper_val := val\<rparr>"

definition aon_rtc_ll_get_upper_val :: "aon_rtc_hw_t \<Rightarrow> u32" where
  "aon_rtc_ll_get_upper_val hw = upper_val hw"

definition aon_rtc_ll_get_counter_val :: "aon_rtc_hw_t \<Rightarrow> u32 \<times> aon_rtc_hw_t" where
  "aon_rtc_ll_get_counter_val hw = (counter_at hw (hw_now hw), hw\<lparr>hw_now := hw_now hw + 1\<rparr>)"

definition aon_rtc_ll_get_upper_val_lpo :: "aon_rtc_hw_t \<Rightarrow> u32 \<times> aon_rtc_hw_t" where
  "aon_rtc_ll_get_upper_val_lpo hw = (up_lpo_at hw (hw_now hw), hw\<lparr>hw_now := hw_now hw + 1\<rparr>)"

definition aon_rtc_ll_get_tick_val_lpo :: "aon_rtc_hw_t \<Rightarrow> u32 \<times> aon_rtc_hw_t" where
  "aon_rtc_ll_get_tick_val_lpo hw = (tick_lpo_at hw (hw_now hw), hw\<lparr>hw_now := hw_now hw + 1\<rparr>)"

section \<open>The hardware abstraction layer\<close>

definition aon_rtc_hal_enable :: "aon_rtc_hw_t \<Rightarrow> aon_rtc_hw_t" where
  "aon_rtc_hal_enable hw = aon_rtc_ll_enable hw"

definition aon_rtc_hal_disable :: "aon_rtc_hw_t \<Rightarrow> aon_rtc_hw_t" where
  "aon_rtc_hal_disable hw = aon_rtc_ll_disable hw"

definition aon_rtc_hal_stop_counter :: "aon_rtc_hw_t \<Rightarrow> aon_rtc_hw_t" where
  "aon_rtc_hal_stop_counter hw = aon_rtc_ll_stop_counter hw"

definition aon_rtc_hal_start_counter :: "aon_rtc_hw_t \<Rightarrow> aon_rtc_hw_t" where
  "aon_rtc_hal_start_counter hw = aon_rtc_ll_start_counter hw"

definition aon_rtc_hal_reset_counter :: "aon_rtc_hw_t \<Rightarrow> aon_rtc_hw_t" where
  "aon_rtc_hal_reset_counter hw = aon_rtc_ll_reset_counter hw"

definition aon_rtc_hal_clear_reset_counter :: "aon_rtc_hw_t \<Rightarrow> aon_rtc_hw_t" where
  "aon_rtc_hal_clear_reset_counter hw = aon_rtc_ll_clear_reset_counter hw"

definition aon_rtc_hal_enable_tick_int :: "aon_rtc_hw_t \<Rightarrow> aon_rtc_hw_t" where
  "aon_rtc_hal_enable_tick_int hw = aon_rtc_ll_enable_tick_int hw"

definition aon_rtc_hal_disable_tick_int :: "aon_rtc_hw_t \<Rightarrow> aon_rtc_hw_t" where
  "aon_rtc_hal_disable_tick_int hw = aon_rtc_ll_disable_tick_int hw"

definition aon_rtc_hal_clear_tick_int_status :: "aon_rtc_hw_t \<Rightarrow> aon_rtc_hw_t" where
  "aon_rtc_hal_clear_tick_int_status hw = aon_rtc_ll_clear_tick_int_status hw"

definition aon_rtc_hal_enable_upper_int :: "aon_rtc_hw_t \<Rightarrow> aon_rtc_hw_t" where
  "aon_rtc_hal_enable_upper_int hw = aon_rtc_ll_enable_upper_int hw"

definition aon_rtc_hal_disable_upper_int :: "aon_rtc_hw_t \<Rightarrow> aon_rtc_hw_t" where
  "aon_rtc_hal_disable_upper_int hw = aon_rtc_ll_disable_upper_int hw"

definition aon_rtc_hal_clear_upper_int_status :: "aon_rtc_hw_t \<Rightarrow> aon_rtc_hw_t" where
  "aon_rtc_hal_clear_upper_int_status hw = aon_rtc_ll_clear_upper_int_status hw"

definition aon_rtc_hal_is_enable :: "aon_rtc_hw_t \<Rightarrow> bool" where
  "aon_rtc_hal_is_enable hw = aon_rtc_ll_is_enable hw"

definition aon_rtc_hal_is_counter_stop :: "aon_rtc_hw_t \<Rightarrow> bool" where
  "aon_rtc_hal_is_counter_stop hw = aon_rtc_ll_is_counter_stop hw"

definition aon_rtc_hal_is_counter_reset :: "aon_rtc_hw_t \<Rightarrow> bool" where
  "aon_rtc_hal_is_counter_reset hw = aon_rtc_ll_is_counter_reset hw"

definition aon_rtc_hal_is_tick_int_enable :: "aon_rtc_hw_t \<Rightarrow> bool" where
  "aon_rtc_hal_is_tick_int_enable hw = aon_rtc_ll_is_tick_int_enable hw"

definition aon_rtc_hal_get_tick_int_status :: "aon_rtc_hw_t \<Rightarrow> bool" where
  "aon_rtc_hal_get_tick_int_status hw = aon_rtc_ll_get_tick_int_status hw"

definition aon_rtc_hal_is_upper_int_enable :: "aon_rtc_hw_t \<Rightarrow> bool" where
  "aon_rtc_hal_is_upper_int_enable hw = aon_rtc_ll_is_upper_int_enable hw"

definition aon_rtc_hal_get_upper_int_status :: "aon_rtc_hw_t \<Rightarrow> bool" where
  "aon_rtc_hal_get_upper_int_status hw = aon_rtc_ll_get_upper_int_status hw"

definition aon_rtc_hal_set_tick_val :: "u32 \<Rightarrow> aon_rtc_hw_t \<Rightarrow> aon_rtc_hw_t" where
  "aon_rtc_hal_set_tick_val val hw = aon_rtc_ll_set_tick_val val hw"

definition aon_rtc_hal_get_tick_val :: "aon_rtc_hw_t \<Rightarrow> u32" where
  "aon_rtc_hal_get_tick_val hw = aon_rtc_ll_get_tick_val hw"

definition aon_rtc_hal_set_upper_val :: "u32 \<Rightarrow> aon_rtc_hw_t \<Rightarrow> aon_rtc_hw_t" where
  "aon_rtc_hal_set_upper_val val hw = aon_rtc_ll_set_upper_val val hw"

definition aon_rtc_hal_get_upper_val :: "aon_rtc_hw_t \<Rightarrow> u32" where
  "aon_rtc_hal_get_upper_val hw = aon_rtc_ll_get_upper_val hw"

definition aon_rtc_hal_get_counter_val :: "aon_rtc_hw_t \<Rightarrow> u32 \<times> aon_rtc_hw_t" where
  "aon_rtc_hal_get_counter_val hw = aon_rtc_ll_get_counter_val hw"

definition aon_rtc_hal_get_upper_val_lpo :: "aon_rtc_hw_t \<Rightarrow> u32 \<times> aon_rtc_hw_t" where
  "aon_rtc_hal_get_upper_val_lpo hw = aon_rtc_ll_get_upper_val_lpo hw"

definition aon_rtc_hal_get_tick_val_lpo :: "aon_rtc_hw_t \<Rightarrow> u32 \<times> aon_rtc_hw_t" where
  "aon_rtc_hal_get_tick_val_lpo hw = aon_rtc_ll_get_tick_val_lpo hw"

definition aon_rtc_hal_init :: "aon_rtc_hw_t \<Rightarrow> bk_err_t \<times> aon_rtc_hw_t" where
  "aon_rtc_hal_init hw =
     (BK_OK, aon_rtc_ll_enable (aon_rtc_ll_set_upper_val 0 (aon_rtc_ll_set_tick_val 0 (aon_rtc_ll_clear_ctrl hw))))"

definition aon_rtc_hal_deinit :: "aon_rtc_hw_t \<Rightarrow> bk_err_t \<times> aon_rtc_hw_t" where
  "aon_rtc_hal_deinit hw =
     (BK_OK, aon_rtc_ll_disable (aon_rtc_ll_set_upper_val 0 (aon_rtc_ll_set_tick_val 0 (aon_rtc_ll_clear_ctrl hw))))"

text \<open>
  The register interface for a system with one user of the counter: it writes whole registers, and
  reads the counter until two reads agree.
\<close>

definition aon_rtc_ll_tick_init :: "aon_rtc_hw_t \<Rightarrow> aon_rtc_hw_t" where
  "aon_rtc_ll_tick_init hw = (ctrl_write 0x40 hw)\<lparr>upper_val := 0xffffffff, tick_val := 0\<rparr>"

definition aon_rtc_hal_tick_init :: "aon_rtc_hw_t \<Rightarrow> bk_err_t \<times> aon_rtc_hw_t" where
  "aon_rtc_hal_tick_init hw = (BK_OK, aon_rtc_ll_tick_init hw)"

partial_function (option) stable_read :: "u32 \<Rightarrow> aon_rtc_hw_t \<Rightarrow> (u32 \<times> aon_rtc_hw_t) option" where
  "stable_read val hw =
     (case aon_rtc_ll_get_counter_val hw of
        (again, hw') \<Rightarrow>
          if val = again then Some (val, hw')
          else case aon_rtc_ll_get_counter_val hw' of (val', hw'') \<Rightarrow> stable_read val' hw'')"

definition aon_rtc_ll_get_current_tick :: "aon_rtc_hw_t \<Rightarrow> (u32 \<times> aon_rtc_hw_t) option" where
  "aon_rtc_ll_get_current_tick hw = (case aon_rtc_ll_get_counter_val hw of (val, hw') \<Rightarrow> stable_read val hw')"

definition aon_rtc_hal_get_current_tick :: "aon_rtc_hw_t \<Rightarrow> (u32 \<times> aon_rtc_hw_t) option" where
  "aon_rtc_hal_get_current_tick hw = aon_rtc_ll_get_current_tick hw"

definition aon_rtc_ll_open_rtc_wakeup :: "u32 \<Rightarrow> aon_rtc_hw_t \<Rightarrow> (bk_err_t \<times> aon_rtc_hw_t) option" where
  "aon_rtc_ll_open_rtc_wakeup period hw =
     (case aon_rtc_ll_get_current_tick hw of
        None \<Rightarrow> None
      | Some (tick, hw') \<Rightarrow>
          let hw'' = hw'\<lparr>tick_val := tick + period\<rparr>
          in Some (BK_OK, ctrl_write (ctrl_v hw'' OR 0x8) hw''))"

definition aon_rtc_hal_open_rtc_wakeup :: "u32 \<Rightarrow> aon_rtc_hw_t \<Rightarrow> (bk_err_t \<times> aon_rtc_hw_t) option" where
  "aon_rtc_hal_open_rtc_wakeup period hw =
     (case aon_rtc_ll_open_rtc_wakeup period hw of None \<Rightarrow> None | Some (_, hw') \<Rightarrow> Some (BK_OK, hw'))"

section \<open>What a write does to the fields\<close>

named_theorems rtc_hw \<open>effect of the register accessors\<close>

lemma bit_sts_mask: "bit AON_RTC_STS_MASK i \<longleftrightarrow> i = 4 \<or> i = 5"
proof -
  have "AON_RTC_STS_MASK = set_bit 4 (set_bit 5 0)" by (simp add: AON_RTC_STS_MASK_def set_bit_eq_or)
  then have "bit AON_RTC_STS_MASK i \<longleftrightarrow> bit (set_bit 4 (set_bit 5 (0 :: u32))) i" by (simp only:)
  also have "\<dots> \<longleftrightarrow> i = 4 \<or> i = 5" by (simp only: bit_set_bit_iff) auto
  finally show ?thesis .
qed

lemma bit_ctrl_write:
  "i < 32 \<Longrightarrow> bit (ctrl_v (ctrl_write v hw)) i \<longleftrightarrow>
     (if i = 4 \<or> i = 5 then bit (ctrl_v hw) i \<and> \<not> bit v i else bit v i)"
  by (auto simp: ctrl_write_def bit_or_iff bit_and_iff bit_not_iff bit_sts_mask)

lemma ctrl_write_frame [simp]:
  "upper_val (ctrl_write v hw) = upper_val hw" "tick_val (ctrl_write v hw) = tick_val hw"
  "counter_at (ctrl_write v hw) = counter_at hw" "tick_lpo_at (ctrl_write v hw) = tick_lpo_at hw"
  "up_lpo_at (ctrl_write v hw) = up_lpo_at hw" "hw_now (ctrl_write v hw) = hw_now hw"
  by (simp_all add: ctrl_write_def)

text \<open>A field write clears both pending interrupts, whatever field it was meant for.\<close>

lemma field_write_clears_status:
  assumes "n < 32"
  shows "i = 4 \<or> i = 5 \<Longrightarrow> \<not> bit (ctrl_v (ctrl_write (set_bit n (ctrl_v hw)) hw)) i"
    and "i = 4 \<or> i = 5 \<Longrightarrow> i \<noteq> n \<Longrightarrow> \<not> bit (ctrl_v (ctrl_write (unset_bit n (ctrl_v hw)) hw)) i"
    and "n \<noteq> 4 \<Longrightarrow> n \<noteq> 5 \<Longrightarrow> bit (ctrl_v (ctrl_write (set_bit n (ctrl_v hw)) hw)) n"
    and "n \<noteq> 4 \<Longrightarrow> n \<noteq> 5 \<Longrightarrow> \<not> bit (ctrl_v (ctrl_write (unset_bit n (ctrl_v hw)) hw)) n"
  using assms by (auto simp: bit_ctrl_write bit_set_bit_iff bit_unset_bit_iff)

text \<open>The reading loop ends as soon as two reads of a pair agree, with a value the counter had.\<close>

lemma stable_read_ends:
  assumes "counter_at hw (hw_now hw + 2 * k) = val_k"
    and "val_k = (if k = 0 then val else counter_at hw (hw_now hw + 2 * k - 1))"
  shows "\<exists>r hw'. stable_read val hw = Some (r, hw')"
  using assms
proof (induction k arbitrary: val hw)
  case 0
  then show ?case by (subst stable_read.simps) (simp add: aon_rtc_ll_get_counter_val_def)
next
  case (Suc k)
  let ?hw = "hw\<lparr>hw_now := Suc (Suc (hw_now hw))\<rparr>"
  let ?val = "counter_at hw (Suc (hw_now hw))"
  have "\<exists>r hw'. stable_read ?val ?hw = Some (r, hw')"
    using Suc.prems by (intro Suc.IH) (auto simp: algebra_simps split: if_splits)
  then show ?case
    by (subst stable_read.simps) (simp add: aon_rtc_ll_get_counter_val_def)
qed

lemma aon_rtc_ll_get_current_tick_returns:
  assumes "counter_at hw (hw_now hw + 2 * k + 1) = counter_at hw (hw_now hw + 2 * k)"
  shows "\<exists>r hw'. aon_rtc_ll_get_current_tick hw = Some (r, hw')"
  using stable_read_ends [of "hw\<lparr>hw_now := Suc (hw_now hw)\<rparr>" k _ "counter_at hw (hw_now hw)"] assms
  by (simp add: aon_rtc_ll_get_current_tick_def aon_rtc_ll_get_counter_val_def)

end
