(* ===== verification/Aon_Rtc.thy ===== *)
theory Aon_Rtc
  imports Aon_Rtc_Hw
begin

text \<open>
  The alarm driver of \<^verbatim>\<open>middleware/driver/rtc/aon_rtc_driver.c\<close>. Up to eight alarms live in a
  fixed array of nodes with a bitmap of the busy ones; the registered alarms form a singly linked
  list ordered by expiry, and the hardware comparator is set to the expiry of the first. The tick
  interrupt runs the callbacks of the alarms that are due, takes out those that have run their
  last period and moves the others to their next place.

  A pointer to a node is its index. The list walks of the code have no bound of their own or the
  bound of a \<^verbatim>\<open>BK_ASSERT\<close>; the model bounds all of them by the number of nodes, and the lemmas
  show that on the lists of this driver the bound is never met. There is one unit
  (\<^verbatim>\<open>SOC_AON_RTC_UNIT_NUM\<close> is 1), so the arrays over the unit id are single records. Interrupts are
  disabled while the list is worked on, so an operation is one step.
\<close>

section \<open>State\<close>

abbreviation AON_RTC_MAX_ALARM_CNT :: nat where "AON_RTC_MAX_ALARM_CNT \<equiv> 8"
abbreviation AON_RTC_ID_MAX :: nat where "AON_RTC_ID_MAX \<equiv> 1"
abbreviation ALARM_NAME_MAX_LEN :: nat where "ALARM_NAME_MAX_LEN \<equiv> 7"
abbreviation ALARM_LOOP_FOREVER :: u32 where "ALARM_LOOP_FOREVER \<equiv> 0xffffffff"
abbreviation AON_RTC_PRECISION_TICK :: nat where "AON_RTC_PRECISION_TICK \<equiv> 32"
abbreviation AON_RTC_ROUND_TICK :: u32 where "AON_RTC_ROUND_TICK \<equiv> 0xFFFFFFFF"

text \<open>The string ``aon_rtc''.\<close>

definition AON_RTC_NAME :: "u8 list" where
  "AON_RTC_NAME = [0x61, 0x6f, 0x6e, 0x5f, 0x72, 0x74, 0x63]"

record alarm_info_t =
  info_name :: "u8 list"
  info_period_tick :: u32
  info_period_cnt :: u32
  info_callback :: addr
  info_param_p :: addr

record alarm_node_t =
  next_p :: "nat option"
  alarm_name :: "u8 list"
  period_tick :: u32
  period_cnt :: u32
  alarm_callback :: addr
  cb_param_p :: addr
  start_tick :: u64
  expired_tick :: u64

definition zero_node :: alarm_node_t where
  "zero_node = \<lparr>next_p = None, alarm_name = replicate 8 0, period_tick = 0, period_cnt = 0,
     alarm_callback = NULL, cb_param_p = NULL, start_tick = 0, expired_tick = 0\<rparr>"

record aon_rtc_callback_t =
  isr_callback :: addr
  isr_param :: addr

text \<open>
  The driver's data for its unit. \<^verbatim>\<open>nodes_p\<close> says whether the node memory has been allocated,
  \<^verbatim>\<open>rtc_calls\<close> records the callbacks that have run with the name and the argument they were given.
\<close>

record aon_rtc_driver_t =
  rtc_inited :: bool
  rtc_hw :: aon_rtc_hw_t
  alarm_head_p :: "nat option"
  alarm_node_cnt :: u32
  nodes_p :: bool
  rtc_nodes :: "alarm_node_t list"
  busy_bits :: u64
  tick_isr :: aon_rtc_callback_t
  upper_isr :: aon_rtc_callback_t
  s_high_tick :: u64
  rtc_calls :: "(addr \<times> u8 list \<times> addr) list"
  rtc_heap :: heap

text \<open>
  A callback is code of the application. It may call back into the driver, so it is a function on
  the driver's state.
\<close>

type_synonym rtc_callbacks = "addr \<Rightarrow> u8 list \<Rightarrow> addr \<Rightarrow> aon_rtc_driver_t \<Rightarrow> aon_rtc_driver_t"

abbreviation node :: "aon_rtc_driver_t \<Rightarrow> nat \<Rightarrow> alarm_node_t" where
  "node s i \<equiv> rtc_nodes s ! i"

definition set_node :: "nat \<Rightarrow> alarm_node_t \<Rightarrow> aon_rtc_driver_t \<Rightarrow> aon_rtc_driver_t" where
  "set_node i n s = s\<lparr>rtc_nodes := (rtc_nodes s)[i := n]\<rparr>"

definition set_next :: "nat \<Rightarrow> nat option \<Rightarrow> aon_rtc_driver_t \<Rightarrow> aon_rtc_driver_t" where
  "set_next i p s = set_node i ((node s i)\<lparr>next_p := p\<rparr>) s"

section \<open>Nodes\<close>

definition aon_rtc_request_node :: "aon_rtc_driver_t \<Rightarrow> nat option \<times> aon_rtc_driver_t" where
  "aon_rtc_request_node s =
     (case find (\<lambda>i. busy_bits s AND push_bit i 1 = 0) [0..<AON_RTC_MAX_ALARM_CNT] of
        Some i \<Rightarrow> (Some i, s\<lparr>busy_bits := busy_bits s OR push_bit i 1\<rparr>)
      | None \<Rightarrow> (None, s))"

text \<open>
  The release clears the first \<^verbatim>\<open>sizeof(alarm_info_t)\<close> = 24 bytes of the node, which are the
  fields up to the callback.
\<close>

definition aon_rtc_release_node :: "nat \<Rightarrow> aon_rtc_driver_t \<Rightarrow> aon_rtc_driver_t option" where
  "aon_rtc_release_node i s =
     (if i < AON_RTC_MAX_ALARM_CNT then
        Some (set_node i
          ((node s i)\<lparr>next_p := None, alarm_name := replicate 8 0, period_tick := 0, period_cnt := 0,
             alarm_callback := NULL\<rparr>)
          (s\<lparr>busy_bits := busy_bits s AND NOT (push_bit i 1)\<rparr>))
      else None)"

section \<open>The ordered list\<close>

fun alarm_has_name :: "nat \<Rightarrow> u8 list \<Rightarrow> nat option \<Rightarrow> aon_rtc_driver_t \<Rightarrow> bool option" where
  "alarm_has_name fuel name None s = Some False"
| "alarm_has_name 0 name (Some cur_p) s = None"
| "alarm_has_name (Suc fuel) name (Some cur_p) s =
     (if strncmp_eq ALARM_NAME_MAX_LEN (alarm_name (node s cur_p)) name then Some True
      else alarm_has_name fuel name (next_p (node s cur_p)) s)"

fun alarm_insert_loop ::
  "nat \<Rightarrow> nat \<Rightarrow> nat \<Rightarrow> nat option \<Rightarrow> aon_rtc_driver_t \<Rightarrow> aon_rtc_driver_t option" where
  "alarm_insert_loop fuel node_p cur_p None s =
     Some ((set_next cur_p (Some node_p) s)\<lparr>alarm_node_cnt := alarm_node_cnt s + 1\<rparr>)"
| "alarm_insert_loop 0 node_p cur_p (Some nxt) s = None"
| "alarm_insert_loop (Suc fuel) node_p cur_p (Some nxt) s =
     (if expired_tick (node s cur_p) \<le> expired_tick (node s node_p) then
        if expired_tick (node s nxt) \<le> expired_tick (node s node_p)
        then alarm_insert_loop fuel node_p nxt (next_p (node s nxt)) s
        else Some ((set_next cur_p (Some node_p) (set_next node_p (Some nxt) s))
                     \<lparr>alarm_node_cnt := alarm_node_cnt s + 1\<rparr>)
      else Some ((set_next node_p (Some cur_p) s)
                   \<lparr>alarm_head_p := Some node_p, alarm_node_cnt := alarm_node_cnt s + 1\<rparr>))"

definition alarm_insert_node :: "nat \<Rightarrow> aon_rtc_driver_t \<Rightarrow> (int \<times> aon_rtc_driver_t) option" where
  "alarm_insert_node node_p s = do {
     same \<leftarrow> alarm_has_name AON_RTC_MAX_ALARM_CNT (alarm_name (node s node_p)) (alarm_head_p s) s;
     if same then Some (- 1, s)
     else case alarm_head_p s of
       None \<Rightarrow> Some (0, s\<lparr>alarm_head_p := Some node_p, alarm_node_cnt := alarm_node_cnt s + 1\<rparr>)
     | Some cur_p \<Rightarrow>
         (case next_p (node s cur_p) of
            None \<Rightarrow>
              if expired_tick (node s cur_p) \<le> expired_tick (node s node_p)
              then Some (0, (set_next cur_p (Some node_p) s)\<lparr>alarm_node_cnt := alarm_node_cnt s + 1\<rparr>)
              else Some (0, (set_next node_p (Some cur_p) s)
                              \<lparr>alarm_head_p := Some node_p, alarm_node_cnt := alarm_node_cnt s + 1\<rparr>)
          | Some nxt \<Rightarrow>
              map_option (Pair 0) (alarm_insert_loop AON_RTC_MAX_ALARM_CNT node_p cur_p (Some nxt) s))
   }"

text \<open>
  The walk of \<^verbatim>\<open>alarm_remove_node\<close> asserts at each node that it has not seen more than eight.
\<close>

fun alarm_remove_loop ::
  "nat \<Rightarrow> u8 list \<Rightarrow> nat \<Rightarrow> nat option \<Rightarrow> aon_rtc_driver_t \<Rightarrow> (nat option \<times> aon_rtc_driver_t) option" where
  "alarm_remove_loop n name previous_p None s = Some (None, s)"
| "alarm_remove_loop 0 name previous_p (Some cur_p) s = None"
| "alarm_remove_loop (Suc n) name previous_p (Some cur_p) s =
     (if strncmp_eq ALARM_NAME_MAX_LEN (alarm_name (node s cur_p)) name then
        let s' = (if previous_p = cur_p then s\<lparr>alarm_head_p := next_p (node s cur_p)\<rparr>
                  else set_next previous_p (next_p (node s cur_p)) s)
        in map_option (Pair (Some cur_p))
             (aon_rtc_release_node cur_p (s'\<lparr>alarm_node_cnt := alarm_node_cnt s - 1\<rparr>))
      else alarm_remove_loop n name cur_p (next_p (node s cur_p)) s)"

definition alarm_remove_node :: "u8 list \<Rightarrow> aon_rtc_driver_t \<Rightarrow> (nat option \<times> aon_rtc_driver_t) option" where
  "alarm_remove_node name s =
     (case alarm_head_p s of
        None \<Rightarrow> Some (None, s)
      | Some head \<Rightarrow> alarm_remove_loop AON_RTC_MAX_ALARM_CNT name head (Some head) s)"

section \<open>Time\<close>

definition bk_aon_rtc_get_current_tick :: "nat \<Rightarrow> aon_rtc_driver_t \<Rightarrow> u64 \<times> aon_rtc_driver_t" where
  "bk_aon_rtc_get_current_tick rtc_id s =
     (if rtc_id \<ge> AON_RTC_ID_MAX then (0, s)
      else case aon_rtc_hal_get_counter_val (rtc_hw s) of
        (v, hw) \<Rightarrow> (push_bit 32 (s_high_tick s) + ucast v, s\<lparr>rtc_hw := hw\<rparr>))"

text \<open>
  The hardware takes three cycles of its slow clock to take over a new comparator value; the code
  polls at most 769 times.
\<close>

fun aon_rtc_set_tick_poll :: "nat \<Rightarrow> u32 \<Rightarrow> aon_rtc_hw_t \<Rightarrow> aon_rtc_hw_t" where
  "aon_rtc_set_tick_poll 0 val hw = hw"
| "aon_rtc_set_tick_poll (Suc n) val hw =
     (case aon_rtc_hal_get_tick_val_lpo hw of
        (v, hw') \<Rightarrow> if v = val then hw' else aon_rtc_set_tick_poll n val hw')"

definition aon_rtc_set_tick :: "u32 \<Rightarrow> aon_rtc_driver_t \<Rightarrow> aon_rtc_driver_t" where
  "aon_rtc_set_tick val s =
     s\<lparr>rtc_hw := aon_rtc_set_tick_poll 769 val (aon_rtc_hal_set_tick_val val (rtc_hw s))\<rparr>"

section \<open>Expiry\<close>

definition run_alarm_callback :: "rtc_callbacks \<Rightarrow> nat \<Rightarrow> aon_rtc_driver_t \<Rightarrow> aon_rtc_driver_t" where
  "run_alarm_callback cb cur_p s =
     (let n = node s cur_p in
      if alarm_callback n \<noteq> NULL
      then cb (alarm_callback n) (alarm_name n) (cb_param_p n)
             (s\<lparr>rtc_calls := rtc_calls s @ [(alarm_callback n, alarm_name n, cb_param_p n)]\<rparr>)
      else s)"

fun alarm_update_loop ::
  "rtc_callbacks \<Rightarrow> nat \<Rightarrow> nat option \<Rightarrow> aon_rtc_driver_t \<Rightarrow> aon_rtc_driver_t option" where
  "alarm_update_loop cb n None s = Some s"
| "alarm_update_loop cb 0 (Some cur_p) s = None"
| "alarm_update_loop cb (Suc n) (Some cur_p) s =
     (let nxt = next_p (node s cur_p);
          (cur_tick, s) = bk_aon_rtc_get_current_tick 0 s
      in if expired_tick (node s cur_p) \<le> cur_tick + of_nat AON_RTC_PRECISION_TICK then
           let s = run_alarm_callback cb cur_p s in
           if period_cnt (node s cur_p) = 1 then
             let s = set_node cur_p ((node s cur_p)\<lparr>period_cnt := 0\<rparr>) s;
                 s = s\<lparr>alarm_head_p := next_p (node s cur_p), alarm_node_cnt := alarm_node_cnt s - 1\<rparr>
             in do { s \<leftarrow> aon_rtc_release_node cur_p s; alarm_update_loop cb n nxt s }
           else
             let s = (if period_cnt (node s cur_p) \<noteq> ALARM_LOOP_FOREVER
                      then set_node cur_p ((node s cur_p)\<lparr>period_cnt := period_cnt (node s cur_p) - 1\<rparr>) s
                      else s)
             in if nxt \<noteq> None then
                  let s = s\<lparr>alarm_head_p := next_p (node s cur_p)\<rparr>;
                      s = set_node cur_p ((node s cur_p)
                            \<lparr>expired_tick := expired_tick (node s cur_p) + ucast (period_tick (node s cur_p)),
                             next_p := None\<rparr>) s;
                      s = s\<lparr>alarm_node_cnt := alarm_node_cnt s - 1\<rparr>
                  in do {
                    (ret, s) \<leftarrow> alarm_insert_node cur_p s;
                    if ret \<noteq> 0 then Some s else alarm_update_loop cb n nxt s
                  }
                else
                  let s = set_node cur_p ((node s cur_p)
                        \<lparr>expired_tick := expired_tick (node s cur_p) + ucast (period_tick (node s cur_p))\<rparr>) s
                  in alarm_update_loop cb n nxt s
         else Some s)"

definition alarm_update_expeired_nodes :: "rtc_callbacks \<Rightarrow> aon_rtc_driver_t \<Rightarrow> aon_rtc_driver_t option" where
  "alarm_update_expeired_nodes cb s = alarm_update_loop cb AON_RTC_MAX_ALARM_CNT (alarm_head_p s) s"

text \<open>Setting the comparator to the first alarm, as the interrupt, registration and removal do.\<close>

definition set_tick_to_head :: "aon_rtc_driver_t \<Rightarrow> aon_rtc_driver_t option" where
  "set_tick_to_head s =
     (case alarm_head_p s of
        Some head \<Rightarrow>
          (case bk_aon_rtc_get_current_tick 0 s of
             (cur_tick, s) \<Rightarrow> do {
               bk_assert (cur_tick + 1 < expired_tick (node s head));
               Some (aon_rtc_set_tick (ucast (expired_tick (node s head))) s)
             })
      | None \<Rightarrow> Some (aon_rtc_set_tick AON_RTC_ROUND_TICK s))"

definition aon_rtc_isr_handler :: "rtc_callbacks \<Rightarrow> aon_rtc_driver_t \<Rightarrow> (bk_err_t \<times> aon_rtc_driver_t) option" where
  "aon_rtc_isr_handler cb s = do {
     s \<leftarrow> (if aon_rtc_hal_get_tick_int_status (rtc_hw s) then do {
             s \<leftarrow> alarm_update_expeired_nodes cb (s\<lparr>rtc_hw := aon_rtc_hal_clear_tick_int_status (rtc_hw s)\<rparr>);
             set_tick_to_head s
           } else Some s);
     Some (BK_OK,
       if aon_rtc_hal_get_upper_int_status (rtc_hw s) then
         let s = s\<lparr>s_high_tick := s_high_tick s + 1\<rparr>;
             f = isr_callback (upper_isr s);
             s = (if f \<noteq> NULL
                  then cb f AON_RTC_NAME (isr_param (upper_isr s))
                         (s\<lparr>rtc_calls := rtc_calls s @ [(f, AON_RTC_NAME, isr_param (upper_isr s))]\<rparr>)
                  else s)
         in s\<lparr>rtc_hw := aon_rtc_hal_clear_upper_int_status (rtc_hw s)\<rparr>
       else s)
   }"

section \<open>Initialisation and the API\<close>

definition bk_aon_rtc_register_tick_isr :: "addr \<Rightarrow> addr \<Rightarrow> aon_rtc_driver_t \<Rightarrow> bk_err_t \<times> aon_rtc_driver_t" where
  "bk_aon_rtc_register_tick_isr isr param s =
     (BK_OK, s\<lparr>tick_isr := \<lparr>isr_callback = isr, isr_param = param\<rparr>\<rparr>)"

definition bk_aon_rtc_register_upper_isr :: "addr \<Rightarrow> addr \<Rightarrow> aon_rtc_driver_t \<Rightarrow> bk_err_t \<times> aon_rtc_driver_t" where
  "bk_aon_rtc_register_upper_isr isr param s =
     (BK_OK, s\<lparr>upper_isr := \<lparr>isr_callback = isr, isr_param = param\<rparr>\<rparr>)"

definition aon_rtc_sw_init :: "aon_rtc_driver_t \<Rightarrow> bk_err_t \<times> aon_rtc_driver_t" where
  "aon_rtc_sw_init s =
     (let s = s\<lparr>rtc_inited := False, alarm_head_p := None, alarm_node_cnt := 0,
                tick_isr := \<lparr>isr_callback = NULL, isr_param = NULL\<rparr>,
                upper_isr := \<lparr>isr_callback = NULL, isr_param = NULL\<rparr>, s_high_tick := 0\<rparr>
      in case os_zalloc (rtc_heap s) of
           (False, h) \<Rightarrow> (BK_ERR_NO_MEM, s\<lparr>rtc_heap := h, nodes_p := False\<rparr>)
         | (True, h) \<Rightarrow> (BK_OK, s\<lparr>rtc_heap := h, nodes_p := True,
              rtc_nodes := replicate AON_RTC_MAX_ALARM_CNT zero_node, busy_bits := 0\<rparr>))"

definition aon_rtc_hw_init :: "aon_rtc_driver_t \<Rightarrow> aon_rtc_driver_t" where
  "aon_rtc_hw_init s =
     s\<lparr>rtc_hw := aon_rtc_hal_start_counter (aon_rtc_hal_enable_upper_int
        (aon_rtc_hal_set_upper_val AON_RTC_ROUND_TICK (snd (aon_rtc_hal_init (rtc_hw s)))))\<rparr>"

definition bk_aon_rtc_driver_init :: "aon_rtc_driver_t \<Rightarrow> bk_err_t \<times> aon_rtc_driver_t" where
  "bk_aon_rtc_driver_init s =
     (BK_OK, if rtc_inited s then s
             else (aon_rtc_hw_init (snd (aon_rtc_sw_init s)))\<lparr>rtc_inited := True\<rparr>)"

definition bk_aon_rtc_driver_deinit :: "aon_rtc_driver_t \<Rightarrow> bk_err_t \<times> aon_rtc_driver_t" where
  "bk_aon_rtc_driver_deinit s =
     (BK_OK, if rtc_inited s then
               (if nodes_p s then s\<lparr>rtc_heap := os_free (rtc_heap s), nodes_p := False\<rparr> else s)
                 \<lparr>rtc_inited := False\<rparr>
             else s)"

text \<open>Filling in a requested node; it fails on a period count of 0.\<close>

definition fill_alarm_node :: "nat \<Rightarrow> alarm_info_t \<Rightarrow> aon_rtc_driver_t \<Rightarrow> aon_rtc_driver_t option" where
  "fill_alarm_node i info s =
     (case bk_aon_rtc_get_current_tick 0 s of
        (tick, s) \<Rightarrow> do {
          bk_assert (info_period_cnt info \<noteq> 0);
          Some (set_node i
            \<lparr>next_p = None, alarm_name = take ALARM_NAME_MAX_LEN (info_name info) @ [0],
             period_tick = info_period_tick info, period_cnt = info_period_cnt info,
             alarm_callback = info_callback info, cb_param_p = info_param_p info,
             start_tick = tick, expired_tick = tick + ucast (info_period_tick info)\<rparr> s)
        })"

definition bk_alarm_register ::
  "nat \<Rightarrow> alarm_info_t option \<Rightarrow> aon_rtc_driver_t \<Rightarrow> (bk_err_t \<times> aon_rtc_driver_t) option" where
  "bk_alarm_register rtc_id alarm_info_p s =
     (if rtc_id \<ge> AON_RTC_ID_MAX then Some (BK_ERR_PARAM, s)
      else case alarm_info_p of
        None \<Rightarrow> Some (BK_ERR_PARAM, s)
      | Some info \<Rightarrow>
          if info_period_tick info < of_nat AON_RTC_PRECISION_TICK then Some (BK_FAIL, s)
          else if alarm_node_cnt s \<ge> of_nat AON_RTC_MAX_ALARM_CNT then Some (BK_FAIL, s)
          else if \<not> nodes_p s then None
          else case aon_rtc_request_node s of
            (None, s) \<Rightarrow> Some (BK_ERR_NO_MEM, s)
          | (Some node_p, s) \<Rightarrow> do {
              s \<leftarrow> fill_alarm_node node_p info s;
              (ret, s) \<leftarrow> alarm_insert_node node_p s;
              if ret \<noteq> 0 then do {
                s \<leftarrow> aon_rtc_release_node node_p s;
                Some (BK_FAIL, s)
              } else do {
                s \<leftarrow> (if alarm_head_p s = Some node_p then set_tick_to_head s else Some s);
                Some (BK_OK, s\<lparr>rtc_hw := aon_rtc_hal_enable_tick_int (rtc_hw s)\<rparr>)
              }
            })"

definition bk_alarm_unregister ::
  "nat \<Rightarrow> u8 list \<Rightarrow> aon_rtc_driver_t \<Rightarrow> (bk_err_t \<times> aon_rtc_driver_t) option" where
  "bk_alarm_unregister rtc_id name_p s =
     (if rtc_id \<ge> AON_RTC_ID_MAX then Some (BK_ERR_PARAM, s)
      else do {
        (remove_node_p, t) \<leftarrow> alarm_remove_node name_p s;
        t \<leftarrow> (if alarm_head_p s = remove_node_p then set_tick_to_head t else Some t);
        Some (BK_OK, t)
      })"

section \<open>Linked lists of nodes\<close>

text \<open>
  \<^verbatim>\<open>alarm_seg ns p xs q\<close>: following the \<^verbatim>\<open>next\<close> pointers from \<^verbatim>\<open>p\<close> visits the nodes
  \<^verbatim>\<open>xs\<close> and arrives at \<^verbatim>\<open>q\<close>.
\<close>

fun alarm_seg :: "alarm_node_t list \<Rightarrow> nat option \<Rightarrow> nat list \<Rightarrow> nat option \<Rightarrow> bool" where
  "alarm_seg ns p [] q \<longleftrightarrow> p = q"
| "alarm_seg ns p (i # is) q \<longleftrightarrow> p = Some i \<and> i < length ns \<and> alarm_seg ns (next_p (ns ! i)) is q"

definition rtc_list :: "aon_rtc_driver_t \<Rightarrow> nat list \<Rightarrow> bool" where
  "rtc_list s xs \<longleftrightarrow> alarm_seg (rtc_nodes s) (alarm_head_p s) xs None"

lemma alarm_seg_append:
  "alarm_seg ns p (xs @ ys) q \<longleftrightarrow> (\<exists>m. alarm_seg ns p xs m \<and> alarm_seg ns m ys q)"
  by (induction xs arbitrary: p) auto

lemma alarm_seg_bound: "alarm_seg ns p xs q \<Longrightarrow> i \<in> set xs \<Longrightarrow> i < length ns"
  by (induction xs arbitrary: p) auto

lemma alarm_seg_update [simp]:
  "i \<notin> set xs \<Longrightarrow> alarm_seg (ns[i := n]) p xs q \<longleftrightarrow> alarm_seg ns p xs q"
  by (induction xs arbitrary: p) auto

lemma alarm_seg_same_next:
  "length ns' = length ns \<Longrightarrow> (\<forall>i \<in> set xs. next_p (ns' ! i) = next_p (ns ! i)) \<Longrightarrow>
     alarm_seg ns' p xs q \<longleftrightarrow> alarm_seg ns p xs q"
  by (induction xs arbitrary: p) auto

lemma alarm_seg_unique:
  "alarm_seg ns p xs None \<Longrightarrow> alarm_seg ns p ys None \<Longrightarrow> xs = ys"
proof (induction xs arbitrary: p ys)
  case Nil
  then show ?case by (cases ys) auto
next
  case (Cons i "is")
  then show ?case by (cases ys) auto
qed

text \<open>What list surgery leaves alone: everything but pointers, the head and the count.\<close>

definition node_data :: "aon_rtc_driver_t \<Rightarrow> alarm_node_t list" where
  "node_data s = map (\<lambda>n. n\<lparr>next_p := None\<rparr>) (rtc_nodes s)"

definition relinked :: "aon_rtc_driver_t \<Rightarrow> aon_rtc_driver_t \<Rightarrow> bool" where
  "relinked s t \<longleftrightarrow>
     node_data t = node_data s \<and> rtc_inited t = rtc_inited s \<and> rtc_hw t = rtc_hw s \<and> nodes_p t = nodes_p s \<and>
     busy_bits t = busy_bits s \<and> tick_isr t = tick_isr s \<and> upper_isr t = upper_isr s \<and>
     s_high_tick t = s_high_tick s \<and> rtc_calls t = rtc_calls s \<and> rtc_heap t = rtc_heap s"

lemma node_data_length: "node_data t = node_data s \<Longrightarrow> length (rtc_nodes t) = length (rtc_nodes s)"
  by (metis length_map node_data_def)

lemma node_data_fields:
  assumes "node_data t = node_data s" and "i < length (rtc_nodes s)"
  shows "expired_tick (node t i) = expired_tick (node s i)" "alarm_name (node t i) = alarm_name (node s i)"
    "period_tick (node t i) = period_tick (node s i)" "period_cnt (node t i) = period_cnt (node s i)"
    "alarm_callback (node t i) = alarm_callback (node s i)" "cb_param_p (node t i) = cb_param_p (node s i)"
    "start_tick (node t i) = start_tick (node s i)"
proof -
  have e: "(node t i)\<lparr>next_p := None\<rparr> = (node s i)\<lparr>next_p := None\<rparr>"
    using arg_cong [OF assms(1), of "\<lambda>ns. ns ! i"] assms(2) node_data_length [OF assms(1)]
    by (simp add: node_data_def)
  show "expired_tick (node t i) = expired_tick (node s i)" using arg_cong [OF e, of expired_tick] by simp
  show "alarm_name (node t i) = alarm_name (node s i)" using arg_cong [OF e, of alarm_name] by simp
  show "period_tick (node t i) = period_tick (node s i)" using arg_cong [OF e, of period_tick] by simp
  show "period_cnt (node t i) = period_cnt (node s i)" using arg_cong [OF e, of period_cnt] by simp
  show "alarm_callback (node t i) = alarm_callback (node s i)" using arg_cong [OF e, of alarm_callback] by simp
  show "cb_param_p (node t i) = cb_param_p (node s i)" using arg_cong [OF e, of cb_param_p] by simp
  show "start_tick (node t i) = start_tick (node s i)" using arg_cong [OF e, of start_tick] by simp
qed

lemma node_data_set_next [simp]: "node_data (set_next i p s) = node_data s"
  by (cases "i < length (rtc_nodes s)")
    (simp_all add: node_data_def set_next_def set_node_def map_update list_update_same_conv
      list_update_beyond)

lemma set_next_simps [simp]:
  "rtc_nodes (set_next i p s) = (rtc_nodes s)[i := (node s i)\<lparr>next_p := p\<rparr>]"
  "alarm_head_p (set_next i p s) = alarm_head_p s" "alarm_node_cnt (set_next i p s) = alarm_node_cnt s"
  by (simp_all add: set_next_def set_node_def)

lemma relinked_refl [simp]: "relinked s s"
  by (simp add: relinked_def)

lemma node_data_frame [simp]:
  "node_data (s\<lparr>alarm_node_cnt := c\<rparr>) = node_data s" "node_data (s\<lparr>alarm_head_p := h\<rparr>) = node_data s"
  by (simp_all add: node_data_def)

lemma relinked_frame [simp]:
  "relinked s t \<Longrightarrow> relinked s (set_next i p t)"
  "relinked s t \<Longrightarrow> relinked s (t\<lparr>alarm_node_cnt := c\<rparr>)"
  "relinked s t \<Longrightarrow> relinked s (t\<lparr>alarm_head_p := h\<rparr>)"
  by (simp_all add: relinked_def) (simp_all add: set_next_def set_node_def)

section \<open>Insertion keeps the order of expiry\<close>

abbreviation alarm_expiry :: "aon_rtc_driver_t \<Rightarrow> nat \<Rightarrow> u64" where
  "alarm_expiry s i \<equiv> expired_tick (node s i)"

abbreviation alarm_id :: "aon_rtc_driver_t \<Rightarrow> nat \<Rightarrow> u8 list" where
  "alarm_id s i \<equiv> c_string ALARM_NAME_MAX_LEN (alarm_name (node s i))"

text \<open>The place of a node: behind everything that expires no later.\<close>

definition alarm_insert_list :: "aon_rtc_driver_t \<Rightarrow> nat \<Rightarrow> nat list \<Rightarrow> nat list" where
  "alarm_insert_list s i xs =
     takeWhile (\<lambda>j. alarm_expiry s j \<le> alarm_expiry s i) xs @ i #
     dropWhile (\<lambda>j. alarm_expiry s j \<le> alarm_expiry s i) xs"

lemma alarm_has_name_list:
  assumes "alarm_seg (rtc_nodes s) p xs None" and "length xs \<le> fuel"
  shows "alarm_has_name fuel name p s = Some (\<exists>i \<in> set xs. alarm_id s i = c_string ALARM_NAME_MAX_LEN name)"
  using assms
proof (induction xs arbitrary: p fuel)
  case (Cons i "is")
  then obtain f where "fuel = Suc f" by (cases fuel) auto
  with Cons show ?case by (auto simp: strncmp_eq_iff)
qed (cases fuel; simp)

lemma alarm_insert_loop_list:
  assumes "alarm_seg (rtc_nodes s) (alarm_head_p s) (pre @ [c]) (next_p (node s c))"
    and "alarm_seg (rtc_nodes s) (next_p (node s c)) rest None"
    and "distinct (pre @ c # rest)" and "i \<notin> set (pre @ c # rest)" and "i < length (rtc_nodes s)"
    and "next_p (node s i) = None" and "alarm_expiry s c \<le> alarm_expiry s i" and "length rest \<le> fuel"
  shows "\<exists>t. alarm_insert_loop fuel i c (next_p (node s c)) s = Some t \<and>
    rtc_list t (pre @ c # alarm_insert_list s i rest) \<and> relinked s t \<and> alarm_node_cnt t = alarm_node_cnt s + 1"
  using assms
proof (induction rest arbitrary: pre c fuel)
  case Nil
  let ?t = "(set_next c (Some i) s)\<lparr>alarm_node_cnt := alarm_node_cnt s + 1\<rparr>"
  have "rtc_list ?t (pre @ [c, i])"
    using Nil by (auto simp: rtc_list_def alarm_seg_append)
  moreover have "relinked s ?t"
    by simp
  ultimately show ?case using Nil(2) by (auto simp: alarm_insert_list_def)
next
  case (Cons n rest)
  then obtain f where fuel: "fuel = Suc f" by (cases fuel) auto
  have nx: "next_p (node s c) = Some n" "n < length (rtc_nodes s)" using Cons.prems by auto
  show ?case
  proof (cases "alarm_expiry s n \<le> alarm_expiry s i")
    case True
    have "\<exists>t. alarm_insert_loop f i n (next_p (node s n)) s = Some t \<and>
        rtc_list t ((pre @ [c]) @ n # alarm_insert_list s i rest) \<and> relinked s t \<and>
        alarm_node_cnt t = alarm_node_cnt s + 1"
      using Cons.prems True fuel nx by (intro Cons.IH) (auto simp: alarm_seg_append)
    moreover have "alarm_insert_loop fuel i c (next_p (node s c)) s = alarm_insert_loop f i n (next_p (node s n)) s"
      using True fuel nx(1) Cons.prems(7) by simp
    moreover have "alarm_insert_list s i (n # rest) = n # alarm_insert_list s i rest"
      using True by (simp add: alarm_insert_list_def)
    ultimately show ?thesis by (simp only: append_assoc append_Cons append_Nil)
  next
    case False
    let ?t = "(set_next c (Some i) (set_next i (Some n) s))\<lparr>alarm_node_cnt := alarm_node_cnt s + 1\<rparr>"
    have "rtc_list ?t (pre @ c # i # n # rest)"
      using Cons.prems nx by (auto simp: rtc_list_def alarm_seg_append nth_list_update)
    moreover have "relinked s ?t"
      by simp
    moreover have "alarm_insert_loop fuel i c (next_p (node s c)) s = Some ?t"
      using False fuel nx(1) Cons.prems(7) by simp
    moreover have "alarm_insert_list s i (n # rest) = i # n # rest"
      using False by (simp add: alarm_insert_list_def)
    moreover have "alarm_node_cnt ?t = alarm_node_cnt s + 1" by simp
    ultimately show ?thesis by (intro exI [of _ ?t] conjI) (simp_all only:)
  qed
qed

lemma alarm_insert_loop_front:
  "0 < fuel \<Longrightarrow> \<not> alarm_expiry s c \<le> alarm_expiry s i \<Longrightarrow>
     alarm_insert_loop fuel i c (Some nxt) s =
       Some ((set_next i (Some c) s)\<lparr>alarm_head_p := Some i, alarm_node_cnt := alarm_node_cnt s + 1\<rparr>)"
  by (cases fuel) auto

lemma alarm_insert_list_head:
  assumes "rtc_list s xs" and "i \<notin> set xs" and "i < length (rtc_nodes s)" and "xs \<noteq> []"
    and "\<not> alarm_expiry s (hd xs) \<le> alarm_expiry s i"
  shows "rtc_list ((set_next i (Some (hd xs)) s)\<lparr>alarm_head_p := Some i, alarm_node_cnt := c\<rparr>)
      (alarm_insert_list s i xs)"
  using assms by (cases xs) (auto simp: rtc_list_def alarm_insert_list_def)

lemma alarm_insert_node_list:
  assumes l: "rtc_list s xs" and d: "distinct xs" "length xs \<le> AON_RTC_MAX_ALARM_CNT"
    and i: "i \<notin> set xs" "i < length (rtc_nodes s)" "next_p (node s i) = None"
  shows "if alarm_id s i \<in> alarm_id s ` set xs then alarm_insert_node i s = Some (- 1, s)
    else \<exists>t. alarm_insert_node i s = Some (0, t) \<and> rtc_list t (alarm_insert_list s i xs) \<and>
           relinked s t \<and> alarm_node_cnt t = alarm_node_cnt s + 1"
proof -
  have n: "alarm_has_name AON_RTC_MAX_ALARM_CNT (alarm_name (node s i)) (alarm_head_p s) s =
      Some (\<exists>j \<in> set xs. alarm_id s j = alarm_id s i)"
    using alarm_has_name_list l d(2) by (simp add: rtc_list_def)
  show ?thesis
  proof (cases "\<exists>j \<in> set xs. alarm_id s j = alarm_id s i")
    case True
    then have "alarm_id s i \<in> alarm_id s ` set xs" by (metis image_eqI)
    with True n show ?thesis by (simp add: alarm_insert_node_def)
  next
    case False
    then have nin: "alarm_id s i \<notin> alarm_id s ` set xs" by auto
    have "\<exists>t. alarm_insert_node i s = Some (0, t) \<and> rtc_list t (alarm_insert_list s i xs) \<and>
           relinked s t \<and> alarm_node_cnt t = alarm_node_cnt s + 1"
    proof (cases xs)
      case Nil
      with False n l i show ?thesis
        by (auto simp: alarm_insert_node_def rtc_list_def alarm_insert_list_def)
    next
      case (Cons c rest)
      have h: "alarm_head_p s = Some c" "c < length (rtc_nodes s)"
        and r: "alarm_seg (rtc_nodes s) (next_p (node s c)) rest None"
        using l Cons by (auto simp: rtc_list_def)
      show ?thesis
      proof (cases "alarm_expiry s c \<le> alarm_expiry s i")
        case True
        have "\<exists>t. alarm_insert_loop AON_RTC_MAX_ALARM_CNT i c (next_p (node s c)) s = Some t \<and>
            rtc_list t ([] @ c # alarm_insert_list s i rest) \<and> relinked s t \<and> alarm_node_cnt t = alarm_node_cnt s + 1"
          using h r d i Cons True by (intro alarm_insert_loop_list) auto
        then show ?thesis
          using True False n h Cons
          by (cases "next_p (node s c)") (auto simp: alarm_insert_node_def alarm_insert_list_def)
      next
        case exp: False
        have "rtc_list ((set_next i (Some c) s)\<lparr>alarm_head_p := Some i, alarm_node_cnt := alarm_node_cnt s + 1\<rparr>)
            (alarm_insert_list s i xs)"
          using alarm_insert_list_head [OF l i(1,2)] exp Cons by simp
        then show ?thesis
          using exp False n h Cons
          by (cases "next_p (node s c)") (simp_all add: alarm_insert_node_def alarm_insert_loop_front)
      qed
    qed
    then show ?thesis using nin by simp
  qed
qed

lemma alarm_insert_list_set [simp]: "set (alarm_insert_list s i xs) = insert i (set xs)"
  by (induction xs) (auto simp: alarm_insert_list_def)

lemma alarm_insert_list_length [simp]: "length (alarm_insert_list s i xs) = Suc (length xs)"
  by (induction xs) (auto simp: alarm_insert_list_def)

lemma alarm_insert_list_Cons:
  "alarm_insert_list s i (x # xs) =
     (if alarm_expiry s x \<le> alarm_expiry s i then x # alarm_insert_list s i xs else i # x # xs)"
  by (simp add: alarm_insert_list_def)

lemma alarm_insert_list_distinct:
  "distinct (map f (alarm_insert_list s i xs)) \<longleftrightarrow> distinct (map f (i # xs))"
proof (induction xs)
  case (Cons x xs)
  have "set (map f (alarm_insert_list s i xs)) = insert (f i) (f ` set xs)" by simp
  with Cons show ?case by (auto simp: alarm_insert_list_Cons)
qed (simp add: alarm_insert_list_def)

lemma alarm_insert_list_sorted:
  assumes "sorted (map (alarm_expiry s) xs)"
  shows "sorted (map (alarm_expiry s) (alarm_insert_list s i xs))"
  using assms
proof (induction xs)
  case (Cons x xs)
  then show ?case by (auto simp: alarm_insert_list_Cons)
qed (simp add: alarm_insert_list_def)

section \<open>The pool of nodes\<close>

definition rtc_taken :: "aon_rtc_driver_t \<Rightarrow> nat set" where
  "rtc_taken s = {i. i < AON_RTC_MAX_ALARM_CNT \<and> bit (busy_bits s) i}"

definition rtc_release :: "nat \<Rightarrow> aon_rtc_driver_t \<Rightarrow> aon_rtc_driver_t" where
  "rtc_release i s = (case aon_rtc_release_node i s of Some t \<Rightarrow> t | None \<Rightarrow> s)"

lemma aon_rtc_request_node_cases:
  obtains (full) "aon_rtc_request_node s = (None, s)" "\<forall>i < AON_RTC_MAX_ALARM_CNT. bit (busy_bits s) i"
  | (slot) i t where "aon_rtc_request_node s = (Some i, t)" "i < AON_RTC_MAX_ALARM_CNT" "\<not> bit (busy_bits s) i"
      "t = s\<lparr>busy_bits := busy_bits s OR push_bit i 1\<rparr>"
proof (cases "find (\<lambda>i. busy_bits s AND push_bit i 1 = 0) [0..<AON_RTC_MAX_ALARM_CNT]")
  case None
  then have "aon_rtc_request_node s = (None, s)" by (simp add: aon_rtc_request_node_def)
  moreover from None have "\<forall>i < AON_RTC_MAX_ALARM_CNT. bit (busy_bits s) i"
    by (auto simp: find_None_iff bit_iff_and_push_bit_not_eq_0)
  ultimately show thesis by (rule full)
next
  case (Some i)
  then have "aon_rtc_request_node s = (Some i, s\<lparr>busy_bits := busy_bits s OR push_bit i 1\<rparr>)"
    by (simp add: aon_rtc_request_node_def)
  moreover from Some have "i < AON_RTC_MAX_ALARM_CNT" "\<not> bit (busy_bits s) i"
    by (auto simp: find_Some_iff bit_iff_and_push_bit_not_eq_0 nth_upt)
  ultimately show thesis by (intro slot [OF _ _ _ refl])
qed

interpretation rtc_pool: slot_pool AON_RTC_MAX_ALARM_CNT rtc_taken aon_rtc_request_node rtc_release
proof unfold_locales
  fix s t i
  show "rtc_taken s \<subseteq> {..<AON_RTC_MAX_ALARM_CNT}" by (auto simp: rtc_taken_def)
  show "aon_rtc_request_node s = (None, t) \<Longrightarrow> rtc_taken s = {..<AON_RTC_MAX_ALARM_CNT} \<and> t = s"
    by (cases s rule: aon_rtc_request_node_cases) (auto simp: rtc_taken_def)
  show "aon_rtc_request_node s = (Some i, t) \<Longrightarrow> i \<notin> rtc_taken s \<and> rtc_taken t = insert i (rtc_taken s)"
    by (cases s rule: aon_rtc_request_node_cases) (auto simp: rtc_taken_def bit_or_exp)
  show "i < AON_RTC_MAX_ALARM_CNT \<Longrightarrow> rtc_taken (rtc_release i s) = rtc_taken s - {i}"
    by (auto simp: rtc_taken_def rtc_release_def aon_rtc_release_node_def set_node_def bit_and_not_exp)
qed

section \<open>The invariant\<close>

definition rtc_inv :: "aon_rtc_driver_t \<Rightarrow> nat list \<Rightarrow> bool" where
  "rtc_inv s xs \<longleftrightarrow>
     nodes_p s \<and> length (rtc_nodes s) = AON_RTC_MAX_ALARM_CNT \<and> rtc_list s xs \<and> distinct xs \<and>
     sorted (map (alarm_expiry s) xs) \<and> distinct (map (alarm_id s) xs) \<and>
     alarm_node_cnt s = of_nat (length xs) \<and> (\<forall>i. bit (busy_bits s) i \<longleftrightarrow> i \<in> set xs) \<and>
     (\<forall>i \<in> set xs. period_cnt (node s i) \<noteq> 0)"

lemma rtc_inv_bound: "rtc_inv s xs \<Longrightarrow> i \<in> set xs \<Longrightarrow> i < AON_RTC_MAX_ALARM_CNT"
  using alarm_seg_bound [of "rtc_nodes s" "alarm_head_p s" xs None i] by (simp add: rtc_inv_def rtc_list_def)

lemma rtc_inv_length: "rtc_inv s xs \<Longrightarrow> length xs \<le> AON_RTC_MAX_ALARM_CNT"
proof -
  assume inv: "rtc_inv s xs"
  then have "set xs \<subseteq> {..<AON_RTC_MAX_ALARM_CNT}" using rtc_inv_bound by blast
  then have "card (set xs) \<le> AON_RTC_MAX_ALARM_CNT" using card_mono [OF finite_lessThan] by fastforce
  then show ?thesis using inv by (simp add: rtc_inv_def distinct_card)
qed

lemma rtc_inv_relink:
  assumes "relinked s t" and "rtc_list t ys" and "length (rtc_nodes s) = AON_RTC_MAX_ALARM_CNT" and "nodes_p s"
    and "distinct ys" "sorted (map (alarm_expiry s) ys)" "distinct (map (alarm_id s) ys)"
    and "alarm_node_cnt t = of_nat (length ys)" "\<forall>i. bit (busy_bits s) i \<longleftrightarrow> i \<in> set ys"
    and "\<forall>i \<in> set ys. period_cnt (node s i) \<noteq> 0"
  shows "rtc_inv t ys"
proof -
  have nd: "node_data t = node_data s" using assms(1) by (simp add: relinked_def)
  have len: "length (rtc_nodes t) = AON_RTC_MAX_ALARM_CNT" using node_data_length [OF nd] assms(3) by simp
  have "i < length (rtc_nodes s)" if "i \<in> set ys" for i
    using that alarm_seg_bound assms(2,3) len by (metis rtc_list_def)
  then have e: "map (alarm_expiry t) ys = map (alarm_expiry s) ys" "map (alarm_id t) ys = map (alarm_id s) ys"
    "\<forall>i \<in> set ys. period_cnt (node t i) = period_cnt (node s i)"
    using node_data_fields [OF nd] by simp_all
  have "sorted (map (alarm_expiry t) ys)" "distinct (map (alarm_id t) ys)"
    using assms(6,7) by (simp_all only: e)
  then show ?thesis
    using assms e(3) len by (simp add: rtc_inv_def relinked_def)
qed

lemma rtc_inv_hw [simp]: "rtc_inv (s\<lparr>rtc_hw := h\<rparr>) xs \<longleftrightarrow> rtc_inv s xs"
  by (simp add: rtc_inv_def rtc_list_def)

lemma rtc_inv_head: "rtc_inv s xs \<Longrightarrow> alarm_head_p s = (case xs of [] \<Rightarrow> None | x # _ \<Rightarrow> Some x)"
  by (cases xs) (auto simp: rtc_inv_def rtc_list_def)

text \<open>
  A node that is busy and not on the list: it has just been requested, or has been taken off to be
  put back in another place or released.
\<close>

definition rtc_detached :: "aon_rtc_driver_t \<Rightarrow> nat list \<Rightarrow> nat \<Rightarrow> bool" where
  "rtc_detached s xs i \<longleftrightarrow>
     nodes_p s \<and> length (rtc_nodes s) = AON_RTC_MAX_ALARM_CNT \<and> rtc_list s xs \<and> distinct xs \<and>
     sorted (map (alarm_expiry s) xs) \<and> distinct (map (alarm_id s) xs) \<and>
     alarm_node_cnt s = of_nat (length xs) \<and> (\<forall>j. bit (busy_bits s) j \<longleftrightarrow> j = i \<or> j \<in> set xs) \<and>
     (\<forall>j \<in> set xs. period_cnt (node s j) \<noteq> 0) \<and> i \<notin> set xs \<and> i < AON_RTC_MAX_ALARM_CNT"

lemma rtc_detached_length: "rtc_detached s xs i \<Longrightarrow> length xs < AON_RTC_MAX_ALARM_CNT"
proof -
  assume det: "rtc_detached s xs i"
  have "set (i # xs) \<subseteq> {..<AON_RTC_MAX_ALARM_CNT}"
    using det alarm_seg_bound [of "rtc_nodes s" "alarm_head_p s" xs None]
    by (auto simp: rtc_detached_def rtc_list_def)
  then have "card (set (i # xs)) \<le> AON_RTC_MAX_ALARM_CNT" using card_mono [OF finite_lessThan] by fastforce
  then show ?thesis using det by (simp add: rtc_detached_def distinct_card)
qed

lemma rtc_attach:
  assumes det: "rtc_detached s xs i" and n: "next_p (node s i) = None" "period_cnt (node s i) \<noteq> 0"
  shows "if alarm_id s i \<in> alarm_id s ` set xs then alarm_insert_node i s = Some (- 1, s)
    else \<exists>t. alarm_insert_node i s = Some (0, t) \<and> rtc_inv t (alarm_insert_list s i xs) \<and> relinked s t"
proof -
  have "length xs \<le> AON_RTC_MAX_ALARM_CNT" using rtc_detached_length [OF det] by simp
  then have ins: "if alarm_id s i \<in> alarm_id s ` set xs then alarm_insert_node i s = Some (- 1, s)
    else \<exists>t. alarm_insert_node i s = Some (0, t) \<and> rtc_list t (alarm_insert_list s i xs) \<and>
           relinked s t \<and> alarm_node_cnt t = alarm_node_cnt s + 1"
    using det n(1) by (intro alarm_insert_node_list) (auto simp: rtc_detached_def)
  have "rtc_inv t (alarm_insert_list s i xs)"
    if t: "rtc_list t (alarm_insert_list s i xs)" "relinked s t" "alarm_node_cnt t = alarm_node_cnt s + 1"
      and "alarm_id s i \<notin> alarm_id s ` set xs" for t
    using det n(2) that alarm_insert_list_distinct [of id s i xs]
    by (intro rtc_inv_relink [OF t(2,1)])
      (auto simp: rtc_detached_def alarm_insert_list_sorted alarm_insert_list_distinct add.commute)
  with ins show ?thesis by auto
qed

lemma rtc_drop:
  assumes "rtc_detached s xs i"
  shows "\<exists>t. aon_rtc_release_node i s = Some t \<and> rtc_inv t xs \<and> (\<forall>j. j \<noteq> i \<longrightarrow> node t j = node s j) \<and>
    rtc_hw t = rtc_hw s \<and> rtc_calls t = rtc_calls s \<and> s_high_tick t = s_high_tick s \<and>
    alarm_head_p t = alarm_head_p s"
proof -
  have i: "i \<notin> set xs" "i < AON_RTC_MAX_ALARM_CNT" using assms by (auto simp: rtc_detached_def)
  let ?n = "(node s i)\<lparr>next_p := None, alarm_name := replicate 8 0, period_tick := 0, period_cnt := 0,
             alarm_callback := NULL\<rparr>"
  let ?t = "set_node i ?n (s\<lparr>busy_bits := busy_bits s AND NOT (push_bit i 1)\<rparr>)"
  have o: "node ?t j = node s j" if "j \<noteq> i" for j using that by (simp add: set_node_def)
  then have e: "map (alarm_expiry ?t) xs = map (alarm_expiry s) xs" "map (alarm_id ?t) xs = map (alarm_id s) xs"
    using i(1) by (metis (mono_tags, lifting) map_eq_conv)+
  have "rtc_inv ?t xs"
    unfolding rtc_inv_def e using assms i
    by (auto simp: rtc_detached_def set_node_def rtc_list_def bit_and_not_exp nth_list_update)
  then show ?thesis using i(2) o by (auto simp: aon_rtc_release_node_def set_node_def)
qed

section \<open>Removal\<close>

abbreviation named :: "aon_rtc_driver_t \<Rightarrow> u8 list \<Rightarrow> nat \<Rightarrow> bool" where
  "named s name i \<equiv> alarm_id s i = c_string ALARM_NAME_MAX_LEN name"

lemma unlink_list:
  assumes "alarm_seg (rtc_nodes s) (alarm_head_p s) pre (Some x)" and "x < length (rtc_nodes s)"
    and "alarm_seg (rtc_nodes s) (next_p (node s x)) rest None"
    and "distinct (pre @ x # rest)" and "pre = [] \<longrightarrow> prev = x" and "pre \<noteq> [] \<longrightarrow> prev = last pre"
  shows "rtc_list ((if prev = x then s\<lparr>alarm_head_p := next_p (node s x)\<rparr>
      else set_next prev (next_p (node s x)) s)\<lparr>alarm_node_cnt := c\<rparr>) (pre @ rest)"
proof (cases pre rule: rev_cases)
  case Nil
  with assms show ?thesis by (simp add: rtc_list_def)
next
  case (snoc ys y)
  with assms show ?thesis by (auto simp: rtc_list_def alarm_seg_append)
qed

lemma alarm_remove_loop_list:
  assumes "alarm_seg (rtc_nodes s) (alarm_head_p s) pre cur" and "alarm_seg (rtc_nodes s) cur rest None"
    and "distinct (pre @ rest)" and "pre = [] \<longrightarrow> rest \<noteq> [] \<longrightarrow> prev = hd rest" and "pre \<noteq> [] \<longrightarrow> prev = last pre"
    and "length rest \<le> n"
  shows "case split_first (named s name) rest of
      None \<Rightarrow> alarm_remove_loop n name prev cur s = Some (None, s)
    | Some (a, i, b) \<Rightarrow> \<exists>u. relinked s u \<and> rtc_list u (pre @ a @ b) \<and> alarm_node_cnt u = alarm_node_cnt s - 1 \<and>
        alarm_remove_loop n name prev cur s = map_option (Pair (Some i)) (aon_rtc_release_node i u)"
  using assms
proof (induction rest arbitrary: pre cur prev n)
  case Nil
  then show ?case by (cases n) auto
next
  case (Cons x rest)
  then obtain m where n: "n = Suc m" by (cases n) auto
  have cur: "cur = Some x" "x < length (rtc_nodes s)" "alarm_seg (rtc_nodes s) (next_p (node s x)) rest None"
    using Cons.prems(2) by auto
  show ?case
  proof (cases "named s name x")
    case True
    let ?u = "(if prev = x then s\<lparr>alarm_head_p := next_p (node s x)\<rparr>
      else set_next prev (next_p (node s x)) s)\<lparr>alarm_node_cnt := alarm_node_cnt s - 1\<rparr>"
    have "rtc_list ?u (pre @ rest)"
      using Cons.prems cur by (intro unlink_list) auto
    moreover have "relinked s ?u" by simp
    moreover have "alarm_remove_loop n name prev cur s = map_option (Pair (Some x)) (aon_rtc_release_node x ?u)"
      using True n cur(1) by (simp add: strncmp_eq_iff Let_def)
    moreover have "alarm_node_cnt ?u = alarm_node_cnt s - 1" by simp
    ultimately have "\<exists>u. relinked s u \<and> rtc_list u (pre @ rest) \<and> alarm_node_cnt u = alarm_node_cnt s - 1 \<and>
        alarm_remove_loop n name prev cur s = map_option (Pair (Some x)) (aon_rtc_release_node x u)"
      by (intro exI [of _ ?u]) blast
    then show ?thesis using True by simp
  next
    case False
    have "case split_first (named s name) rest of
      None \<Rightarrow> alarm_remove_loop m name x (next_p (node s x)) s = Some (None, s)
    | Some (a, i, b) \<Rightarrow> \<exists>u. relinked s u \<and> rtc_list u ((pre @ [x]) @ a @ b) \<and>
        alarm_node_cnt u = alarm_node_cnt s - 1 \<and>
        alarm_remove_loop m name x (next_p (node s x)) s = map_option (Pair (Some i)) (aon_rtc_release_node i u)"
      using Cons.prems cur n by (intro Cons.IH) (auto simp: alarm_seg_append)
    moreover have "alarm_remove_loop n name prev cur s = alarm_remove_loop m name x (next_p (node s x)) s"
      using False n cur(1) by (simp add: strncmp_eq_iff)
    ultimately show ?thesis using False by (auto split: option.splits)
  qed
qed

lemma rtc_detached_relink:
  assumes inv: "rtc_inv s (a @ i # b)" and u: "relinked s u" "rtc_list u (a @ b)"
    "alarm_node_cnt u = alarm_node_cnt s - 1"
  shows "rtc_detached u (a @ b) i"
proof -
  have nd: "node_data u = node_data s" using u(1) by (simp add: relinked_def)
  have len: "length (rtc_nodes u) = length (rtc_nodes s)" by (rule node_data_length [OF nd])
  have lt: "j < length (rtc_nodes s)" if "j \<in> set (a @ b)" for j
    using that alarm_seg_bound u(2) len by (metis rtc_list_def)
  have e: "map (alarm_expiry u) (a @ b) = map (alarm_expiry s) (a @ b)"
    "map (alarm_id u) (a @ b) = map (alarm_id s) (a @ b)"
    "\<forall>j \<in> set (a @ b). period_cnt (node u j) = period_cnt (node s j)"
    using node_data_fields [OF nd lt] by (simp_all only: map_eq_conv) auto
  have "sorted (map (alarm_expiry s) (a @ b))" "distinct (map (alarm_id s) (a @ b))"
    using inv by (auto simp: rtc_inv_def sorted_append)
  then have "sorted (map (alarm_expiry u) (a @ b))" "distinct (map (alarm_id u) (a @ b))"
    by (simp_all only: e)
  then show ?thesis
    using inv u len e(3) rtc_inv_bound [OF inv, of i] unfolding rtc_detached_def
    by (auto simp: rtc_inv_def relinked_def)
qed

lemma alarm_remove_node_ok:
  assumes inv: "rtc_inv s xs"
  shows "case split_first (named s name) xs of
      None \<Rightarrow> alarm_remove_node name s = Some (None, s)
    | Some (a, i, b) \<Rightarrow> \<exists>t. alarm_remove_node name s = Some (Some i, t) \<and> rtc_inv t (a @ b) \<and>
        (\<forall>j < AON_RTC_MAX_ALARM_CNT. j \<noteq> i \<longrightarrow> (node t j)\<lparr>next_p := None\<rparr> = (node s j)\<lparr>next_p := None\<rparr>) \<and>
        rtc_hw t = rtc_hw s \<and> rtc_calls t = rtc_calls s \<and> s_high_tick t = s_high_tick s"
proof -
  have l: "rtc_list s xs" and d: "distinct xs" and len: "length xs \<le> AON_RTC_MAX_ALARM_CNT"
    using inv rtc_inv_length by (auto simp: rtc_inv_def)
  show ?thesis
  proof (cases xs)
    case Nil
    then show ?thesis using l by (simp add: alarm_remove_node_def rtc_list_def)
  next
    case (Cons x rest)
    have loop: "alarm_remove_node name s = alarm_remove_loop AON_RTC_MAX_ALARM_CNT name x (alarm_head_p s) s"
      using l Cons by (simp add: alarm_remove_node_def rtc_list_def)
    have main: "case split_first (named s name) xs of
      None \<Rightarrow> alarm_remove_node name s = Some (None, s)
    | Some (a, i, b) \<Rightarrow> \<exists>u. relinked s u \<and> rtc_list u ([] @ a @ b) \<and> alarm_node_cnt u = alarm_node_cnt s - 1 \<and>
        alarm_remove_node name s = map_option (Pair (Some i)) (aon_rtc_release_node i u)"
      unfolding loop using l d len Cons by (intro alarm_remove_loop_list) (auto simp: rtc_list_def)
    show ?thesis
    proof (cases "split_first (named s name) xs")
      case None
      then show ?thesis using main by simp
    next
      case (Some r)
      obtain a i b where r: "r = (a, i, b)" by (cases r)
      with main Some obtain u where u: "relinked s u" "rtc_list u (a @ b)" "alarm_node_cnt u = alarm_node_cnt s - 1"
        "alarm_remove_node name s = map_option (Pair (Some i)) (aon_rtc_release_node i u)" by auto
      have xs: "xs = a @ i # b" using split_first_SomeD Some r by metis
      obtain t where t: "aon_rtc_release_node i u = Some t" "rtc_inv t (a @ b)" "\<forall>j. j \<noteq> i \<longrightarrow> node t j = node u j"
        "rtc_hw t = rtc_hw u" "rtc_calls t = rtc_calls u" "s_high_tick t = s_high_tick u"
        using rtc_drop [OF rtc_detached_relink [OF inv [unfolded xs] u(1-3)]] by blast
      have nd: "node_data u = node_data s" using u(1) by (simp add: relinked_def)
      have "(node u j)\<lparr>next_p := None\<rparr> = (node s j)\<lparr>next_p := None\<rparr>" if "j < AON_RTC_MAX_ALARM_CNT" for j
        using arg_cong [OF nd, of "\<lambda>ns. ns ! j"] that node_data_length [OF nd] inv
        by (simp add: node_data_def rtc_inv_def)
      with t u Some r show ?thesis by (auto simp: relinked_def)
    qed
  qed
qed

section \<open>Expiry of alarms\<close>

text \<open>What the driver takes for the time at the k-th read of a hardware register.\<close>

definition rtc_tick :: "aon_rtc_driver_t \<Rightarrow> nat \<Rightarrow> u64" where
  "rtc_tick s k = push_bit 32 (s_high_tick s) + ucast (counter_at (rtc_hw s) k)"

abbreviation rtc_now :: "aon_rtc_driver_t \<Rightarrow> nat" where
  "rtc_now s \<equiv> hw_now (rtc_hw s)"

definition rtc_read :: "aon_rtc_driver_t \<Rightarrow> aon_rtc_driver_t" where
  "rtc_read s = s\<lparr>rtc_hw := (rtc_hw s)\<lparr>hw_now := rtc_now s + 1\<rparr>\<rparr>"

lemma current_tick_eq: "bk_aon_rtc_get_current_tick 0 s = (rtc_tick s (rtc_now s), rtc_read s)"
  by (simp add: bk_aon_rtc_get_current_tick_def aon_rtc_hal_get_counter_val_def aon_rtc_ll_get_counter_val_def
      rtc_tick_def rtc_read_def)

lemma rtc_read_simps [simp]:
  "rtc_nodes (rtc_read s) = rtc_nodes s" "alarm_head_p (rtc_read s) = alarm_head_p s"
  "alarm_node_cnt (rtc_read s) = alarm_node_cnt s" "busy_bits (rtc_read s) = busy_bits s"
  "nodes_p (rtc_read s) = nodes_p s" "rtc_calls (rtc_read s) = rtc_calls s" "s_high_tick (rtc_read s) = s_high_tick s"
  "rtc_now (rtc_read s) = Suc (rtc_now s)" "rtc_tick (rtc_read s) = rtc_tick s"
  "rtc_inv (rtc_read s) xs = rtc_inv s xs" "ctrl_v (rtc_hw (rtc_read s)) = ctrl_v (rtc_hw s)"
  "tick_val (rtc_hw (rtc_read s)) = tick_val (rtc_hw s)" "upper_isr (rtc_read s) = upper_isr s"
  by (simp_all add: rtc_read_def rtc_tick_def fun_eq_iff)

text \<open>The record of one run of an alarm's callback.\<close>

definition alarm_call :: "alarm_node_t \<Rightarrow> (addr \<times> u8 list \<times> addr) list" where
  "alarm_call n = (if alarm_callback n \<noteq> NULL then [(alarm_callback n, alarm_name n, cb_param_p n)] else [])"

text \<open>The node after it has expired, if it stays.\<close>

definition alarm_next_period :: "alarm_node_t \<Rightarrow> alarm_node_t" where
  "alarm_next_period n =
     (if period_cnt n = ALARM_LOOP_FOREVER then n else n\<lparr>period_cnt := period_cnt n - 1\<rparr>)
       \<lparr>expired_tick := expired_tick n + ucast (period_tick n)\<rparr>"

definition leaves_driver_alone :: "rtc_callbacks \<Rightarrow> bool" where
  "leaves_driver_alone cb \<longleftrightarrow> (\<forall>f name p s. cb f name p s = s)"

definition rtc_ran :: "nat \<Rightarrow> aon_rtc_driver_t \<Rightarrow> aon_rtc_driver_t" where
  "rtc_ran x s = (rtc_read s)\<lparr>rtc_calls := rtc_calls s @ alarm_call (node s x)\<rparr>"

lemma run_alarm_callback_passive:
  "leaves_driver_alone cb \<Longrightarrow> run_alarm_callback cb x (rtc_read s) = rtc_ran x s"
  by (simp add: run_alarm_callback_def rtc_ran_def leaves_driver_alone_def alarm_call_def Let_def)

lemma rtc_ran_simps [simp]:
  "rtc_nodes (rtc_ran x s) = rtc_nodes s" "alarm_head_p (rtc_ran x s) = alarm_head_p s"
  "alarm_node_cnt (rtc_ran x s) = alarm_node_cnt s" "busy_bits (rtc_ran x s) = busy_bits s"
  "nodes_p (rtc_ran x s) = nodes_p s" "rtc_calls (rtc_ran x s) = rtc_calls s @ alarm_call (node s x)"
  "s_high_tick (rtc_ran x s) = s_high_tick s" "rtc_hw (rtc_ran x s) = rtc_hw (rtc_read s)"
  by (simp_all add: rtc_ran_def)

text \<open>
  One turn of the loop on an alarm that is due, with callbacks that leave the driver alone: the
  last period releases the node, another period takes the node off the list and puts it back at its
  new place, or just moves the expiry of a node that is alone.
\<close>

lemma alarm_update_turn:
  assumes cb: "leaves_driver_alone cb" and due: "alarm_expiry s x \<le> rtc_tick s (rtc_now s) + of_nat AON_RTC_PRECISION_TICK"
    and x: "x < length (rtc_nodes s)"
  shows "period_cnt (node s x) = 1 \<Longrightarrow> alarm_update_loop cb (Suc n) (Some x) s =
      Option.bind (aon_rtc_release_node x ((set_node x ((node s x)\<lparr>period_cnt := 0\<rparr>) (rtc_ran x s))
          \<lparr>alarm_head_p := next_p (node s x), alarm_node_cnt := alarm_node_cnt s - 1\<rparr>))
        (alarm_update_loop cb n (next_p (node s x)))"
    and "period_cnt (node s x) \<noteq> 1 \<Longrightarrow> next_p (node s x) \<noteq> None \<Longrightarrow> alarm_update_loop cb (Suc n) (Some x) s =
      Option.bind (alarm_insert_node x ((set_node x ((alarm_next_period (node s x))\<lparr>next_p := None\<rparr>)
          ((rtc_ran x s)\<lparr>alarm_head_p := next_p (node s x)\<rparr>))\<lparr>alarm_node_cnt := alarm_node_cnt s - 1\<rparr>))
        (\<lambda>(ret, s'). if ret \<noteq> 0 then Some s' else alarm_update_loop cb n (next_p (node s x)) s')"
    and "period_cnt (node s x) \<noteq> 1 \<Longrightarrow> next_p (node s x) = None \<Longrightarrow> alarm_update_loop cb (Suc n) (Some x) s =
      Some (set_node x (alarm_next_period (node s x)) (rtc_ran x s))"
  using due x
  by (auto simp: current_tick_eq run_alarm_callback_passive [OF cb] Let_def set_node_def
      alarm_next_period_def split: prod.splits intro!: arg_cong2 [where f = Option.bind])

text \<open>A node without its place in the list.\<close>

abbreviation alarm_data :: "alarm_node_t \<Rightarrow> alarm_node_t" where
  "alarm_data n \<equiv> n\<lparr>next_p := None\<rparr>"

lemma alarm_data_fields:
  assumes "alarm_data a = alarm_data b"
  shows "expired_tick a = expired_tick b"
    "alarm_name a = alarm_name b"
    "period_tick a = period_tick b"
    "period_cnt a = period_cnt b"
    "alarm_callback a = alarm_callback b"
    "cb_param_p a = cb_param_p b"
    "start_tick a = start_tick b"
  using arg_cong [OF assms, of expired_tick] arg_cong [OF assms, of alarm_name] arg_cong [OF assms, of period_tick] arg_cong [OF assms, of period_cnt] arg_cong [OF assms, of alarm_callback] arg_cong [OF assms, of cb_param_p] arg_cong [OF assms, of start_tick] by simp_all

lemma relinked_data:
  "relinked s t \<Longrightarrow> i < length (rtc_nodes s) \<Longrightarrow> alarm_data (node t i) = alarm_data (node s i)"
proof -
  assume "relinked s t" and i: "i < length (rtc_nodes s)"
  then have nd: "node_data t = node_data s" by (simp add: relinked_def)
  show ?thesis
    using arg_cong [OF nd, of "\<lambda>ns. ns ! i"] i node_data_length [OF nd] by (simp add: node_data_def)
qed

lemma alarm_insert_list_cong:
  assumes "\<forall>j \<in> insert i (set xs). alarm_expiry t j = alarm_expiry s j"
  shows "alarm_insert_list t i xs = alarm_insert_list s i xs"
  using assms by (induction xs) (auto simp: alarm_insert_list_Cons alarm_insert_list_def)

text \<open>Taking the first alarm off the list and rewriting its node.\<close>

lemma rtc_detach_head:
  assumes inv: "rtc_inv s (x # rest)"
    and u: "rtc_nodes u = (rtc_nodes s)[x := n]" "alarm_head_p u = next_p (node s x)"
      "alarm_node_cnt u = alarm_node_cnt s - 1" "busy_bits u = busy_bits s" "nodes_p u = nodes_p s"
  shows "rtc_detached u rest x"
proof -
  have x: "x \<notin> set rest" "x < AON_RTC_MAX_ALARM_CNT" using inv rtc_inv_bound [OF inv, of x] by (auto simp: rtc_inv_def)
  have "rtc_list u rest" using inv u x by (simp add: rtc_inv_def rtc_list_def)
  moreover have o: "node u j = node s j" if "j \<in> set rest" for j
    using that x u(1) by (metis nth_list_update_neq)
  then have e: "map (alarm_expiry u) rest = map (alarm_expiry s) rest" "map (alarm_id u) rest = map (alarm_id s) rest"
    by simp_all
  moreover have "sorted (map (alarm_expiry u) rest)" "distinct (map (alarm_id u) rest)"
    unfolding e using inv by (simp_all add: rtc_inv_def)
  ultimately show ?thesis
    using inv u x o unfolding rtc_detached_def by (simp add: rtc_inv_def)
qed

lemma alarm_turn:
  assumes inv: "rtc_inv s (x # rest)" and cb: "leaves_driver_alone cb"
    and due: "alarm_expiry s x \<le> rtc_tick s (rtc_now s) + of_nat AON_RTC_PRECISION_TICK"
  shows "\<exists>t. alarm_update_loop cb (Suc n) (Some x) s = alarm_update_loop cb n (next_p (node s x)) t \<and>
    rtc_inv t (if period_cnt (node s x) = 1 then rest else alarm_insert_list t x rest) \<and>
    (\<forall>j \<in> set rest. alarm_data (node t j) = alarm_data (node s j)) \<and>
    (period_cnt (node s x) \<noteq> 1 \<longrightarrow> alarm_data (node t x) = alarm_data (alarm_next_period (node s x))) \<and>
    rtc_calls t = rtc_calls s @ alarm_call (node s x) \<and> rtc_hw t = rtc_hw (rtc_read s) \<and>
    s_high_tick t = s_high_tick s"
proof -
  have x: "x \<notin> set rest" "x < length (rtc_nodes s)" "period_cnt (node s x) \<noteq> 0"
    using inv rtc_inv_bound [OF inv, of x] by (auto simp: rtc_inv_def)
  have rest: "j < length (rtc_nodes s)" "j \<noteq> x" if "j \<in> set rest" for j
    using that inv rtc_inv_bound [OF inv, of j] x by (auto simp: rtc_inv_def)
  show ?thesis
  proof (cases "period_cnt (node s x) = 1")
    case True
    let ?u = "(set_node x ((node s x)\<lparr>period_cnt := 0\<rparr>) (rtc_ran x s))
          \<lparr>alarm_head_p := next_p (node s x), alarm_node_cnt := alarm_node_cnt s - 1\<rparr>"
    have "rtc_detached ?u rest x" by (rule rtc_detach_head [OF inv]) (simp_all add: set_node_def)
    from rtc_drop [OF this] obtain t where t: "aon_rtc_release_node x ?u = Some t" "rtc_inv t rest"
      "\<forall>j. j \<noteq> x \<longrightarrow> node t j = node ?u j" "rtc_hw t = rtc_hw ?u" "rtc_calls t = rtc_calls ?u"
      "s_high_tick t = s_high_tick ?u" by blast
    show ?thesis
      using t True rest alarm_update_turn(1) [OF cb due x(2) True, of n]
      by (intro exI [of _ t]) (auto simp: set_node_def)
  next
    case False
    show ?thesis
    proof (cases rest)
      case Nil
      then have nx: "next_p (node s x) = None" using inv by (simp add: rtc_inv_def rtc_list_def)
      let ?t = "set_node x (alarm_next_period (node s x)) (rtc_ran x s)"
      have "rtc_inv ?t [x]"
        using inv Nil x False
        by (auto simp: rtc_inv_def rtc_list_def set_node_def alarm_next_period_def)
      then show ?thesis
        using Nil False nx x alarm_update_turn(3) [OF cb due x(2) False nx, of n]
        by (intro exI [of _ ?t]) (simp add: set_node_def alarm_insert_list_def)
    next
      case (Cons y ys)
      then have nx: "next_p (node s x) \<noteq> None" using inv by (simp add: rtc_inv_def rtc_list_def)
      let ?u = "(set_node x ((alarm_next_period (node s x))\<lparr>next_p := None\<rparr>)
          ((rtc_ran x s)\<lparr>alarm_head_p := next_p (node s x)\<rparr>))\<lparr>alarm_node_cnt := alarm_node_cnt s - 1\<rparr>"
      have det: "rtc_detached ?u rest x" by (rule rtc_detach_head [OF inv]) (simp_all add: set_node_def)
      have ux: "node ?u x = alarm_data (alarm_next_period (node s x))" using x by (simp add: set_node_def)
      have uo: "node ?u j = node s j" if "j \<in> set rest" for j
        using rest(2) [OF that] by (simp add: set_node_def not_sym)
      have "alarm_id ?u x \<notin> alarm_id ?u ` set rest"
        using inv ux uo by (auto simp: rtc_inv_def alarm_next_period_def)
      moreover have "next_p (node ?u x) = None" "period_cnt (node ?u x) \<noteq> 0"
        using ux x False by (auto simp: alarm_next_period_def)
      ultimately obtain t where t: "alarm_insert_node x ?u = Some (0, t)" "rtc_inv t (alarm_insert_list ?u x rest)"
        "relinked ?u t"
        using rtc_attach [OF det] by auto
      have len: "length (rtc_nodes ?u) = length (rtc_nodes s)" by (simp add: set_node_def)
      have dx: "alarm_data (node t x) = alarm_data (alarm_next_period (node s x))"
        using relinked_data [OF t(3), of x] x len ux by simp
      have dr: "alarm_data (node t j) = alarm_data (node s j)" if "j \<in> set rest" for j
        using relinked_data [OF t(3), of j] rest [OF that] len uo [OF that] by simp
      have "alarm_insert_list t x rest = alarm_insert_list ?u x rest"
        using relinked_data [OF t(3)] x rest len by (intro alarm_insert_list_cong) (auto dest!: alarm_data_fields(1))
      with t dx dr False alarm_update_turn(2) [OF cb due x(2) False nx, of n] show ?thesis
        by (intro exI [of _ t]) (auto simp: relinked_def set_node_def)
    qed
  qed
qed

text \<open>
  The outcome of a pass over the list \<^verbatim>\<open>zs\<close>: the first \<^verbatim>\<open>m\<close> alarms have run their callbacks
  and either left or moved on by one period, the others are as they were, and the list
  \<^verbatim>\<open>zs'\<close> of the result is in order.
\<close>

definition alarm_pass ::
  "nat \<Rightarrow> aon_rtc_driver_t \<Rightarrow> nat list \<Rightarrow> nat \<Rightarrow> aon_rtc_driver_t \<Rightarrow> nat list \<Rightarrow> bool" where
  "alarm_pass D s zs m t zs' \<longleftrightarrow>
     rtc_inv t zs' \<and> m \<le> length zs \<and> (\<forall>i \<in> set (take m zs). unat (alarm_expiry s i) \<le> D) \<and>
     set zs' = {i \<in> set (take m zs). period_cnt (node s i) \<noteq> 1} \<union> set (drop m zs) \<and>
     (\<forall>i \<in> set (take m zs). period_cnt (node s i) \<noteq> 1 \<longrightarrow>
        alarm_data (node t i) = alarm_data (alarm_next_period (node s i))) \<and>
     (\<forall>i \<in> set (drop m zs). alarm_data (node t i) = alarm_data (node s i)) \<and>
     rtc_calls t = rtc_calls s @ concat (map (\<lambda>i. alarm_call (node s i)) (take m zs)) \<and>
     s_high_tick t = s_high_tick s"

text \<open>
  The conditions of a pass in good time, for a bound \<^verbatim>\<open>D\<close>: no read of the clock during the pass
  comes within the precision of passing \<^verbatim>\<open>D\<close>, and an alarm that may run in the pass has its next
  expiry after \<^verbatim>\<open>D\<close>, so that no alarm is due twice.
\<close>

definition ticks_within :: "nat \<Rightarrow> nat \<Rightarrow> aon_rtc_driver_t \<Rightarrow> bool" where
  "ticks_within D n s \<longleftrightarrow> D < 2 ^ 64 \<and>
     (\<forall>k. rtc_now s \<le> k \<and> k < rtc_now s + n \<longrightarrow> unat (rtc_tick s k) + AON_RTC_PRECISION_TICK \<le> D)"

definition due_once :: "nat \<Rightarrow> alarm_node_t \<Rightarrow> bool" where
  "due_once D n \<longleftrightarrow> unat (expired_tick n) \<le> D \<longrightarrow>
     D < unat (expired_tick n) + unat (period_tick n) \<and> unat (expired_tick n) + unat (period_tick n) < 2 ^ 64"

lemma due_iff:
  assumes "ticks_within D (Suc n) s"
  shows "e \<le> rtc_tick s (rtc_now s) + of_nat AON_RTC_PRECISION_TICK \<longleftrightarrow>
    unat e \<le> unat (rtc_tick s (rtc_now s)) + AON_RTC_PRECISION_TICK"
proof -
  have "unat (rtc_tick s (rtc_now s)) + AON_RTC_PRECISION_TICK < 2 ^ 64"
    using assms by (auto simp: ticks_within_def)
  then have "unat (rtc_tick s (rtc_now s) + 32) = unat (rtc_tick s (rtc_now s)) + 32"
    by (subst unat_add_lem [THEN iffD1]) auto
  then show ?thesis by (simp add: word_le_nat_alt)
qed

lemma ticks_within_next:
  "ticks_within D (Suc n) s \<Longrightarrow> rtc_hw t = rtc_hw (rtc_read s) \<Longrightarrow> s_high_tick t = s_high_tick s \<Longrightarrow>
     ticks_within D n t \<and> rtc_tick t = rtc_tick s"
  by (auto simp: ticks_within_def rtc_tick_def rtc_read_def)

lemma alarm_next_period_late:
  assumes "due_once D n" and "unat (expired_tick n) \<le> D"
  shows "D < unat (expired_tick (alarm_next_period n))" and "due_once D (alarm_next_period n)"
proof -
  have "unat (expired_tick n + ucast (period_tick n)) = unat (expired_tick n) + unat (period_tick n)"
  proof -
    have p: "unat (ucast (period_tick n) :: u64) = unat (period_tick n)"
      using unsigned_less [of "period_tick n", where ?'a = nat] by (simp add: unsigned_ucast_eq take_bit_nat_eq_self)
    have "unat (expired_tick n) + unat (ucast (period_tick n) :: u64) < 2 ^ LENGTH(64)"
      using assms by (simp add: p due_once_def)
    then show ?thesis using p by (simp add: unat_add_lem [THEN iffD1])
  qed
  then show "D < unat (expired_tick (alarm_next_period n))"
    using assms by (simp add: alarm_next_period_def due_once_def)
  then show "due_once D (alarm_next_period n)" by (simp add: due_once_def)
qed

lemma due_once_cong: "alarm_data a = alarm_data b \<Longrightarrow> due_once D a = due_once D b"
  using alarm_data_fields(1,3) [of a b] by (simp add: due_once_def)

text \<open>Alarms up to the bound stand in front of one that is put behind it.\<close>

lemma alarm_insert_list_take:
  assumes "\<forall>j \<in> set (take m (alarm_insert_list t x rest)). j \<noteq> x"
  shows "take m (alarm_insert_list t x rest) = take m rest"
    and "set (drop m (alarm_insert_list t x rest)) = insert x (set (drop m rest))"
proof -
  define a where "a = takeWhile (\<lambda>j. alarm_expiry t j \<le> alarm_expiry t x) rest"
  define b where "b = dropWhile (\<lambda>j. alarm_expiry t j \<le> alarm_expiry t x) rest"
  have ins: "alarm_insert_list t x rest = a @ x # b" unfolding alarm_insert_list_def a_def b_def by (rule refl)
  have r: "a @ b = rest" unfolding a_def b_def by (rule takeWhile_dropWhile_id)
  have "m \<le> length a"
  proof (rule ccontr)
    assume "\<not> m \<le> length a"
    then have "x \<in> set (take m (a @ x # b))" by (simp add: take_Cons')
    then show False using assms unfolding ins by auto
  qed
  then show "take m (alarm_insert_list t x rest) = take m rest"
    and "set (drop m (alarm_insert_list t x rest)) = insert x (set (drop m rest))"
    unfolding ins by (simp_all add: r [symmetric])
qed

lemma alarm_pass_refl: "rtc_inv t zs \<Longrightarrow> rtc_nodes t = rtc_nodes s \<Longrightarrow> rtc_calls t = rtc_calls s \<Longrightarrow>
    s_high_tick t = s_high_tick s \<Longrightarrow> alarm_pass D s zs 0 t zs"
  by (simp add: alarm_pass_def)

lemma alarm_data_next_period: "alarm_data (alarm_next_period n) = alarm_next_period (alarm_data n)"
  by (simp add: alarm_next_period_def)

lemma alarm_pass_Cons:
  assumes pass: "alarm_pass D t zs1 m u zs'"
    and zs1: "zs1 = (if period_cnt (node s x) = 1 then rest else alarm_insert_list t x rest)"
    and same: "\<forall>j \<in> set rest. alarm_data (node t j) = alarm_data (node s j)"
    and moved: "period_cnt (node s x) \<noteq> 1 \<longrightarrow> alarm_data (node t x) = alarm_data (alarm_next_period (node s x))"
    and calls: "rtc_calls t = rtc_calls s @ alarm_call (node s x)" and high: "s_high_tick t = s_high_tick s"
    and x: "x \<notin> set rest" "unat (alarm_expiry s x) \<le> D" "due_once D (node s x)"
  shows "alarm_pass D s (x # rest) (Suc m) u zs'"
proof -
  have late: "D < unat (alarm_expiry t x)" if "period_cnt (node s x) \<noteq> 1"
    using alarm_data_fields(1) [of "node t x"] moved that alarm_next_period_late(1) [OF x(3,2)] by auto
  have nx: "j \<noteq> x" if "j \<in> set (take m zs1)" for j
  proof
    assume "j = x"
    then have "unat (alarm_expiry t x) \<le> D" using pass that by (simp add: alarm_pass_def)
    moreover have "period_cnt (node s x) \<noteq> 1"
      using that \<open>j = x\<close> x(1) zs1 by (auto dest: in_set_takeD)
    ultimately show False using late by simp
  qed
  have tk: "take m zs1 = take m rest"
    and dr: "set (drop m zs1) = (if period_cnt (node s x) = 1 then {} else {x}) \<union> set (drop m rest)"
    using alarm_insert_list_take [of m t x rest] nx zs1 by (auto split: if_splits)
  have len: "m \<le> length rest"
    using arg_cong [OF tk, of length] pass by (simp add: alarm_pass_def)
  have f: "period_cnt (node t j) = period_cnt (node s j)" "alarm_expiry t j = alarm_expiry s j"
    "alarm_call (node t j) = alarm_call (node s j)" "alarm_data (node t j) = alarm_data (node s j)"
    "alarm_data (alarm_next_period (node t j)) = alarm_data (alarm_next_period (node s j))"
    if "j \<in> set rest" for j
  proof -
    have d: "alarm_data (node t j) = alarm_data (node s j)" using same that by blast
    note fl = alarm_data_fields [OF d]
    show "period_cnt (node t j) = period_cnt (node s j)" "alarm_expiry t j = alarm_expiry s j"
      "alarm_data (node t j) = alarm_data (node s j)" "alarm_call (node t j) = alarm_call (node s j)"
      using fl d by (simp_all add: alarm_call_def)
    show "alarm_data (alarm_next_period (node t j)) = alarm_data (alarm_next_period (node s j))"
      by (simp only: alarm_data_next_period d)
  qed
  have mem: "j \<in> set rest" if "j \<in> set (take m rest)" for j using that by (rule in_set_takeD)
  have calls': "concat (map (\<lambda>i. alarm_call (node t i)) (take m rest)) = concat (map (\<lambda>i. alarm_call (node s i)) (take m rest))"
    using f(3) mem by (intro arg_cong [where f = concat] map_cong) auto
  have kept: "set zs' = {i \<in> set (x # take m rest). period_cnt (node s i) \<noteq> 1} \<union> set (drop m rest)"
    using pass f(1) mem unfolding alarm_pass_def tk dr by auto
  have new: "\<forall>i \<in> set (take m rest). period_cnt (node s i) \<noteq> 1 \<longrightarrow>
      alarm_data (node u i) = alarm_data (alarm_next_period (node s i))"
    using pass f(1,5) mem unfolding alarm_pass_def tk by simp
  have new_x: "period_cnt (node s x) \<noteq> 1 \<longrightarrow> alarm_data (node u x) = alarm_data (alarm_next_period (node s x))"
    using pass dr moved unfolding alarm_pass_def by auto
  have old: "\<forall>i \<in> set (drop m rest). alarm_data (node u i) = alarm_data (node s i)"
    using pass f(4) unfolding alarm_pass_def dr by (auto dest: in_set_dropD)
  have due: "\<forall>i \<in> set (take m rest). unat (alarm_expiry s i) \<le> D"
    using pass f(2) mem unfolding alarm_pass_def tk by simp
  have c: "rtc_calls u = rtc_calls s @ alarm_call (node s x) @ concat (map (\<lambda>i. alarm_call (node s i)) (take m rest))"
    and "rtc_inv u zs'" "s_high_tick u = s_high_tick s"
    using pass calls calls' high by (simp_all add: alarm_pass_def tk)
  then show ?thesis
    using len x(2) kept new new_x old due by (simp add: alarm_pass_def)
qed

lemma alarm_insert_list_filter:
  "length (filter P (alarm_insert_list t x rest)) = length (filter P (x # rest))"
proof -
  define a where "a = takeWhile (\<lambda>j. alarm_expiry t j \<le> alarm_expiry t x) rest"
  define b where "b = dropWhile (\<lambda>j. alarm_expiry t j \<le> alarm_expiry t x) rest"
  have "alarm_insert_list t x rest = a @ x # b" unfolding alarm_insert_list_def a_def b_def by (rule refl)
  moreover have "a @ b = rest" unfolding a_def b_def by (rule takeWhile_dropWhile_id)
  ultimately show ?thesis by (metis (no_types) add_Suc_right filter.simps(2) filter_append length_Cons length_append)
qed

text \<open>The list after the first alarm has run, and where the loop goes on.\<close>

lemma alarm_turn_next:
  assumes inv: "rtc_inv s (x # rest)"
    and t: "rtc_inv t zs1" "zs1 = (if period_cnt (node s x) = 1 then rest else alarm_insert_list t x rest)"
      "\<forall>j \<in> set rest. alarm_data (node t j) = alarm_data (node s j)"
      "period_cnt (node s x) \<noteq> 1 \<longrightarrow> alarm_data (node t x) = alarm_data (alarm_next_period (node s x))"
    and once: "\<forall>i \<in> set (x # rest). due_once D (node s i)" and x: "unat (alarm_expiry s x) \<le> D"
  shows "length (filter (\<lambda>i. unat (alarm_expiry t i) \<le> D) zs1) = length (filter (\<lambda>i. unat (alarm_expiry s i) \<le> D) rest)"
    and "\<forall>i \<in> set zs1. due_once D (node t i)"
    and "next_p (node s x) = alarm_head_p t \<or>
      (\<forall>i \<in> set zs1. D < unat (alarm_expiry t i)) \<and> (next_p (node s x) = None \<or> next_p (node s x) \<in> Some ` set zs1)"
proof -
  have e: "alarm_expiry t j = alarm_expiry s j" "due_once D (node t j)" if "j \<in> set rest" for j
    using t(3) that alarm_data_fields(1) due_once_cong once by (metis list.set_intros(2))+
  have lx: "D < unat (alarm_expiry t x) \<and> due_once D (node t x)" if "period_cnt (node s x) \<noteq> 1"
  proof -
    have d: "alarm_data (node t x) = alarm_data (alarm_next_period (node s x))" using t(4) that by blast
    have "due_once D (node s x)" using once by simp
    from alarm_next_period_late [OF this x] show ?thesis
      using alarm_data_fields(1) [OF d] due_once_cong [OF d] by simp
  qed
  have "filter (\<lambda>i. unat (alarm_expiry t i) \<le> D) rest = filter (\<lambda>i. unat (alarm_expiry s i) \<le> D) rest"
    using e(1) by (intro filter_cong) auto
  then show "length (filter (\<lambda>i. unat (alarm_expiry t i) \<le> D) zs1) = length (filter (\<lambda>i. unat (alarm_expiry s i) \<le> D) rest)"
    using lx unfolding t(2) by (cases "period_cnt (node s x) = 1") (auto simp: alarm_insert_list_filter)
  show "\<forall>i \<in> set zs1. due_once D (node t i)"
    using e(2) lx unfolding t(2) by auto
  have nx: "next_p (node s x) = (case rest of [] \<Rightarrow> None | y # _ \<Rightarrow> Some y)"
    using inv by (cases rest) (auto simp: rtc_inv_def rtc_list_def)
  show "next_p (node s x) = alarm_head_p t \<or>
      (\<forall>i \<in> set zs1. D < unat (alarm_expiry t i)) \<and> (next_p (node s x) = None \<or> next_p (node s x) \<in> Some ` set zs1)"
  proof (cases rest)
    case Nil
    then show ?thesis
      using nx lx rtc_inv_head [OF t(1)] unfolding t(2) by (auto simp: alarm_insert_list_def)
  next
    case (Cons y ys)
    show ?thesis
    proof (cases "unat (alarm_expiry s y) \<le> D \<or> period_cnt (node s x) = 1")
      case True
      have "alarm_expiry t y \<le> alarm_expiry t x" if "period_cnt (node s x) \<noteq> 1"
        using True lx [OF that] e(1) [of y] Cons that by (simp add: word_le_nat_alt)
      then have "\<exists>r. zs1 = y # r" using Cons unfolding t(2) by (auto simp: alarm_insert_list_Cons)
      then show ?thesis using nx Cons rtc_inv_head [OF t(1)] by auto
    next
      case False
      have "D < unat (alarm_expiry s i)" if "i \<in> set rest" for i
      proof -
        have "alarm_expiry s y \<le> alarm_expiry s i" using inv Cons that by (auto simp: rtc_inv_def)
        then show ?thesis using False by (simp add: word_le_nat_alt)
      qed
      then show ?thesis using nx Cons False lx e(1) unfolding t(2) by auto
    qed
  qed
qed

lemma alarm_update_loop_ok:
  assumes "leaves_driver_alone cb" and "rtc_inv s zs" and "ticks_within D n s"
    and "\<forall>i \<in> set zs. due_once D (node s i)"
    and "length (filter (\<lambda>i. unat (alarm_expiry s i) \<le> D) zs) < n"
    and "cur = alarm_head_p s \<or>
      (\<forall>i \<in> set zs. D < unat (alarm_expiry s i)) \<and> (cur = None \<or> cur \<in> Some ` set zs)"
  shows "\<exists>t m zs' k. alarm_update_loop cb n cur s = Some t \<and> alarm_pass D s zs m t zs' \<and>
    rtc_hw t = (rtc_hw s)\<lparr>hw_now := rtc_now s + k\<rparr> \<and> k \<le> n \<and>
    (zs' \<noteq> [] \<longrightarrow> D < unat (alarm_expiry t (hd zs')) \<or>
       k > 0 \<and> unat (rtc_tick s (rtc_now s + k - 1)) + AON_RTC_PRECISION_TICK < unat (alarm_expiry t (hd zs')))"
  using assms(2-)
proof (induction n arbitrary: s zs cur)
  case (Suc n)
  note inv = Suc.prems(1)
  note tw = Suc.prems(2)
  show ?case
  proof (cases cur)
    case None
    then have "zs \<noteq> [] \<longrightarrow> D < unat (alarm_expiry s (hd zs))"
      using Suc.prems(5) rtc_inv_head [OF inv] by (cases zs) auto
    then show ?thesis using None inv alarm_pass_refl [OF inv, of s D]
      by (intro exI [of _ s] exI [of _ "0::nat"] exI [of _ zs]) simp
  next
    case (Some c)
    show ?thesis
    proof (cases "alarm_expiry s c \<le> rtc_tick s (rtc_now s) + of_nat AON_RTC_PRECISION_TICK")
      case False
      then have nd: "unat (rtc_tick s (rtc_now s)) + AON_RTC_PRECISION_TICK < unat (alarm_expiry s c)"
        using due_iff [OF tw] by simp
      have "zs \<noteq> [] \<longrightarrow> D < unat (alarm_expiry s (hd zs)) \<or>
          unat (rtc_tick s (rtc_now s)) + AON_RTC_PRECISION_TICK < unat (alarm_expiry s (hd zs))"
        using Suc.prems(5) nd Some rtc_inv_head [OF inv] by (cases zs) auto
      moreover have "alarm_update_loop cb (Suc n) cur s = Some (rtc_read s)"
        using False Some by (simp add: current_tick_eq)
      moreover have "rtc_hw (rtc_read s) = (rtc_hw s)\<lparr>hw_now := rtc_now s + 1\<rparr>" by (simp add: rtc_read_def)
      ultimately show ?thesis using inv alarm_pass_refl [of "rtc_read s" zs s D]
        by (intro exI [of _ "rtc_read s"] exI [of _ "0::nat"] exI [of _ zs] exI [of _ "1::nat"]) simp
    next
      case due: True
      then have "unat (alarm_expiry s c) \<le> D"
        using due_iff [OF tw] tw by (fastforce simp: ticks_within_def)
      then have cD: "unat (alarm_expiry s c) \<le> D" "alarm_head_p s = Some c"
        using Suc.prems(5) Some by auto
      then obtain rest where zs: "zs = c # rest" using rtc_inv_head [OF inv] by (cases zs) auto
      have nin: "c \<notin> set rest" using inv zs by (simp add: rtc_inv_def)
      define zs1 where "zs1 t = (if period_cnt (node s c) = 1 then rest else alarm_insert_list t c rest)" for t
      obtain t where loop: "alarm_update_loop cb (Suc n) (Some c) s = alarm_update_loop cb n (next_p (node s c)) t"
        and ti: "rtc_inv t (zs1 t)"
        and same: "\<forall>j \<in> set rest. alarm_data (node t j) = alarm_data (node s j)"
        and moved: "period_cnt (node s c) \<noteq> 1 \<longrightarrow> alarm_data (node t c) = alarm_data (alarm_next_period (node s c))"
        and calls: "rtc_calls t = rtc_calls s @ alarm_call (node s c)" and hw: "rtc_hw t = rtc_hw (rtc_read s)"
        and high: "s_high_tick t = s_high_tick s"
        using alarm_turn [OF inv [unfolded zs] assms(1) due, of n] unfolding zs1_def by blast
      note nxt = alarm_turn_next [OF inv [unfolded zs] ti zs1_def same moved Suc.prems(3) [unfolded zs] cD(1)]
      have tick: "ticks_within D n t" "rtc_tick t = rtc_tick s" using ticks_within_next [OF tw hw high] by auto
      have fewer: "length (filter (\<lambda>i. unat (alarm_expiry t i) \<le> D) (zs1 t)) < n"
        using Suc.prems(4) zs cD(1) nxt(1) by simp
      obtain u m zs' k where u: "alarm_update_loop cb n (next_p (node s c)) t = Some u" "alarm_pass D t (zs1 t) m u zs'"
        "rtc_hw u = (rtc_hw t)\<lparr>hw_now := rtc_now t + k\<rparr>" "k \<le> n"
        "zs' \<noteq> [] \<longrightarrow> D < unat (alarm_expiry u (hd zs')) \<or>
          k > 0 \<and> unat (rtc_tick t (rtc_now t + k - 1)) + AON_RTC_PRECISION_TICK < unat (alarm_expiry u (hd zs'))"
        using Suc.IH [OF ti tick(1) nxt(2) fewer nxt(3)] by blast
      have "alarm_pass D s zs (Suc m) u zs'"
        unfolding zs
        by (rule alarm_pass_Cons [OF u(2) zs1_def same moved calls high nin cD(1)])
          (use Suc.prems(3) zs in simp)
      moreover have "rtc_now t = Suc (rtc_now s)" "rtc_hw u = (rtc_hw s)\<lparr>hw_now := rtc_now s + Suc k\<rparr>"
        using u(3) hw by (simp_all add: rtc_read_def)
      ultimately show ?thesis
        using u loop Some tick(2)
        by (intro exI [of _ u] exI [of _ "Suc m"] exI [of _ zs'] exI [of _ "Suc k"]) auto
    qed
  qed
qed simp

section \<open>Setting the comparator\<close>

definition rtc_armed :: "aon_rtc_driver_t \<Rightarrow> bool" where
  "rtc_armed s = (case alarm_head_p s of
     None \<Rightarrow> True | Some h \<Rightarrow> tick_val (rtc_hw s) = ucast (alarm_expiry s h))"

lemma set_tick_poll_frame:
  "tick_val (aon_rtc_set_tick_poll n v hw) = tick_val hw \<and> ctrl_v (aon_rtc_set_tick_poll n v hw) = ctrl_v hw"
  by (induction n arbitrary: hw)
    (auto simp: aon_rtc_hal_get_tick_val_lpo_def aon_rtc_ll_get_tick_val_lpo_def)

lemma aon_rtc_set_tick_eq:
  "\<exists>h. aon_rtc_set_tick v s = s\<lparr>rtc_hw := h\<rparr> \<and> tick_val h = v \<and> ctrl_v h = ctrl_v (rtc_hw s)"
  using set_tick_poll_frame [of 769 v "aon_rtc_hal_set_tick_val v (rtc_hw s)"]
  by (intro exI) (simp add: aon_rtc_set_tick_def aon_rtc_hal_set_tick_val_def aon_rtc_ll_set_tick_val_def)

text \<open>The polling loop stops at the first read of the new value, and after 769 reads at the latest.\<close>

lemma set_tick_poll_reads:
  "hw_now (aon_rtc_set_tick_poll n v hw) \<le> hw_now hw + n"
proof (induction n arbitrary: hw)
  case (Suc n)
  show ?case
    using Suc [of "hw\<lparr>hw_now := Suc (hw_now hw)\<rparr>"]
    by (simp add: aon_rtc_hal_get_tick_val_lpo_def aon_rtc_ll_get_tick_val_lpo_def)
qed simp

lemma set_tick_to_head_ok:
  assumes inv: "rtc_inv s xs" and time: "xs \<noteq> [] \<longrightarrow> rtc_tick s (rtc_now s) + 1 < alarm_expiry s (hd xs)"
  shows "\<exists>h. set_tick_to_head s = Some (s\<lparr>rtc_hw := h\<rparr>) \<and> rtc_armed (s\<lparr>rtc_hw := h\<rparr>) \<and> ctrl_v h = ctrl_v (rtc_hw s)"
proof (cases xs)
  case Nil
  then have "alarm_head_p s = None" using rtc_inv_head [OF inv] by simp
  then show ?thesis using aon_rtc_set_tick_eq [of AON_RTC_ROUND_TICK s]
    by (auto simp: set_tick_to_head_def rtc_armed_def)
next
  case (Cons x rest)
  then have h: "alarm_head_p s = Some x" using rtc_inv_head [OF inv] by simp
  obtain h where "aon_rtc_set_tick (ucast (alarm_expiry s x)) (rtc_read s) = (rtc_read s)\<lparr>rtc_hw := h\<rparr>"
    "tick_val h = ucast (alarm_expiry s x)" "ctrl_v h = ctrl_v (rtc_hw (rtc_read s))"
    using aon_rtc_set_tick_eq [of "ucast (alarm_expiry s x)" "rtc_read s"] by blast
  then show ?thesis using h Cons time
    by (intro exI [of _ h]) (auto simp: set_tick_to_head_def rtc_armed_def current_tick_eq rtc_read_def)
qed

section \<open>The interrupt\<close>

text \<open>From one read of the clock to the next no more than 30 ticks (about a millisecond) pass.\<close>

definition steady :: "nat \<Rightarrow> aon_rtc_driver_t \<Rightarrow> bool" where
  "steady n s \<longleftrightarrow> (\<forall>k. rtc_now s \<le> k \<and> k < rtc_now s + n \<longrightarrow>
     unat (rtc_tick s (Suc k)) \<le> unat (rtc_tick s k) + 30)"

lemma word_less_by_unat: "unat t + 1 < 2 ^ 64 \<Longrightarrow> unat t + 1 < unat e \<Longrightarrow> t + 1 < (e :: u64)"
  by (simp add: word_less_nat_alt unat_add_lem [THEN iffD1])

lemma alarm_pass_hw [simp]:
  "alarm_pass D (s\<lparr>rtc_hw := h\<rparr>) zs m t zs' \<longleftrightarrow> alarm_pass D s zs m t zs'"
  "alarm_pass D s zs m (t\<lparr>rtc_hw := h\<rparr>) zs' \<longleftrightarrow> alarm_pass D s zs m t zs'"
  by (simp_all add: alarm_pass_def)

lemma clear_tick_status:
  "\<not> bit (ctrl_v (aon_rtc_hal_clear_tick_int_status hw)) 4" "\<not> bit (ctrl_v (aon_rtc_hal_clear_tick_int_status hw)) 5"
  "hw_now (aon_rtc_hal_clear_tick_int_status hw) = hw_now hw"
  "counter_at (aon_rtc_hal_clear_tick_int_status hw) = counter_at hw"
  by (simp_all add: aon_rtc_hal_clear_tick_int_status_def aon_rtc_ll_clear_tick_int_status_def
      field_write_clears_status)

lemma alarm_isr_ok:
  assumes cb: "leaves_driver_alone cb" and inv: "rtc_inv s zs" and tw: "ticks_within D 10 s" and st: "steady 10 s"
    and once: "\<forall>i \<in> set zs. due_once D (node s i)"
    and few: "length (filter (\<lambda>i. unat (alarm_expiry s i) \<le> D) zs) < AON_RTC_MAX_ALARM_CNT"
    and pending: "aon_rtc_hal_get_tick_int_status (rtc_hw s)"
  shows "\<exists>t m zs'. aon_rtc_isr_handler cb s = Some (BK_OK, t) \<and> alarm_pass D s zs m t zs' \<and> rtc_armed t \<and>
    (\<exists>k \<le> AON_RTC_MAX_ALARM_CNT. \<forall>i \<in> set zs'.
       unat (rtc_tick s (rtc_now s + k)) + AON_RTC_PRECISION_TICK < unat (alarm_expiry t i)) \<and>
    \<not> aon_rtc_hal_get_tick_int_status (rtc_hw t) \<and> \<not> aon_rtc_hal_get_upper_int_status (rtc_hw t)"
proof -
  define s1 where "s1 = s\<lparr>rtc_hw := aon_rtc_hal_clear_tick_int_status (rtc_hw s)\<rparr>"
  have now: "rtc_now s1 = rtc_now s" "rtc_tick s1 = rtc_tick s"
    by (simp_all add: s1_def clear_tick_status rtc_tick_def fun_eq_iff)
  have "ticks_within D AON_RTC_MAX_ALARM_CNT s1" using tw by (auto simp: ticks_within_def now)
  moreover have "rtc_inv s1 zs" using inv by (simp add: s1_def)
  ultimately obtain t m zs' k where t: "alarm_update_loop cb AON_RTC_MAX_ALARM_CNT (alarm_head_p s1) s1 = Some t"
    "alarm_pass D s1 zs m t zs'" "rtc_hw t = (rtc_hw s1)\<lparr>hw_now := rtc_now s1 + k\<rparr>" "k \<le> AON_RTC_MAX_ALARM_CNT"
    "zs' \<noteq> [] \<longrightarrow> D < unat (alarm_expiry t (hd zs')) \<or>
       k > 0 \<and> unat (rtc_tick s1 (rtc_now s1 + k - 1)) + AON_RTC_PRECISION_TICK < unat (alarm_expiry t (hd zs'))"
    using alarm_update_loop_ok [OF cb, of s1 zs D AON_RTC_MAX_ALARM_CNT "alarm_head_p s1"] once few
    by (auto simp: s1_def)
  have ti: "rtc_inv t zs'" and high: "s_high_tick t = s_high_tick s" using t(2) by (auto simp: alarm_pass_def s1_def)
  have tt: "rtc_tick t (rtc_now t) = rtc_tick s (rtc_now s + k)"
    using t(3) high by (simp add: rtc_tick_def s1_def clear_tick_status)
  have b1: "unat (rtc_tick s (rtc_now s + k)) + AON_RTC_PRECISION_TICK \<le> D" "D < 2 ^ 64"
    using tw t(4) by (auto simp: ticks_within_def)
  have b2: "unat (rtc_tick s (rtc_now s + k)) \<le> unat (rtc_tick s (rtc_now s + k - 1)) + 30" if "k > 0"
  proof -
    have "unat (rtc_tick s (Suc (rtc_now s + k - 1))) \<le> unat (rtc_tick s (rtc_now s + k - 1)) + 30"
      using st [unfolded steady_def, rule_format, of "rtc_now s + k - 1"] t(4) that by (cases k) simp_all
    then show ?thesis using that by simp
  qed
  have "zs' \<noteq> [] \<longrightarrow> rtc_tick t (rtc_now t) + 1 < alarm_expiry t (hd zs')"
    unfolding tt using t(5) b1 b2 by (auto simp: now intro!: word_less_by_unat)
  note in_time = this
  have "\<exists>k \<le> AON_RTC_MAX_ALARM_CNT. \<forall>i \<in> set zs'.
      unat (rtc_tick s (rtc_now s + k)) + AON_RTC_PRECISION_TICK < unat (alarm_expiry t i)"
  proof (cases "zs' = []")
    case False
    have le: "unat (alarm_expiry t (hd zs')) \<le> unat (alarm_expiry t i)" if "i \<in> set zs'" for i
      using ti that False by (cases zs') (auto simp: rtc_inv_def word_le_nat_alt)
    have z: "unat (rtc_tick s (rtc_now s)) + AON_RTC_PRECISION_TICK \<le> D" using tw by (simp add: ticks_within_def)
    show ?thesis
    proof (cases "D < unat (alarm_expiry t (hd zs'))")
      case True
      then show ?thesis using le z by (intro exI [of _ 0]) fastforce
    next
      case late: False
      then have "k > 0" "unat (rtc_tick s (rtc_now s + (k - 1))) + AON_RTC_PRECISION_TICK < unat (alarm_expiry t (hd zs'))"
        using t(5) False by (auto simp: now)
      then show ?thesis using le t(4) by (intro exI [of _ "k - 1"]) fastforce
    qed
  qed auto
  note rest_later = this
  from set_tick_to_head_ok [OF ti in_time] obtain h where h: "set_tick_to_head t = Some (t\<lparr>rtc_hw := h\<rparr>)"
    "rtc_armed (t\<lparr>rtc_hw := h\<rparr>)" "ctrl_v h = ctrl_v (rtc_hw t)" by blast
  have bits: "\<not> bit (ctrl_v h) 4" "\<not> bit (ctrl_v h) 5"
    using h(3) t(3) clear_tick_status by (simp_all add: s1_def)
  have "aon_rtc_isr_handler cb s = Some (BK_OK, t\<lparr>rtc_hw := h\<rparr>)"
    using pending t(1) h(1) bits
    by (simp add: aon_rtc_isr_handler_def alarm_update_expeired_nodes_def s1_def [symmetric]
        aon_rtc_hal_get_upper_int_status_def aon_rtc_ll_get_upper_int_status_def)
  moreover have "alarm_pass D s zs m (t\<lparr>rtc_hw := h\<rparr>) zs'" using t(2) by (simp add: s1_def)
  ultimately show ?thesis using h(2) bits rest_later
    by (intro exI [of _ "t\<lparr>rtc_hw := h\<rparr>"] exI [of _ m] exI [of _ zs'])
      (simp add: aon_rtc_hal_get_upper_int_status_def aon_rtc_ll_get_upper_int_status_def
        aon_rtc_hal_get_tick_int_status_def aon_rtc_ll_get_tick_int_status_def)
qed

end
