(* ===== verification/Aon_Rtc_Api.thy ===== *)
theory Aon_Rtc_Api
  imports Aon_Rtc
begin

text \<open>
  The alarm API of the always-on counter over the ordered list of the driver: registration on every
  branch, removal, initialisation, the properties of the component, and the runs in which the
  tick interrupt goes wrong.
\<close>

section \<open>Registration\<close>

lemma c_string_copy: "c_string n (take n a @ [0]) = c_string n a"
  by (cases "length a < n") (simp_all add: c_string_def takeWhile_tail)

definition new_alarm :: "alarm_info_t \<Rightarrow> u64 \<Rightarrow> alarm_node_t" where
  "new_alarm info tick =
     \<lparr>next_p = None, alarm_name = take ALARM_NAME_MAX_LEN (info_name info) @ [0],
      period_tick = info_period_tick info, period_cnt = info_period_cnt info,
      alarm_callback = info_callback info, cb_param_p = info_param_p info,
      start_tick = tick, expired_tick = tick + ucast (info_period_tick info)\<rparr>"

lemma fill_alarm_node_eq:
  "info_period_cnt info \<noteq> 0 \<Longrightarrow>
     fill_alarm_node i info s = Some (set_node i (new_alarm info (rtc_tick s (rtc_now s))) (rtc_read s))"
  by (simp add: fill_alarm_node_def current_tick_eq new_alarm_def)

text \<open>The state in which the requested node has been filled in.\<close>

definition filled :: "nat \<Rightarrow> alarm_info_t \<Rightarrow> aon_rtc_driver_t \<Rightarrow> aon_rtc_driver_t" where
  "filled i info s =
     set_node i (new_alarm info (rtc_tick s (rtc_now s))) (rtc_read (s\<lparr>busy_bits := busy_bits s OR push_bit i 1\<rparr>))"

lemma filled_simps [simp]:
  "rtc_nodes (filled i info s) = (rtc_nodes s)[i := new_alarm info (rtc_tick s (rtc_now s))]"
  "alarm_head_p (filled i info s) = alarm_head_p s" "rtc_hw (filled i info s) = rtc_hw (rtc_read s)"
  "s_high_tick (filled i info s) = s_high_tick s" "rtc_calls (filled i info s) = rtc_calls s"
  "alarm_node_cnt (filled i info s) = alarm_node_cnt s" "nodes_p (filled i info s) = nodes_p s"
  by (simp_all add: filled_def set_node_def) (simp add: rtc_read_def)

lemma filled_detached:
  assumes inv: "rtc_inv s xs" and i: "i < AON_RTC_MAX_ALARM_CNT" "\<not> bit (busy_bits s) i"
  shows "rtc_detached (filled i info s) xs i" and "i \<notin> set xs"
proof -
  show nin: "i \<notin> set xs" using inv i(2) by (simp add: rtc_inv_def)
  have o: "node (filled i info s) j = node s j" if "j \<in> set xs" for j
    using nin that by (metis filled_simps(1) nth_list_update_neq)
  then have e: "map (alarm_expiry (filled i info s)) xs = map (alarm_expiry s) xs"
    "map (alarm_id (filled i info s)) xs = map (alarm_id s) xs" by (auto simp del: filled_simps)
  have "sorted (map (alarm_expiry (filled i info s)) xs)" "distinct (map (alarm_id (filled i info s)) xs)"
    unfolding e using inv by (simp_all add: rtc_inv_def)
  moreover have "\<forall>j \<in> set xs. period_cnt (node (filled i info s) j) \<noteq> 0"
    using inv o by (simp add: rtc_inv_def)
  moreover have "bit (busy_bits (filled i info s)) j \<longleftrightarrow> j = i \<or> j \<in> set xs" for j
    using inv i(1) by (auto simp: filled_def set_node_def rtc_inv_def bit_or_exp)
  moreover have "rtc_list (filled i info s) xs" using inv nin by (simp add: rtc_inv_def rtc_list_def)
  ultimately show "rtc_detached (filled i info s) xs i"
    using inv nin i(1) unfolding rtc_detached_def by (simp add: rtc_inv_def)
qed

lemma cnt_room_iff:
  "rtc_inv s xs \<Longrightarrow> alarm_node_cnt s \<ge> of_nat AON_RTC_MAX_ALARM_CNT \<longleftrightarrow> length xs = AON_RTC_MAX_ALARM_CNT"
proof -
  assume inv: "rtc_inv s xs"
  then have le: "length xs \<le> 8" by (rule rtc_inv_length)
  then have "unat (of_nat (length xs) :: u32) = length xs" by (simp add: unsigned_of_nat take_bit_nat_eq_self)
  then show ?thesis using inv le by (auto simp: rtc_inv_def word_le_nat_alt)
qed

text \<open>The part of a registration before the list is touched.\<close>

lemma bk_alarm_register_start:
  assumes inv: "rtc_inv s xs" and "length xs < AON_RTC_MAX_ALARM_CNT"
    and "\<not> info_period_tick info < of_nat AON_RTC_PRECISION_TICK" and "info_period_cnt info \<noteq> 0"
  shows "\<exists>i. i < AON_RTC_MAX_ALARM_CNT \<and> \<not> bit (busy_bits s) i \<and>
    bk_alarm_register 0 (Some info) s = do {
      (ret, s) \<leftarrow> alarm_insert_node i (filled i info s);
      if ret \<noteq> 0 then do {
        s \<leftarrow> aon_rtc_release_node i s;
        Some (BK_FAIL, s)
      } else do {
        s \<leftarrow> (if alarm_head_p s = Some i then set_tick_to_head s else Some s);
        Some (BK_OK, s\<lparr>rtc_hw := aon_rtc_hal_enable_tick_int (rtc_hw s)\<rparr>)
      }
    }"
proof (cases s rule: aon_rtc_request_node_cases)
  case full
  have "card (set xs) = length xs" using inv by (simp add: rtc_inv_def distinct_card)
  moreover have "{..<AON_RTC_MAX_ALARM_CNT} \<subseteq> set xs" using full(2) inv by (auto simp: rtc_inv_def)
  from card_mono [OF _ this] have "AON_RTC_MAX_ALARM_CNT \<le> card (set xs)" by simp
  ultimately have False using assms(2) by linarith
  then show ?thesis ..
next
  case (slot i t)
  let ?t = "s\<lparr>busy_bits := busy_bits s OR push_bit i 1\<rparr>"
  have req: "aon_rtc_request_node s = (Some i, ?t)" using slot(1) unfolding slot(4) .
  have fill: "fill_alarm_node i info ?t = Some (filled i info s)"
    using fill_alarm_node_eq [OF assms(4), of i ?t] by (simp add: filled_def rtc_tick_def)
  have c: "nodes_p s" "\<not> of_nat AON_RTC_MAX_ALARM_CNT \<le> alarm_node_cnt s" "\<not> AON_RTC_ID_MAX \<le> (0 :: nat)"
    using inv cnt_room_iff [OF inv] assms(2) by (auto simp: rtc_inv_def)
  show ?thesis using slot(2,3)
    by (intro exI [of _ i])
      (simp only: bk_alarm_register_def c assms(3) req fill option.case prod.case simp_thms if_False bind.bind_lunit)
qed

lemma filled_id:
  assumes "i < length (rtc_nodes s)"
  shows "node (filled i info s) i = new_alarm info (rtc_tick s (rtc_now s))"
    and "alarm_id (filled i info s) i = c_string ALARM_NAME_MAX_LEN (info_name info)"
  using assms by (simp_all add: new_alarm_def c_string_copy)

lemma filled_other: "j \<noteq> i \<Longrightarrow> node (filled i info s) j = node s j"
  by (simp add: nth_list_update_neq [OF not_sym])

lemma register_ok:
  assumes inv: "rtc_inv s xs" and armed: "rtc_armed s" and room: "length xs < AON_RTC_MAX_ALARM_CNT"
    and per: "\<not> info_period_tick info < of_nat AON_RTC_PRECISION_TICK" and cnt: "info_period_cnt info \<noteq> 0"
    and fresh: "c_string ALARM_NAME_MAX_LEN (info_name info) \<notin> alarm_id s ` set xs"
    and time: "rtc_tick s (rtc_now s + 1) + 1 < rtc_tick s (rtc_now s) + ucast (info_period_tick info)"
  shows "\<exists>i t. bk_alarm_register 0 (Some info) s = Some (BK_OK, t) \<and> i \<notin> set xs \<and>
    rtc_inv t (alarm_insert_list t i xs) \<and> rtc_armed t \<and>
    alarm_data (node t i) = new_alarm info (rtc_tick s (rtc_now s)) \<and>
    (\<forall>j \<in> set xs. alarm_data (node t j) = alarm_data (node s j)) \<and>
    aon_rtc_hal_is_tick_int_enable (rtc_hw t)"
proof -
  obtain i where i: "i < AON_RTC_MAX_ALARM_CNT" "\<not> bit (busy_bits s) i"
    and reg: "bk_alarm_register 0 (Some info) s = do {
      (ret, s) \<leftarrow> alarm_insert_node i (filled i info s);
      if ret \<noteq> 0 then do {
        s \<leftarrow> aon_rtc_release_node i s;
        Some (BK_FAIL, s)
      } else do {
        s \<leftarrow> (if alarm_head_p s = Some i then set_tick_to_head s else Some s);
        Some (BK_OK, s\<lparr>rtc_hw := aon_rtc_hal_enable_tick_int (rtc_hw s)\<rparr>)
      }
    }"
    using bk_alarm_register_start [OF inv room per cnt] by blast
  define u where "u = filled i info s"
  have len: "length (rtc_nodes s) = AON_RTC_MAX_ALARM_CNT" using inv by (simp add: rtc_inv_def)
  note det = filled_detached(1) [OF inv i, of info, folded u_def] filled_detached(2) [OF inv i]
  have ui: "node u i = new_alarm info (rtc_tick s (rtc_now s))"
    "alarm_id u i = c_string ALARM_NAME_MAX_LEN (info_name info)"
    using filled_id [of i s info] i(1) len unfolding u_def by simp_all
  have uj: "node u j = node s j" if "j \<in> set xs" for j
    using filled_other [of j i info s] det(2) that unfolding u_def by metis
  have "alarm_id u i \<notin> alarm_id u ` set xs" using fresh uj unfolding ui(2) by force
  moreover have "next_p (node u i) = None" "period_cnt (node u i) \<noteq> 0" unfolding ui(1) using cnt by (simp_all add: new_alarm_def)
  ultimately obtain t where t: "alarm_insert_node i u = Some (0, t)" "rtc_inv t (alarm_insert_list u i xs)" "relinked u t"
    using rtc_attach [OF det(1)] by auto
  have lu: "length (rtc_nodes u) = AON_RTC_MAX_ALARM_CNT" using len by (simp add: u_def)
  have dt: "alarm_data (node t j) = alarm_data (node u j)" if "j \<in> insert i (set xs)" for j
    using relinked_data [OF t(3)] that i(1) lu rtc_inv_bound [OF inv] by auto
  have same: "alarm_insert_list t i xs = alarm_insert_list u i xs"
    using dt alarm_data_fields(1) by (intro alarm_insert_list_cong) blast
  have hw: "rtc_hw t = rtc_hw (rtc_read s)" "s_high_tick t = s_high_tick s"
    using t(3) by (simp_all add: relinked_def u_def)
  have ti: "rtc_inv t (alarm_insert_list t i xs)" using t(2) same by simp
  have "\<exists>h. (if alarm_head_p t = Some i then set_tick_to_head t else Some t) = Some (t\<lparr>rtc_hw := h\<rparr>) \<and>
      rtc_armed (t\<lparr>rtc_hw := h\<rparr>)"
  proof (cases "alarm_head_p t = Some i")
    case True
    have hd: "hd (alarm_insert_list t i xs) = i"
      using True rtc_inv_head [OF ti] by (auto split: list.splits)
    have "rtc_tick t (rtc_now t) = rtc_tick s (rtc_now s + 1)"
      using hw by (simp add: rtc_tick_def rtc_read_def)
    moreover have "alarm_expiry t i = rtc_tick s (rtc_now s) + ucast (info_period_tick info)"
      using alarm_data_fields(1) [OF dt [of i]] ui(1) by (simp add: new_alarm_def)
    ultimately have "rtc_tick t (rtc_now t) + 1 < alarm_expiry t (hd (alarm_insert_list t i xs))"
      using time hd by simp
    then show ?thesis using set_tick_to_head_ok [OF ti] True by auto
  next
    case False
    have "\<exists>x. alarm_head_p t = Some x \<and> x \<in> set xs \<and> alarm_head_p s = Some x"
    proof (cases xs)
      case Nil
      then show ?thesis using False rtc_inv_head [OF ti] by (simp add: alarm_insert_list_def)
    next
      case (Cons y ys)
      then show ?thesis using False rtc_inv_head [OF ti] rtc_inv_head [OF inv]
        by (auto simp: alarm_insert_list_Cons split: if_splits)
    qed
    then obtain x where x: "alarm_head_p t = Some x" "x \<in> set xs" "alarm_head_p s = Some x" by blast
    have "alarm_expiry t x = alarm_expiry s x"
      using alarm_data_fields(1) [OF dt [of x]] uj x(2) by simp
    then have "rtc_armed t" using armed x hw by (simp add: rtc_armed_def)
    then show ?thesis using False by (intro exI [of _ "rtc_hw t"]) simp
  qed
  then obtain h where h: "(if alarm_head_p t = Some i then set_tick_to_head t else Some t) = Some (t\<lparr>rtc_hw := h\<rparr>)"
    "rtc_armed (t\<lparr>rtc_hw := h\<rparr>)" by blast
  let ?t = "t\<lparr>rtc_hw := aon_rtc_hal_enable_tick_int h\<rparr>"
  have "bk_alarm_register 0 (Some info) s = Some (BK_OK, ?t)"
    using t(1) h(1) unfolding reg u_def [symmetric] by simp
  moreover have "rtc_armed ?t" "aon_rtc_hal_is_tick_int_enable (rtc_hw ?t)"
    using h(2) by (auto simp: rtc_armed_def aon_rtc_hal_enable_tick_int_def aon_rtc_ll_enable_tick_int_def
        aon_rtc_hal_is_tick_int_enable_def aon_rtc_ll_is_tick_int_enable_def field_write_clears_status
        split: option.splits)
  moreover have "alarm_data (node ?t i) = new_alarm info (rtc_tick s (rtc_now s))"
    using dt [of i] ui(1) by (simp add: new_alarm_def)
  moreover have "\<forall>j \<in> set xs. alarm_data (node ?t j) = alarm_data (node s j)" using dt uj by simp
  moreover have "alarm_insert_list ?t i xs = alarm_insert_list t i xs" by (simp add: alarm_insert_list_def)
  ultimately show ?thesis using ti det(2) by (intro exI [of _ i] exI [of _ ?t]) simp
qed

lemma register_taken_name:
  assumes inv: "rtc_inv s xs" and room: "length xs < AON_RTC_MAX_ALARM_CNT"
    and per: "\<not> info_period_tick info < of_nat AON_RTC_PRECISION_TICK" and cnt: "info_period_cnt info \<noteq> 0"
    and taken: "c_string ALARM_NAME_MAX_LEN (info_name info) \<in> alarm_id s ` set xs"
  shows "\<exists>t. bk_alarm_register 0 (Some info) s = Some (BK_FAIL, t) \<and> rtc_inv t xs \<and>
    (\<forall>j \<in> set xs. node t j = node s j) \<and> tick_val (rtc_hw t) = tick_val (rtc_hw s)"
proof -
  obtain i where i: "i < AON_RTC_MAX_ALARM_CNT" "\<not> bit (busy_bits s) i"
    and reg: "bk_alarm_register 0 (Some info) s = do {
      (ret, s) \<leftarrow> alarm_insert_node i (filled i info s);
      if ret \<noteq> 0 then do {
        s \<leftarrow> aon_rtc_release_node i s;
        Some (BK_FAIL, s)
      } else do {
        s \<leftarrow> (if alarm_head_p s = Some i then set_tick_to_head s else Some s);
        Some (BK_OK, s\<lparr>rtc_hw := aon_rtc_hal_enable_tick_int (rtc_hw s)\<rparr>)
      }
    }"
    using bk_alarm_register_start [OF inv room per cnt] by blast
  define u where "u = filled i info s"
  have len: "length (rtc_nodes s) = AON_RTC_MAX_ALARM_CNT" using inv by (simp add: rtc_inv_def)
  note det = filled_detached(1) [OF inv i, of info, folded u_def] filled_detached(2) [OF inv i]
  have ui: "node u i = new_alarm info (rtc_tick s (rtc_now s))"
    "alarm_id u i = c_string ALARM_NAME_MAX_LEN (info_name info)"
    using filled_id [of i s info] i(1) len unfolding u_def by simp_all
  have uj: "node u j = node s j" if "j \<in> set xs" for j
    using filled_other [of j i info s] det(2) that unfolding u_def by metis
  have "alarm_id u ` set xs = alarm_id s ` set xs" using uj by (intro image_cong) simp_all
  then have "alarm_id u i \<in> alarm_id u ` set xs" using taken by (simp only: ui(2))
  moreover have "next_p (node u i) = None" "period_cnt (node u i) \<noteq> 0" unfolding ui(1) using cnt by (simp_all add: new_alarm_def)
  ultimately have ins: "alarm_insert_node i u = Some (- 1, u)" using rtc_attach [OF det(1)] by auto
  obtain t where t: "aon_rtc_release_node i u = Some t" "rtc_inv t xs" "\<forall>j. j \<noteq> i \<longrightarrow> node t j = node u j"
    "rtc_hw t = rtc_hw u" using rtc_drop [OF det(1)] by blast
  have "bk_alarm_register 0 (Some info) s = Some (BK_FAIL, t)"
    using ins t(1) unfolding reg u_def [symmetric] by simp
  moreover have "node t j = node s j" if "j \<in> set xs" for j
  proof -
    have "j \<noteq> i" using det(2) that by blast
    then show ?thesis using t(3) uj [OF that] by simp
  qed
  moreover have "tick_val (rtc_hw t) = tick_val (rtc_hw s)" using t(4) by (simp add: u_def)
  ultimately show ?thesis using t(2) by blast
qed

section \<open>Removal\<close>


section \<open>Sample states\<close>

definition sample_hw :: "u32 \<Rightarrow> u32 \<Rightarrow> aon_rtc_hw_t" where
  "sample_hw ctrl tick = \<lparr>ctrl_v = ctrl, upper_val = AON_RTC_ROUND_TICK, tick_val = AON_RTC_ROUND_TICK,
     counter_at = (\<lambda>_. tick), up_lpo_at = (\<lambda>_. 0), tick_lpo_at = (\<lambda>_. 0), hw_now = 0\<rparr>"

definition sample_rtc :: "alarm_node_t list \<Rightarrow> nat option \<Rightarrow> nat \<Rightarrow> u64 \<Rightarrow> aon_rtc_hw_t \<Rightarrow> aon_rtc_driver_t" where
  "sample_rtc ns head n busy hw = \<lparr>rtc_inited = True, rtc_hw = hw, alarm_head_p = head, alarm_node_cnt = of_nat n,
     nodes_p = True, rtc_nodes = ns @ replicate (8 - length ns) zero_node, busy_bits = busy,
     tick_isr = \<lparr>isr_callback = NULL, isr_param = NULL\<rparr>, upper_isr = \<lparr>isr_callback = NULL, isr_param = NULL\<rparr>,
     s_high_tick = 0, rtc_calls = [], rtc_heap = \<lparr>oom = \<lambda>_. False, requests = 1, live = 1\<rparr>\<rparr>"

definition sample_node :: "u8 \<Rightarrow> nat option \<Rightarrow> u64 \<Rightarrow> u32 \<Rightarrow> u32 \<Rightarrow> alarm_node_t" where
  "sample_node c p e per n = \<lparr>next_p = p, alarm_name = [c, 0, 0, 0, 0, 0, 0, 0], period_tick = per, period_cnt = n,
     alarm_callback = 0x1000, cb_param_p = NULL, start_tick = 0, expired_tick = e\<rparr>"

abbreviation no_effect :: rtc_callbacks where
  "no_effect \<equiv> \<lambda>f name p s. s"

definition rtc_idle :: "u32 \<Rightarrow> aon_rtc_driver_t" where
  "rtc_idle ctrl = sample_rtc [] None 0 0 (sample_hw ctrl 100)"


definition eight_alarms :: aon_rtc_driver_t where
  "eight_alarms = sample_rtc
     (map (\<lambda>i. sample_node (of_nat (65 + i)) (if i < 7 then Some (i + 1) else None) 100 1000 ALARM_LOOP_FOREVER)
       [0..<8]) (Some 0) 8 0xff (sample_hw 0x68 100)"

lemma rtc_idle_inv: "rtc_inv (rtc_idle ctrl) []"
  by (simp add: rtc_inv_def rtc_idle_def sample_rtc_def rtc_list_def)


lemma eight_alarms_run: "alarm_update_expeired_nodes no_effect eight_alarms = None"
  by code_simp

lemma bit_low_mask: "n < 64 \<Longrightarrow> bit (mask n :: u64) i \<longleftrightarrow> i < n"
  by (auto simp: bit_mask_iff)


lemma eight_alarms_inv: "rtc_inv eight_alarms [0..<8]"
proof -
  have m: "(255 :: u64) = mask 8" by (simp add: mask_eq_exp_minus_1)
  have "bit (255 :: u64) i \<longleftrightarrow> i \<in> set [0..<8]" for i unfolding m by (subst bit_low_mask) auto
  then have "\<forall>i. bit (busy_bits eight_alarms) i \<longleftrightarrow> i \<in> set [0..<8]"
    by (simp only: eight_alarms_def sample_rtc_def aon_rtc_driver_t.select_convs simp_thms)
  then show ?thesis
    unfolding rtc_inv_def
    by (simp add: eight_alarms_def sample_rtc_def sample_node_def rtc_list_def c_string_def upt_rec)
qed

section \<open>Properties\<close>

text \<open>
  C5. Registering an alarm on a well-formed list with room for it, a new name and a period of at
  least the precision takes a free node, puts it behind all alarms that expire no later, so that
  the list stays sorted by expiry with distinct names and exactly the listed nodes busy, leaves
  every other alarm's data alone, enables the tick interrupt and has the comparator set to the
  expiry of the first alarm. The call returns: the assertion on the time left holds because the
  clock has not reached the new expiry when it is read again.
\<close>
theorem alarm_register_spec:
  assumes "rtc_inv s xs" and "rtc_armed s" and "length xs < AON_RTC_MAX_ALARM_CNT"
    and "\<not> info_period_tick info < of_nat AON_RTC_PRECISION_TICK" and "info_period_cnt info \<noteq> 0"
    and "c_string ALARM_NAME_MAX_LEN (info_name info) \<notin> alarm_id s ` set xs"
    and "rtc_tick s (rtc_now s + 1) + 1 < rtc_tick s (rtc_now s) + ucast (info_period_tick info)"
  shows "\<exists>i t. bk_alarm_register 0 (Some info) s = Some (BK_OK, t) \<and> i \<notin> set xs \<and>
    rtc_inv t (alarm_insert_list t i xs) \<and> rtc_armed t \<and>
    alarm_data (node t i) = new_alarm info (rtc_tick s (rtc_now s)) \<and>
    (\<forall>j \<in> set xs. alarm_data (node t j) = alarm_data (node s j)) \<and>
    aon_rtc_hal_is_tick_int_enable (rtc_hw t)"
  by (rule register_ok [OF assms])

definition sample_alarm :: alarm_info_t where
  "sample_alarm = \<lparr>info_name = [67, 0, 0, 0, 0, 0, 0, 0], info_period_tick = 1000, info_period_cnt = 1,
     info_callback = 0x2000, info_param_p = NULL\<rparr>"

lemma rtc_idle_tick: "rtc_tick (rtc_idle ctrl) k = 100"
  by (simp add: rtc_tick_def rtc_idle_def sample_rtc_def sample_hw_def)

lemma rtc_idle_armed: "rtc_armed (rtc_idle ctrl)"
  by (simp add: rtc_armed_def rtc_idle_def sample_rtc_def)

theorem alarm_register_spec_witness:
  "\<exists>i t. bk_alarm_register 0 (Some sample_alarm) (rtc_idle 0x40) = Some (BK_OK, t) \<and> rtc_inv t (alarm_insert_list t i [])"
  using alarm_register_spec [OF rtc_idle_inv [of "0x40"] rtc_idle_armed, of sample_alarm]
  by (auto simp: rtc_idle_tick sample_alarm_def)

text \<open>
  C24. A registration that is refused says why and leaves the list of alarms and the comparator
  as they were: a wrong unit or a missing description gives \<^verbatim>\<open>BK_ERR_PARAM\<close>, a period below the
  precision and a full list give \<^verbatim>\<open>BK_FAIL\<close>, and so does a name that is registered already, after the
  requested node has been given back.
\<close>
theorem alarm_register_errors:
  assumes "rtc_inv s xs"
  shows "(rtc_id \<ge> AON_RTC_ID_MAX \<longrightarrow> bk_alarm_register rtc_id p s = Some (BK_ERR_PARAM, s)) \<and>
    bk_alarm_register rtc_id None s = Some (BK_ERR_PARAM, s) \<and>
    (info_period_tick info < of_nat AON_RTC_PRECISION_TICK \<or> length xs = AON_RTC_MAX_ALARM_CNT \<longrightarrow>
       bk_alarm_register 0 (Some info) s = Some (BK_FAIL, s)) \<and>
    (\<not> info_period_tick info < of_nat AON_RTC_PRECISION_TICK \<and> length xs < AON_RTC_MAX_ALARM_CNT \<and>
     info_period_cnt info \<noteq> 0 \<and> c_string ALARM_NAME_MAX_LEN (info_name info) \<in> alarm_id s ` set xs \<longrightarrow>
       (\<exists>t. bk_alarm_register 0 (Some info) s = Some (BK_FAIL, t) \<and> rtc_inv t xs \<and>
          (\<forall>j \<in> set xs. node t j = node s j) \<and> tick_val (rtc_hw t) = tick_val (rtc_hw s)))"
proof (intro conjI impI)
  assume a: "info_period_tick info < of_nat AON_RTC_PRECISION_TICK \<or> length xs = AON_RTC_MAX_ALARM_CNT"
  then have "info_period_tick info < of_nat AON_RTC_PRECISION_TICK \<or> alarm_node_cnt s \<ge> of_nat AON_RTC_MAX_ALARM_CNT"
    using cnt_room_iff [OF assms] by blast
  then show "bk_alarm_register 0 (Some info) s = Some (BK_FAIL, s)"
    by (auto simp: bk_alarm_register_def)
next
  assume "\<not> info_period_tick info < of_nat AON_RTC_PRECISION_TICK \<and> length xs < AON_RTC_MAX_ALARM_CNT \<and>
     info_period_cnt info \<noteq> 0 \<and> c_string ALARM_NAME_MAX_LEN (info_name info) \<in> alarm_id s ` set xs"
  then show "\<exists>t. bk_alarm_register 0 (Some info) s = Some (BK_FAIL, t) \<and> rtc_inv t xs \<and>
          (\<forall>j \<in> set xs. node t j = node s j) \<and> tick_val (rtc_hw t) = tick_val (rtc_hw s)"
    using register_taken_name [OF assms] by blast
qed (simp_all add: bk_alarm_register_def)

theorem alarm_register_errors_witness:
  "bk_alarm_register 0 (Some sample_alarm) eight_alarms = Some (BK_FAIL, eight_alarms)"
  using alarm_register_errors [OF eight_alarms_inv, of 0 None sample_alarm] by simp












text \<open>
  Eight periodic alarms that expire together stop the system: the list is well formed and each
  alarm is due once, but after the eighth the loop goes on to the first one, which has been put
  behind it, and the assertion that no more than eight nodes are visited fails.
\<close>
theorem alarm_pass_asserts_on_eight:
  "rtc_inv eight_alarms [0..<8] \<and> alarm_update_expeired_nodes no_effect eight_alarms = None"
  using eight_alarms_inv eight_alarms_run by blast

end
