(* ===== verification/Multi_Button.thy ===== *)
theory Multi_Button
  imports Prelude
begin

text \<open>
  The push-button recogniser, \<^verbatim>\<open>components/key/multi_button.c\<close>: every 5 ms the pin of each
  registered button is read and debounced, and a state machine turns the debounced level into
  presses, releases, clicks and long presses, which are reported through callbacks.

  The handles live in a store indexed by address, because the driver chains them through
  their \<^verbatim>\<open>next\<close> field; bit fields keep their width. The pin reading of a tick and the effect
  of a callback are parameters. An abstract machine with the phases of a gesture specifies the
  state machine, and the handler refines it.
\<close>

section \<open>Data\<close>

datatype PRESS_EVT =
    PRESS_DOWN | PRESS_UP | PRESS_REPEAT | SINGLE_CLICK | DOUBLE_CLICK
  | LONG_PRESS_START | LONG_PRESS_HOLD | number_of_event | NONE_PRESS

fun evt_num :: "PRESS_EVT \<Rightarrow> nat" where
  "evt_num PRESS_DOWN = 0"
| "evt_num PRESS_UP = 1"
| "evt_num PRESS_REPEAT = 2"
| "evt_num SINGLE_CLICK = 3"
| "evt_num DOUBLE_CLICK = 4"
| "evt_num LONG_PRESS_START = 5"
| "evt_num LONG_PRESS_HOLD = 6"
| "evt_num number_of_event = 7"
| "evt_num NONE_PRESS = 8"

definition evt_code :: "PRESS_EVT \<Rightarrow> 4 word" where
  "evt_code e = of_nat (evt_num e)"

definition DEBOUNCE_TICKS :: nat where "DEBOUNCE_TICKS = 6"
definition SHORT_TICKS :: nat where "SHORT_TICKS = 400 div 5"
definition LONG_TICKS :: nat where "LONG_TICKS = 1000 div 5"

lemmas tick_limits = DEBOUNCE_TICKS_def SHORT_TICKS_def LONG_TICKS_def

record BUTTON_S =
  bt_ticks :: u16
  bt_repeat :: "4 word"
  bt_event :: "4 word"
  bt_state :: "3 word"
  bt_debounce_cnt :: "3 word"
  bt_active_level :: "1 word"
  bt_button_level :: "1 word"
  bt_user_data :: addr
  bt_hal_button_Level :: addr
  bt_cb :: "addr list"
  bt_next :: addr

definition zero_button :: BUTTON_S where
  "zero_button =
     \<lparr>bt_ticks = 0, bt_repeat = 0, bt_event = 0, bt_state = 0, bt_debounce_cnt = 0,
      bt_active_level = 0, bt_button_level = 0, bt_user_data = NULL,
      bt_hal_button_Level = NULL, bt_cb = replicate 7 NULL, bt_next = NULL\<rparr>"

text \<open>
  \<open>fired\<close> lists the callbacks that ran, with their handle and their event.
\<close>

record key_state =
  buttons :: "addr \<Rightarrow> BUTTON_S"
  head_handle :: addr
  fired :: "(addr \<times> PRESS_EVT) list"

text \<open>
  What the code behind a function pointer does: a pin reader gets the handle and returns a
  level, a callback gets the handle and may change anything.
\<close>

type_synonym 'a pin_reader = "addr \<Rightarrow> addr \<Rightarrow> 'a key_state_scheme \<Rightarrow> u8"
type_synonym 'a btn_callback = "addr \<Rightarrow> addr \<Rightarrow> 'a key_state_scheme \<Rightarrow> 'a key_state_scheme"

definition set_button :: "addr \<Rightarrow> (BUTTON_S \<Rightarrow> BUTTON_S) \<Rightarrow> 'a key_state_scheme \<Rightarrow> 'a key_state_scheme"
where
  "set_button p f s = s\<lparr>buttons := (buttons s)(p := f (buttons s p))\<rparr>"

section \<open>Initialising a handle\<close>

definition button_init ::
  "'a pin_reader \<Rightarrow> addr \<Rightarrow> addr \<Rightarrow> u8 \<Rightarrow> addr \<Rightarrow> 'a key_state_scheme \<Rightarrow> 'a key_state_scheme"
where
  "button_init hal p pin_level active_level data s =
     (let s = set_button p (\<lambda>_. zero_button) s;
          s = set_button p (\<lambda>h. h\<lparr>bt_event := evt_code NONE_PRESS\<rparr>) s;
          s = set_button p (\<lambda>h. h\<lparr>bt_active_level := ucast active_level\<rparr>) s;
          s = set_button p (\<lambda>h. h\<lparr>bt_user_data := data\<rparr>) s;
          s = set_button p (\<lambda>h. h\<lparr>bt_hal_button_Level := pin_level\<rparr>) s;
          level = hal (bt_hal_button_Level (buttons s p)) p s
      in set_button p (\<lambda>h. h\<lparr>bt_button_level := ucast level\<rparr>) s)"

text \<open>
  Attaching a callback to an event outside the array of seven writes past its end; the result
  is \<^const>\<open>None\<close> then.
\<close>

definition button_attach ::
  "addr \<Rightarrow> PRESS_EVT \<Rightarrow> addr \<Rightarrow> 'a key_state_scheme \<Rightarrow> 'a key_state_scheme option"
where
  "button_attach p ev c s =
     (if evt_num ev < evt_num number_of_event
      then Some (set_button p (\<lambda>h. h\<lparr>bt_cb := (bt_cb h)[evt_num ev := c]\<rparr>) s)
      else None)"

definition button_get_event :: "addr \<Rightarrow> 'a key_state_scheme \<Rightarrow> 4 word" where
  "button_get_event p s = bt_event (buttons s p)"

section \<open>The handler of a tick\<close>

definition EVENT_CB ::
  "'a btn_callback \<Rightarrow> addr \<Rightarrow> PRESS_EVT \<Rightarrow> 'a key_state_scheme \<Rightarrow> 'a key_state_scheme"
where
  "EVENT_CB run p ev s =
     (let c = bt_cb (buttons s p) ! evt_num ev
      in if c \<noteq> NULL then run c p (s\<lparr>fired := fired s @ [(p, ev)]\<rparr>) else s)"

definition set_event :: "addr \<Rightarrow> PRESS_EVT \<Rightarrow> 'a key_state_scheme \<Rightarrow> 'a key_state_scheme" where
  "set_event p ev = set_button p (\<lambda>h. h\<lparr>bt_event := evt_code ev\<rparr>)"

definition button_debounce :: "u8 \<Rightarrow> BUTTON_S \<Rightarrow> BUTTON_S" where
  "button_debounce read_gpio_level h =
     (if read_gpio_level \<noteq> ucast (bt_button_level h)
      then let h = h\<lparr>bt_debounce_cnt := bt_debounce_cnt h + 1\<rparr>
           in if DEBOUNCE_TICKS \<le> unat (bt_debounce_cnt h)
              then h\<lparr>bt_button_level := ucast read_gpio_level, bt_debounce_cnt := 0\<rparr>
              else h
      else h\<lparr>bt_debounce_cnt := 0\<rparr>)"

definition button_switch :: "'a btn_callback \<Rightarrow> addr \<Rightarrow> 'a key_state_scheme \<Rightarrow> 'a key_state_scheme"
where
  "button_switch run p s =
     (let h = buttons s p; down = (bt_button_level h = bt_active_level h)
      in if bt_state h = 0 then
           if down then
             let s = EVENT_CB run p PRESS_DOWN (set_event p PRESS_DOWN s)
             in set_button p (\<lambda>h. h\<lparr>bt_ticks := 0, bt_repeat := 1, bt_state := 1\<rparr>) s
           else set_event p NONE_PRESS s
         else if bt_state h = 1 then
           if \<not> down then
             let s = EVENT_CB run p PRESS_UP (set_event p PRESS_UP s)
             in set_button p (\<lambda>h. h\<lparr>bt_ticks := 0, bt_state := 2\<rparr>) s
           else if LONG_TICKS < unat (bt_ticks h) then
             let s = EVENT_CB run p LONG_PRESS_START (set_event p LONG_PRESS_START s)
             in set_button p (\<lambda>h. h\<lparr>bt_state := 5\<rparr>) s
           else s
         else if bt_state h = 2 then
           if down then
             let s = EVENT_CB run p PRESS_DOWN (set_event p PRESS_DOWN s);
                 s = set_button p (\<lambda>h. h\<lparr>bt_repeat := bt_repeat h + 1\<rparr>) s;
                 s = (if bt_repeat (buttons s p) = 2 then EVENT_CB run p DOUBLE_CLICK s else s);
                 s = EVENT_CB run p PRESS_REPEAT s
             in set_button p (\<lambda>h. h\<lparr>bt_ticks := 0, bt_state := 3\<rparr>) s
           else if SHORT_TICKS < unat (bt_ticks h) then
             let s = (if bt_repeat h = 1
                      then EVENT_CB run p SINGLE_CLICK (set_event p SINGLE_CLICK s)
                      else if bt_repeat h = 2 then set_event p DOUBLE_CLICK s
                      else s)
             in set_button p (\<lambda>h. h\<lparr>bt_state := 0\<rparr>) s
           else s
         else if bt_state h = 3 then
           if \<not> down then
             let s = EVENT_CB run p PRESS_UP (set_event p PRESS_UP s)
             in if unat (bt_ticks (buttons s p)) < SHORT_TICKS
                then set_button p (\<lambda>h. h\<lparr>bt_ticks := 0, bt_state := 2\<rparr>) s
                else set_button p (\<lambda>h. h\<lparr>bt_state := 0\<rparr>) s
           else s
         else if bt_state h = 5 then
           if down then EVENT_CB run p LONG_PRESS_HOLD (set_event p LONG_PRESS_HOLD s)
           else
             let s = EVENT_CB run p PRESS_UP (set_event p PRESS_UP s)
             in set_button p (\<lambda>h. h\<lparr>bt_state := 0\<rparr>) s
         else s)"

definition button_handler ::
  "'a pin_reader \<Rightarrow> 'a btn_callback \<Rightarrow> addr \<Rightarrow> 'a key_state_scheme \<Rightarrow> 'a key_state_scheme"
where
  "button_handler hal run p s =
     (let read_gpio_level = hal (bt_hal_button_Level (buttons s p)) p s;
          s = (if bt_state (buttons s p) > 0
               then set_button p (\<lambda>h. h\<lparr>bt_ticks := bt_ticks h + 1\<rparr>) s else s);
          s = set_button p (button_debounce read_gpio_level) s
      in button_switch run p s)"

section \<open>The work list\<close>

text \<open>
  Walks along the \<^verbatim>\<open>next\<close> pointers end when the chain does; a walk that never ends is
  \<^const>\<open>None\<close>.
\<close>

partial_function (option) button_start_walk :: "addr \<Rightarrow> addr \<Rightarrow> 'a key_state_scheme \<Rightarrow> bool option"
where
  "button_start_walk p target s =
     (if target = NULL then Some False
      else if target = p then Some True
      else button_start_walk p (bt_next (buttons s target)) s)"

definition button_start :: "addr \<Rightarrow> 'a key_state_scheme \<Rightarrow> (int \<times> 'a key_state_scheme) option" where
  "button_start p s =
     do { present \<leftarrow> button_start_walk p (head_handle s) s;
          Some (if present then (- 1, s)
                else let s = set_button p (\<lambda>h. h\<lparr>bt_next := head_handle s\<rparr>) s
                     in (0, s\<lparr>head_handle := p\<rparr>)) }"

text \<open>
  \<^verbatim>\<open>button_stop\<close> walks with a pointer to the pointer it may have to change: either the head
  of the list or the \<^verbatim>\<open>next\<close> field of a handle.
\<close>

datatype link = Head | Next addr

fun get_link :: "link \<Rightarrow> 'a key_state_scheme \<Rightarrow> addr" where
  "get_link Head s = head_handle s"
| "get_link (Next q) s = bt_next (buttons s q)"

fun set_link :: "link \<Rightarrow> addr \<Rightarrow> 'a key_state_scheme \<Rightarrow> 'a key_state_scheme" where
  "set_link Head a s = s\<lparr>head_handle := a\<rparr>"
| "set_link (Next q) a s = set_button q (\<lambda>h. h\<lparr>bt_next := a\<rparr>) s"

partial_function (option) button_stop_walk ::
  "addr \<Rightarrow> link \<Rightarrow> 'a key_state_scheme \<Rightarrow> 'a key_state_scheme option"
where
  "button_stop_walk p cur s =
     (if get_link cur s = NULL then Some s
      else let e = get_link cur s
           in if e = p then button_stop_walk p cur (set_link cur (bt_next (buttons s e)) s)
              else button_stop_walk p (Next e) s)"

definition button_stop :: "addr \<Rightarrow> 'a key_state_scheme \<Rightarrow> 'a key_state_scheme option" where
  "button_stop p s = button_stop_walk p Head s"

partial_function (option) button_find_walk :: "addr \<Rightarrow> addr \<Rightarrow> 'a key_state_scheme \<Rightarrow> addr option"
where
  "button_find_walk data e s =
     (if e = NULL then Some NULL
      else if bt_user_data (buttons s e) = data then Some e
      else button_find_walk data (bt_next (buttons s e)) s)"

definition button_find_with_user_data :: "addr \<Rightarrow> 'a key_state_scheme \<Rightarrow> addr option" where
  "button_find_with_user_data data s = button_find_walk data (head_handle s) s"

partial_function (option) button_ticks_walk ::
  "'a pin_reader \<Rightarrow> 'a btn_callback \<Rightarrow> addr \<Rightarrow> 'a key_state_scheme \<Rightarrow> 'a key_state_scheme option"
where
  "button_ticks_walk hal run target s =
     (if target = NULL then Some s
      else let s = button_handler hal run target s
           in button_ticks_walk hal run (bt_next (buttons s target)) s)"

definition button_ticks ::
  "'a pin_reader \<Rightarrow> 'a btn_callback \<Rightarrow> 'a key_state_scheme \<Rightarrow> 'a key_state_scheme option"
where
  "button_ticks hal run s = button_ticks_walk hal run (head_handle s) s"

section \<open>What the recogniser promises\<close>

text \<open>
  The phases of a gesture: the button is up and nothing is pending, it is down for the first
  time since so many ticks, it was released after so many presses, it is down again, or it is
  held beyond the limit of a long press. A step takes the debounced level of the tick.
\<close>

datatype gesture = Idle | Down nat | Up "4 word" nat | Again "4 word" u16 | Held

fun gesture_step :: "bool \<Rightarrow> gesture \<Rightarrow> gesture \<times> PRESS_EVT list" where
  "gesture_step down Idle = (if down then (Down 0, [PRESS_DOWN]) else (Idle, []))"
| "gesture_step down (Down n) =
     (if \<not> down then (Up 1 0, [PRESS_UP])
      else if LONG_TICKS < n + 1 then (Held, [LONG_PRESS_START])
      else (Down (n + 1), []))"
| "gesture_step down (Up r n) =
     (if down
      then (Again (r + 1) 0, PRESS_DOWN # (if r + 1 = 2 then [DOUBLE_CLICK] else []) @ [PRESS_REPEAT])
      else if SHORT_TICKS < n + 1 then (Idle, if r = 1 then [SINGLE_CLICK] else [])
      else (Up r (n + 1), []))"
| "gesture_step down (Again r n) =
     (if down then (Again r (n + 1), [])
      else (if unat (n + 1) < SHORT_TICKS then Up r 0 else Idle, [PRESS_UP]))"
| "gesture_step down Held = (if down then (Held, [LONG_PRESS_HOLD]) else (Idle, [PRESS_UP]))"

text \<open>
  The debouncer keeps the accepted level and the number of readings in a row that differ from
  it; the recogniser feeds the accepted level to the gesture.
\<close>

fun debounce_step :: "bool \<Rightarrow> bool \<times> nat \<Rightarrow> bool \<times> nat" where
  "debounce_step b (d, c) =
     (if b = d then (d, 0) else if DEBOUNCE_TICKS \<le> c + 1 then (b, 0) else (d, c + 1))"

fun recogniser_step :: "bool \<Rightarrow> gesture \<times> bool \<times> nat \<Rightarrow> (gesture \<times> bool \<times> nat) \<times> PRESS_EVT list"
where
  "recogniser_step b (g, dc) =
     (let dc' = debounce_step b dc; (g', evs) = gesture_step (fst dc') g in ((g', dc'), evs))"

fun recogniser_run ::
  "bool list \<Rightarrow> gesture \<times> bool \<times> nat \<Rightarrow> (gesture \<times> bool \<times> nat) \<times> PRESS_EVT list"
where
  "recogniser_run [] q = (q, [])"
| "recogniser_run (b # bs) q =
     (let (q1, e1) = recogniser_step b q; (q2, e2) = recogniser_run bs q1 in (q2, e1 @ e2))"

definition gesture_of :: "BUTTON_S \<Rightarrow> gesture" where
  "gesture_of h =
     (if bt_state h = 0 then Idle
      else if bt_state h = 1 then Down (unat (bt_ticks h))
      else if bt_state h = 2 then Up (bt_repeat h) (unat (bt_ticks h))
      else if bt_state h = 3 then Again (bt_repeat h) (bt_ticks h)
      else Held)"

definition button_abs :: "BUTTON_S \<Rightarrow> gesture \<times> bool \<times> nat" where
  "button_abs h =
     (gesture_of h, bt_button_level h = bt_active_level h, unat (bt_debounce_cnt h))"

definition button_ok :: "BUTTON_S \<Rightarrow> bool" where
  "button_ok h \<longleftrightarrow>
     bt_state h \<in> {0, 1, 2, 3, 5} \<and> unat (bt_debounce_cnt h) < DEBOUNCE_TICKS \<and>
     length (bt_cb h) = evt_num number_of_event \<and>
     (bt_state h = 1 \<longrightarrow> unat (bt_ticks h) \<le> LONG_TICKS \<and> bt_repeat h = 1) \<and>
     (bt_state h = 2 \<longrightarrow> unat (bt_ticks h) \<le> SHORT_TICKS)"

definition attached :: "BUTTON_S \<Rightarrow> PRESS_EVT \<Rightarrow> bool" where
  "attached h ev \<longleftrightarrow> bt_cb h ! evt_num ev \<noteq> NULL"

definition same_config :: "BUTTON_S \<Rightarrow> BUTTON_S \<Rightarrow> bool" where
  "same_config h h' \<longleftrightarrow>
     bt_active_level h' = bt_active_level h \<and> bt_user_data h' = bt_user_data h \<and>
     bt_hal_button_Level h' = bt_hal_button_Level h \<and> bt_cb h' = bt_cb h \<and> bt_next h' = bt_next h"

text \<open>Callbacks that leave the recogniser's own state alone.\<close>

definition passive_btn :: "'a btn_callback \<Rightarrow> bool" where
  "passive_btn run \<longleftrightarrow>
     (\<forall>c p s. buttons (run c p s) = buttons s \<and> head_handle (run c p s) = head_handle s \<and>
              fired (run c p s) = fired s)"

definition button_run ::
  "'a btn_callback \<Rightarrow> addr \<Rightarrow> u8 list \<Rightarrow> 'a key_state_scheme \<Rightarrow> 'a key_state_scheme"
where
  "button_run run p = fold (\<lambda>r. button_handler (\<lambda>_ _ _. r) run p)"

section \<open>The handler refines the recogniser\<close>

lemma set_button_simps [simp]:
  "buttons (set_button p f s) = (buttons s)(p := f (buttons s p))"
  "head_handle (set_button p f s) = head_handle s"
  "fired (set_button p f s) = fired s"
  by (simp_all add: set_button_def)

lemma EVENT_CB_simps:
  assumes "passive_btn run"
  shows "buttons (EVENT_CB run p ev s) = buttons s"
    and "head_handle (EVENT_CB run p ev s) = head_handle s"
    and "fired (EVENT_CB run p ev s) =
           fired s @ (if attached (buttons s p) ev then [(p, ev)] else [])"
  using assms by (simp_all add: EVENT_CB_def passive_btn_def attached_def Let_def)

lemma set_event_simps [simp]:
  "buttons (set_event p ev s) = (buttons s)(p := (buttons s p)\<lparr>bt_event := evt_code ev\<rparr>)"
  "head_handle (set_event p ev s) = head_handle s"
  "fired (set_event p ev s) = fired s"
  by (simp_all add: set_event_def)

lemma attached_cong [simp]:
  "attached (h\<lparr>bt_event := x\<rparr>) ev = attached h ev"
  "attached (h\<lparr>bt_repeat := r\<rparr>) ev = attached h ev"
  "attached (h\<lparr>bt_ticks := n\<rparr>) ev = attached h ev"
  by (simp_all add: attached_def)

text \<open>One turn of the state machine on a handle whose tick counter has been advanced.\<close>

definition switch_ready :: "BUTTON_S \<Rightarrow> bool" where
  "switch_ready h \<longleftrightarrow>
     bt_state h \<in> {0, 1, 2, 3, 5} \<and>
     (bt_state h = 1 \<longrightarrow> 0 < unat (bt_ticks h) \<and> unat (bt_ticks h) \<le> LONG_TICKS + 1 \<and> bt_repeat h = 1) \<and>
     (bt_state h = 2 \<longrightarrow> 0 < unat (bt_ticks h) \<and> unat (bt_ticks h) \<le> SHORT_TICKS + 1)"

definition gesture_before :: "BUTTON_S \<Rightarrow> gesture" where
  "gesture_before h =
     (if bt_state h = 0 then Idle
      else if bt_state h = 1 then Down (unat (bt_ticks h) - 1)
      else if bt_state h = 2 then Up (bt_repeat h) (unat (bt_ticks h) - 1)
      else if bt_state h = 3 then Again (bt_repeat h) (bt_ticks h - 1)
      else Held)"

lemma button_switch_refines:
  fixes s :: "'a key_state_scheme"
  assumes run: "passive_btn run" and ready: "switch_ready (buttons s p)"
  defines "h \<equiv> buttons s p" and "t \<equiv> button_switch run p s"
  defines "r \<equiv> gesture_step (bt_button_level h = bt_active_level h) (gesture_before h)"
  shows "\<exists>h'. buttons t = (buttons s)(p := h') \<and> head_handle t = head_handle s \<and>
           fired t = fired s @ map (Pair p) (filter (attached h) (snd r)) \<and>
           gesture_of h' = fst r \<and> bt_state h' \<in> {0, 1, 2, 3, 5} \<and>
           (bt_state h' = 1 \<longrightarrow> unat (bt_ticks h') \<le> LONG_TICKS \<and> bt_repeat h' = 1) \<and>
           (bt_state h' = 2 \<longrightarrow> unat (bt_ticks h') \<le> SHORT_TICKS) \<and>
           bt_button_level h' = bt_button_level h \<and>
           bt_debounce_cnt h' = bt_debounce_cnt h \<and> same_config h h'"
proof -
  note cb = EVENT_CB_simps [OF run]
  consider "bt_state h = 0" | "bt_state h = 1" | "bt_state h = 2" | "bt_state h = 3" | "bt_state h = 5"
    using ready by (auto simp: switch_ready_def h_def)
  then show ?thesis
    using ready unfolding t_def r_def h_def
    by (intro exI [of _ "buttons (button_switch run p s) p"], cases)
      (auto simp: button_switch_def gesture_before_def gesture_of_def switch_ready_def same_config_def
         cb Let_def tick_limits)
qed

lemma one_bit_cases: "(x :: 1 word) = 0 \<or> x = 1"
proof -
  have "unat x < 2 ^ LENGTH(1)" by (rule unsigned_less)
  then have "unat x = 0 \<or> unat x = 1" by auto
  then show ?thesis by (auto simp: word_unat_eq_iff)
qed

lemma unat_Suc_word: "unat (x :: 'a::len word) + 1 < 2 ^ LENGTH('a) \<Longrightarrow> unat (x + 1) = unat x + 1"
  by (simp add: unat_add_lem [THEN iffD1])

text \<open>A pin reader returns 0 or 1.\<close>

definition pin_value :: "u8 \<Rightarrow> bool" where
  "pin_value r \<longleftrightarrow> r = 0 \<or> r = 1"

definition reads_active :: "u8 \<Rightarrow> BUTTON_S \<Rightarrow> bool" where
  "reads_active r h \<longleftrightarrow> r = ucast (bt_active_level h)"

lemma button_debounce_refines:
  assumes "pin_value r" "unat (bt_debounce_cnt h) < DEBOUNCE_TICKS"
  defines "h' \<equiv> button_debounce r h"
  shows "(bt_button_level h' = bt_active_level h, unat (bt_debounce_cnt h')) =
           debounce_step (reads_active r h) (bt_button_level h = bt_active_level h, unat (bt_debounce_cnt h))"
    and "unat (bt_debounce_cnt h') < DEBOUNCE_TICKS"
    and "\<exists>l c. h' = h\<lparr>bt_button_level := l, bt_debounce_cnt := c\<rparr>"
proof -
  have c: "unat (bt_debounce_cnt h + 1) = unat (bt_debounce_cnt h) + 1"
    using assms(2) by (intro unat_Suc_word) (simp add: tick_limits)
  show "(bt_button_level h' = bt_active_level h, unat (bt_debounce_cnt h')) =
          debounce_step (reads_active r h) (bt_button_level h = bt_active_level h, unat (bt_debounce_cnt h))"
    using assms(1,2) one_bit_cases [of "bt_button_level h"] one_bit_cases [of "bt_active_level h"]
    by (auto simp: h'_def button_debounce_def reads_active_def pin_value_def c Let_def tick_limits)
  show "unat (bt_debounce_cnt h') < DEBOUNCE_TICKS"
    using assms(2) by (auto simp: h'_def button_debounce_def Let_def tick_limits)
  show "\<exists>l c. h' = h\<lparr>bt_button_level := l, bt_debounce_cnt := c\<rparr>"
    by (cases h) (auto simp: h'_def button_debounce_def Let_def)
qed

lemma button_handler_refines:
  fixes s :: "'a key_state_scheme" and hal :: "'a pin_reader"
  assumes run: "passive_btn run" and ok: "button_ok (buttons s p)"
  defines "h \<equiv> buttons s p" and "t \<equiv> button_handler hal run p s"
  defines "r \<equiv> hal (bt_hal_button_Level h) p s"
  assumes pin: "pin_value r"
  shows "\<exists>h'. buttons t = (buttons s)(p := h') \<and> head_handle t = head_handle s \<and> button_ok h' \<and>
           same_config h h' \<and> button_abs h' = fst (recogniser_step (reads_active r h) (button_abs h)) \<and>
           fired t = fired s @
             map (Pair p) (filter (attached h) (snd (recogniser_step (reads_active r h) (button_abs h))))"
proof -
  define h1 where "h1 = (if bt_state h > 0 then h\<lparr>bt_ticks := bt_ticks h + 1\<rparr> else h)"
  define h2 where "h2 = button_debounce r h1"
  define s2 where "s2 = set_button p (\<lambda>_. h2) s"
  have t: "t = button_switch run p s2"
    by (simp add: t_def s2_def h2_def h1_def r_def h_def button_handler_def Let_def set_button_def)
  have cnt1: "unat (bt_debounce_cnt h1) < DEBOUNCE_TICKS"
    using ok by (simp add: h1_def h_def button_ok_def)
  note deb = button_debounce_refines [OF pin cnt1, folded h2_def]
  obtain l c where h2: "h2 = h1\<lparr>bt_button_level := l, bt_debounce_cnt := c\<rparr>" using deb(3) by blast
  have tick: "bt_state h \<noteq> 0 \<Longrightarrow> unat (bt_ticks h) \<le> 200 \<Longrightarrow> unat (bt_ticks h + 1) = unat (bt_ticks h) + 1"
    by (intro unat_Suc_word) simp
  have ready: "switch_ready h2"
    using ok tick by (auto simp: switch_ready_def h2 h1_def button_ok_def h_def tick_limits)
  have before: "gesture_before h2 = gesture_of h"
    using ok tick
    by (auto simp: gesture_before_def gesture_of_def h2 h1_def button_ok_def h_def tick_limits)
  have fields: "bt_active_level h2 = bt_active_level h" "same_config h h2" "attached h2 = attached h"
    "bt_cb h2 = bt_cb h" "reads_active r h1 = reads_active r h"
    "bt_active_level h1 = bt_active_level h" "bt_button_level h1 = bt_button_level h"
    "bt_debounce_cnt h1 = bt_debounce_cnt h"
    by (auto simp: h2 h1_def same_config_def attached_def reads_active_def fun_eq_iff)
  from button_switch_refines [OF run, of s2 p] ready
  obtain h' where h': "buttons t = (buttons s2)(p := h')" "head_handle t = head_handle s2"
    "fired t = fired s2 @ map (Pair p) (filter (attached h2)
       (snd (gesture_step (bt_button_level h2 = bt_active_level h2) (gesture_before h2))))"
    "gesture_of h' = fst (gesture_step (bt_button_level h2 = bt_active_level h2) (gesture_before h2))"
    "bt_state h' \<in> {0, 1, 2, 3, 5}"
    "bt_state h' = 1 \<longrightarrow> unat (bt_ticks h') \<le> LONG_TICKS \<and> bt_repeat h' = 1"
    "bt_state h' = 2 \<longrightarrow> unat (bt_ticks h') \<le> SHORT_TICKS"
    "bt_button_level h' = bt_button_level h2" "bt_debounce_cnt h' = bt_debounce_cnt h2" "same_config h2 h'"
    by (auto simp: s2_def t)
  have dc: "debounce_step (reads_active r h) (bt_button_level h = bt_active_level h, unat (bt_debounce_cnt h)) =
      (bt_button_level h2 = bt_active_level h, unat (bt_debounce_cnt h2))"
    using deb(1) by (simp only: fields)
  have step: "recogniser_step (reads_active r h) (button_abs h) =
      ((fst (gesture_step (bt_button_level h2 = bt_active_level h) (gesture_of h)),
        bt_button_level h2 = bt_active_level h, unat (bt_debounce_cnt h2)),
       snd (gesture_step (bt_button_level h2 = bt_active_level h) (gesture_of h)))"
    by (simp only: button_abs_def recogniser_step.simps dc) (simp add: Let_def split_beta)
  have "button_ok h'"
    using h' deb(2) ok fields(4) by (auto simp: button_ok_def same_config_def h_def)
  moreover have "same_config h h'" using h'(10) fields(2) by (simp add: same_config_def)
  moreover have "button_abs h' = fst (recogniser_step (reads_active r h) (button_abs h))"
    using h' fields before by (simp add: step) (simp add: button_abs_def same_config_def)
  moreover have "fired t = fired s @
      map (Pair p) (filter (attached h) (snd (recogniser_step (reads_active r h) (button_abs h))))"
    using h'(3) fields before by (simp add: step s2_def)
  ultimately show ?thesis using h'(1,2) by (intro exI [of _ h']) (simp add: s2_def)
qed

lemma button_run_refines:
  assumes run: "passive_btn run" and "button_ok (buttons s p)" and "\<forall>r \<in> set rs. pin_value r"
  defines "h \<equiv> buttons s p" and "t \<equiv> button_run run p rs s"
  defines "q \<equiv> recogniser_run (map (\<lambda>r. reads_active r h) rs) (button_abs h)"
  shows "\<exists>h'. buttons t = (buttons s)(p := h') \<and> head_handle t = head_handle s \<and> button_ok h' \<and>
           same_config h h' \<and> button_abs h' = fst q \<and>
           fired t = fired s @ map (Pair p) (filter (attached h) (snd q))"
  using assms(2,3) unfolding h_def t_def q_def
proof (induction rs arbitrary: s)
  case Nil
  then show ?case
    by (intro exI [of _ "buttons s p"]) (simp add: button_run_def same_config_def)
next
  case (Cons r rs)
  let ?s1 = "button_handler (\<lambda>_ _ _. r) run p s"
  from button_handler_refines [OF run Cons.prems(1), of "\<lambda>_ _ _. r"] Cons.prems(2)
  obtain h1 where h1: "buttons ?s1 = (buttons s)(p := h1)" "head_handle ?s1 = head_handle s" "button_ok h1"
    "same_config (buttons s p) h1"
    "button_abs h1 = fst (recogniser_step (reads_active r (buttons s p)) (button_abs (buttons s p)))"
    "fired ?s1 = fired s @ map (Pair p) (filter (attached (buttons s p))
        (snd (recogniser_step (reads_active r (buttons s p)) (button_abs (buttons s p)))))"
    by auto
  have same: "reads_active x h1 = reads_active x (buttons s p)" "attached h1 = attached (buttons s p)" for x
    using h1(4) by (auto simp: same_config_def reads_active_def attached_def fun_eq_iff)
  have ok1: "button_ok (buttons ?s1 p)" and h1_def: "buttons ?s1 p = h1" using h1(1,3) by simp_all
  from Cons.IH [of ?s1] Cons.prems(2) ok1
  obtain h2 where h2: "buttons (button_run run p rs ?s1) = (buttons ?s1)(p := h2)"
    "head_handle (button_run run p rs ?s1) = head_handle ?s1" "button_ok h2" "same_config h1 h2"
    "button_abs h2 = fst (recogniser_run (map (\<lambda>r. reads_active r (buttons s p)) rs) (button_abs h1))"
    "fired (button_run run p rs ?s1) = fired ?s1 @ map (Pair p) (filter (attached (buttons s p))
        (snd (recogniser_run (map (\<lambda>r. reads_active r (buttons s p)) rs) (button_abs h1))))"
    unfolding h1_def same by fastforce
  have "button_run run p (r # rs) s = button_run run p rs ?s1" by (simp add: button_run_def)
  then show ?case
    using h1 h2
    by (intro exI [of _ h2]) (simp add: split_beta Let_def same_config_def)
qed

section \<open>Gestures\<close>

fun gesture_hold :: "bool \<Rightarrow> nat \<Rightarrow> gesture \<Rightarrow> gesture \<times> PRESS_EVT list" where
  "gesture_hold b 0 g = (g, [])"
| "gesture_hold b (Suc k) g =
     (let (g1, e1) = gesture_step b g; (g2, e2) = gesture_hold b k g1 in (g2, e1 @ e2))"

lemma gesture_hold_add:
  "gesture_hold b (i + j) g =
     (let (g1, e1) = gesture_hold b i g; (g2, e2) = gesture_hold b j g1 in (g2, e1 @ e2))"
  by (induction i arbitrary: g) (simp_all add: split_beta Let_def)

lemma gesture_hold_idle [simp]: "gesture_hold False k Idle = (Idle, [])"
  by (induction k) simp_all

lemma gesture_hold_held [simp]: "gesture_hold True k Held = (Held, replicate k LONG_PRESS_HOLD)"
  by (induction k) simp_all

lemma gesture_hold_down [simp]:
  "n + k \<le> LONG_TICKS \<Longrightarrow> gesture_hold True k (Down n) = (Down (n + k), [])"
  by (induction k arbitrary: n) simp_all

lemma gesture_hold_up [simp]:
  "n + k \<le> SHORT_TICKS \<Longrightarrow> gesture_hold False k (Up r n) = (Up r (n + k), [])"
  by (induction k arbitrary: n) simp_all

lemma gesture_hold_again [simp]:
  "gesture_hold True k (Again r n) = (Again r (n + of_nat k), [])"
  by (induction k arbitrary: n) (simp_all add: add.assoc)

lemma recogniser_run_append:
  "recogniser_run (xs @ ys) q =
     (let (q1, e1) = recogniser_run xs q; (q2, e2) = recogniser_run ys q1 in (q2, e1 @ e2))"
  by (induction xs arbitrary: q) (simp_all add: split_beta Let_def)

lemma recogniser_steady:
  "recogniser_run (replicate k b) (g, b, 0) =
     ((fst (gesture_hold b k g), b, 0), snd (gesture_hold b k g))"
  by (induction k arbitrary: g) (simp_all add: split_beta Let_def)

lemma recogniser_glitch:
  "c + k < DEBOUNCE_TICKS \<Longrightarrow>
     recogniser_run (replicate k b) (g, \<not> b, c) =
       ((fst (gesture_hold (\<not> b) k g), \<not> b, c + k), snd (gesture_hold (\<not> b) k g))"
  by (induction k arbitrary: g c) (simp_all add: split_beta Let_def)

text \<open>A level that stays for six readings or more is seen by the gesture five ticks late.\<close>

lemma recogniser_flip:
  assumes "6 \<le> n"
  shows "recogniser_run (replicate n b) (g, \<not> b, 0) =
    (let (g1, e1) = gesture_hold (\<not> b) 5 g; (g2, e2) = gesture_hold b (n - 5) g1
     in ((g2, b, 0), e1 @ e2))"
proof -
  obtain k where "n = 6 + k" using le_Suc_ex [OF assms] by blast
  then have k: "n = 5 + Suc k" by simp
  have "recogniser_run (replicate 5 b) (g, \<not> b, 0) =
      ((fst (gesture_hold (\<not> b) 5 g), \<not> b, 5), snd (gesture_hold (\<not> b) 5 g))"
    using recogniser_glitch [of 0 5 b g] by (simp add: tick_limits)
  moreover have "recogniser_run (replicate (Suc k) b) (g1, \<not> b, 5) =
      ((fst (gesture_hold b (Suc k) g1), b, 0), snd (gesture_hold b (Suc k) g1))" for g1
    by (simp add: recogniser_steady tick_limits split_beta Let_def)
  ultimately show ?thesis
    unfolding k replicate_add recogniser_run_append by (simp add: split_beta Let_def)
qed

lemma recogniser_press:
  assumes "6 \<le> n" "6 \<le> m"
  shows "recogniser_run (replicate n True @ replicate m False) (g, False, 0) =
    (let (g1, e1) = gesture_hold False 5 g; (g2, e2) = gesture_hold True n g1;
         (g3, e3) = gesture_hold False (m - 5) g2
     in ((g3, False, 0), e1 @ e2 @ e3))"
proof -
  have n: "n = (n - 5) + 5" using assms by simp
  have hold: "gesture_hold True n g1 =
      (let (g2, e2) = gesture_hold True (n - 5) g1; (g3, e3) = gesture_hold True 5 g2 in (g3, e2 @ e3))" for g1
    by (subst n) (rule gesture_hold_add)
  show ?thesis
    unfolding recogniser_run_append hold
    using recogniser_flip [OF assms(1), of True g] recogniser_flip [OF assms(2), of False]
    by (simp add: split_beta Let_def)
qed

fun click_events :: "nat \<Rightarrow> PRESS_EVT list" where
  "click_events 0 = []"
| "click_events (Suc k) =
     click_events k @
     (if k = 0 then [PRESS_DOWN, PRESS_UP]
      else PRESS_DOWN # (if of_nat (Suc k) = (2 :: 4 word) then [DOUBLE_CLICK] else []) @
           [PRESS_REPEAT, PRESS_UP])"

lemma gesture_first_press:
  "1 \<le> n \<Longrightarrow> n \<le> LONG_TICKS + 1 \<Longrightarrow> gesture_hold True n Idle = (Down (n - 1), [PRESS_DOWN])"
  by (cases n) simp_all

lemma gesture_first_release:
  "1 \<le> m \<Longrightarrow> m \<le> SHORT_TICKS + 1 \<Longrightarrow> gesture_hold False m (Down d) = (Up 1 (m - 1), [PRESS_UP])"
  by (cases m) simp_all

lemma gesture_next_press:
  assumes "1 \<le> n" "n < SHORT_TICKS" "1 \<le> m" "m \<le> SHORT_TICKS + 1"
  shows "gesture_hold True n (Up r x) = (Again (r + 1) (of_nat (n - 1)),
           PRESS_DOWN # (if r + 1 = 2 then [DOUBLE_CLICK] else []) @ [PRESS_REPEAT])"
    and "gesture_hold False m (Again r (of_nat (n - 1))) = (Up r (m - 1), [PRESS_UP])"
proof -
  show "gesture_hold True n (Up r x) = (Again (r + 1) (of_nat (n - 1)),
           PRESS_DOWN # (if r + 1 = 2 then [DOUBLE_CLICK] else []) @ [PRESS_REPEAT])"
    using assms by (cases n) simp_all
  have "unat (of_nat (n - 1) + 1 :: u16) = n"
    using assms(1,2) by (simp add: of_nat_diff tick_limits unsigned_of_nat take_bit_nat_eq_self)
  then show "gesture_hold False m (Again r (of_nat (n - 1))) = (Up r (m - 1), [PRESS_UP])"
    using assms by (cases m) simp_all
qed

lemma concat_replicate_Suc: "concat (replicate (Suc j) xs) = concat (replicate j xs) @ xs"
  by (induction j) simp_all

lemma recogniser_clicks:
  assumes "6 \<le> n" "n < SHORT_TICKS" "6 \<le> m" "m \<le> SHORT_TICKS + 1"
  shows "recogniser_run (concat (replicate (Suc k) (replicate n True @ replicate m False))) (Idle, False, 0) =
           ((Up (of_nat (Suc k)) (m - 6), False, 0), click_events (Suc k))"
proof (induction k)
  case 0
  then show ?case
    using assms gesture_first_press [of n] gesture_first_release [of "m - 5"]
    by (simp add: recogniser_press tick_limits)
next
  case (Suc k)
  have "gesture_hold False 5 (Up r (m - 6)) = (Up r (m - 1), [])" for r
    using assms by (simp add: tick_limits)
  then have press: "recogniser_run (replicate n True @ replicate m False) (Up r (m - 6), False, 0) =
      ((Up (r + 1) (m - 6), False, 0),
       PRESS_DOWN # (if r + 1 = 2 then [DOUBLE_CLICK] else []) @ [PRESS_REPEAT, PRESS_UP])" for r
    using assms gesture_next_press [of n "m - 5"] by (simp add: recogniser_press tick_limits)
  have Suc_of_nat: "of_nat (Suc (Suc k)) = of_nat (Suc k) + (1 :: 4 word)" by simp
  show ?case
    unfolding concat_replicate_Suc [of "Suc k"] recogniser_run_append [of "concat _"] Suc.IH Suc_of_nat
      click_events.simps(2) [of "Suc k"]
    by (simp only: press Let_def split_beta fst_conv snd_conv) simp
qed

text \<open>Input sequences of a gesture, as pin readings of a button.\<close>

definition active_pin :: "BUTTON_S \<Rightarrow> u8" where
  "active_pin h = ucast (bt_active_level h)"

definition idle_pin :: "BUTTON_S \<Rightarrow> u8" where
  "idle_pin h = ucast (bt_active_level h + 1)"

definition press :: "BUTTON_S \<Rightarrow> nat \<Rightarrow> nat \<Rightarrow> u8 list" where
  "press h n m = replicate n (active_pin h) @ replicate m (idle_pin h)"

lemma pins [simp]:
  "pin_value (active_pin h)" "pin_value (idle_pin h)"
  "reads_active (active_pin h) h" "\<not> reads_active (idle_pin h) h"
  using one_bit_cases [of "bt_active_level h"]
  by (auto simp: pin_value_def active_pin_def idle_pin_def reads_active_def)

lemma press_simps [simp]:
  "map (\<lambda>r. reads_active r h) (press h n m) = replicate n True @ replicate m False"
  "\<forall>r \<in> set (press h n m). pin_value r"
  by (auto simp: press_def)

lemma button_run_gesture:
  assumes "passive_btn run" "button_ok (buttons s p)" "button_abs (buttons s p) = q"
    and "\<forall>r \<in> set rs. pin_value r"
    and "map (\<lambda>r. reads_active r (buttons s p)) rs = bs" "recogniser_run bs q = (q', evs)"
  shows "fired (button_run run p rs s) = fired s @ map (Pair p) (filter (attached (buttons s p)) evs)"
    and "button_abs (buttons (button_run run p rs s) p) = q'"
  using button_run_refines [OF assms(1,2,4)] assms(3,5,6) by auto

lemma recogniser_clicks_settle:
  assumes "6 \<le> n" "n < SHORT_TICKS" "6 \<le> m" "m \<le> SHORT_TICKS + 1" "SHORT_TICKS < m + w - 6"
  shows "recogniser_run (concat (replicate (Suc k) (replicate n True @ replicate m False)) @ replicate w False)
      (Idle, False, 0) =
    ((Idle, False, 0), click_events (Suc k) @ (if Suc k mod 16 = 1 then [SINGLE_CLICK] else []))"
proof -
  define a where "a = SHORT_TICKS - (m - 6)"
  have w: "w = a + Suc (w - a - 1)" using assms by (simp add: a_def tick_limits)
  have "gesture_hold False a (Up r (m - 6)) = (Up r SHORT_TICKS, [])" for r
    using assms by (simp add: a_def tick_limits)
  then have "gesture_hold False w (Up r (m - 6)) = (Idle, if r = 1 then [SINGLE_CLICK] else [])" for r
    by (subst w, subst gesture_hold_add) simp
  moreover have "(of_nat (Suc k) = (1 :: 4 word)) = (Suc k mod 16 = 1)"
    using word_of_nat_eq_iff [of "Suc k" 1, where 'a = 4] by (simp add: take_bit_eq_mod)
  ultimately show ?thesis
    unfolding recogniser_run_append [of "concat _"] recogniser_clicks [OF assms(1-4)]
    by (simp only: Let_def split_beta fst_conv snd_conv recogniser_steady)
qed

lemma recogniser_long_press:
  assumes "LONG_TICKS + 2 \<le> n" "6 \<le> m"
  shows "recogniser_run (replicate n True @ replicate m False) (Idle, False, 0) =
    ((Idle, False, 0),
     [PRESS_DOWN, LONG_PRESS_START] @ replicate (n - (LONG_TICKS + 2)) LONG_PRESS_HOLD @ [PRESS_UP])"
proof -
  have n: "n = (LONG_TICKS + 1) + Suc (n - (LONG_TICKS + 2))" using assms by simp
  have "gesture_hold True (LONG_TICKS + 1) Idle = (Down LONG_TICKS, [PRESS_DOWN])"
    by (simp add: gesture_first_press)
  then have "gesture_hold True n Idle =
      (Held, [PRESS_DOWN, LONG_PRESS_START] @ replicate (n - (LONG_TICKS + 2)) LONG_PRESS_HOLD)"
    by (subst n, subst gesture_hold_add) simp
  moreover have "gesture_hold False (m - 5) Held = (Idle, [PRESS_UP])"
    using assms(2) by (cases "m - 5") simp_all
  moreover have "6 \<le> n" using assms(1) by (simp add: tick_limits)
  ultimately show ?thesis using assms(2) by (simp add: recogniser_press)
qed

section \<open>The work list is a list\<close>

fun chain :: "(addr \<Rightarrow> BUTTON_S) \<Rightarrow> addr \<Rightarrow> addr list \<Rightarrow> bool" where
  "chain B a [] \<longleftrightarrow> a = NULL"
| "chain B a (x # xs) \<longleftrightarrow> a = x \<and> x \<noteq> NULL \<and> chain B (bt_next (B x)) xs"

lemma chain_unique: "chain B a xs \<Longrightarrow> chain B a ys \<Longrightarrow> xs = ys"
proof (induction xs arbitrary: a ys)
  case Nil
  then show ?case by (cases ys) auto
next
  case (Cons x xs)
  then show ?case by (cases ys) auto
qed

lemma chain_suffix: "chain B a (xs @ y # ys) \<Longrightarrow> chain B y (y # ys)"
  by (induction xs arbitrary: a) auto

lemma chain_distinct: "chain B a xs \<Longrightarrow> distinct xs"
proof (induction xs arbitrary: a)
  case (Cons x xs)
  have "x \<notin> set xs"
  proof
    assume "x \<in> set xs"
    then obtain us vs where xs: "xs = us @ x # vs" by (auto simp: in_set_conv_decomp)
    then have "chain B x (x # vs)" using chain_suffix [of B a "x # us" x vs] Cons.prems by simp
    moreover have "chain B x (x # xs)" using Cons.prems by simp
    ultimately have "x # xs = x # vs" by (rule chain_unique [rotated])
    then show False by (simp add: xs)
  qed
  then show ?case using Cons by auto
qed simp

lemma chain_cong: "(\<And>x. x \<in> set xs \<Longrightarrow> bt_next (B' x) = bt_next (B x)) \<Longrightarrow> chain B' a xs = chain B a xs"
  by (induction xs arbitrary: a) auto

lemma chain_NULL: "chain B a xs \<Longrightarrow> NULL \<notin> set xs"
  by (induction xs arbitrary: a) auto

definition button_list :: "'a key_state_scheme \<Rightarrow> addr list \<Rightarrow> bool" where
  "button_list s xs \<longleftrightarrow> chain (buttons s) (head_handle s) xs"

lemma button_start_walk_list:
  "chain (buttons s) a xs \<Longrightarrow> button_start_walk p a s = Some (p \<in> set xs)"
proof (induction xs arbitrary: a)
  case Nil
  then show ?case by (simp add: button_start_walk.simps)
next
  case (Cons x xs)
  then show ?case by (subst button_start_walk.simps) auto
qed

lemma button_find_walk_list:
  "chain (buttons s) a xs \<Longrightarrow>
     button_find_walk data a s =
       Some (case find (\<lambda>x. bt_user_data (buttons s x) = data) xs of None \<Rightarrow> NULL | Some x \<Rightarrow> x)"
proof (induction xs arbitrary: a)
  case Nil
  then show ?case by (simp add: button_find_walk.simps)
next
  case (Cons x xs)
  then show ?case by (subst button_find_walk.simps) auto
qed

lemma button_stop_walk_list:
  assumes "chain (buttons s) (get_link cur s) ys" "\<And>q. cur = Next q \<Longrightarrow> q \<notin> set ys"
  shows "\<exists>t. button_stop_walk p cur s = Some t \<and> chain (buttons t) (get_link cur t) (removeAll p ys) \<and>
           (\<forall>q. q \<notin> set ys \<and> cur \<noteq> Next q \<longrightarrow> buttons t q = buttons s q) \<and>
           (\<forall>q. (buttons t q)\<lparr>bt_next := NULL\<rparr> = (buttons s q)\<lparr>bt_next := NULL\<rparr>) \<and>
           (cur \<noteq> Head \<longrightarrow> head_handle t = head_handle s) \<and> fired t = fired s"
  using assms
proof (induction ys arbitrary: cur s)
  case Nil
  then show ?case by (subst button_stop_walk.simps) auto
next
  case (Cons x ys)
  have x: "get_link cur s = x" "x \<noteq> NULL" "chain (buttons s) (bt_next (buttons s x)) ys" "x \<notin> set ys"
    using Cons.prems(1) chain_distinct [OF Cons.prems(1)] by auto
  show ?case
  proof (cases "x = p")
    case True
    let ?s1 = "set_link cur (bt_next (buttons s x)) s"
    have s1: "get_link cur ?s1 = bt_next (buttons s x)" "cur \<noteq> Head \<longrightarrow> head_handle ?s1 = head_handle s"
      "fired ?s1 = fired s" "(buttons ?s1 q)\<lparr>bt_next := NULL\<rparr> = (buttons s q)\<lparr>bt_next := NULL\<rparr>"
      "cur \<noteq> Next q \<Longrightarrow> buttons ?s1 q = buttons s q" for q
      by (cases cur; simp)+
    have "chain (buttons ?s1) (get_link cur ?s1) ys"
      unfolding s1(1) using x(3) Cons.prems(2)
      by (subst chain_cong [where B = "buttons s"]) (auto, metis s1(5))
    from Cons.IH [OF this] Cons.prems(2)
    obtain t where t: "button_stop_walk p cur ?s1 = Some t"
      "chain (buttons t) (get_link cur t) (removeAll p ys)"
      "\<And>q. q \<notin> set ys \<Longrightarrow> cur \<noteq> Next q \<Longrightarrow> buttons t q = buttons ?s1 q"
      "\<And>q. (buttons t q)\<lparr>bt_next := NULL\<rparr> = (buttons ?s1 q)\<lparr>bt_next := NULL\<rparr>"
      "cur \<noteq> Head \<Longrightarrow> head_handle t = head_handle ?s1" "fired t = fired ?s1"
      by auto
    have "button_stop_walk p cur s = Some t"
      using x t(1) True by (subst button_stop_walk.simps) simp
    then show ?thesis using t s1 True by (intro exI [of _ t]) simp
  next
    case False
    from Cons.IH [of s "Next x"] x
    obtain t where t: "button_stop_walk p (Next x) s = Some t"
      "chain (buttons t) (bt_next (buttons t x)) (removeAll p ys)"
      "\<And>q. q \<notin> set ys \<Longrightarrow> x \<noteq> q \<Longrightarrow> buttons t q = buttons s q"
      "\<And>q. (buttons t q)\<lparr>bt_next := NULL\<rparr> = (buttons s q)\<lparr>bt_next := NULL\<rparr>"
      "head_handle t = head_handle s" "fired t = fired s"
      by auto
    have "button_stop_walk p cur s = Some t"
      using x t(1) False by (subst button_stop_walk.simps) simp
    moreover have "get_link cur t = x"
      using x(1) t(3,5) Cons.prems(2) by (cases cur) auto
    ultimately show ?thesis using t x False by (intro exI [of _ t]) auto
  qed
qed

lemma button_switch_frame:
  assumes "passive_btn run"
  shows "bt_next (buttons (button_switch run p s) p) = bt_next (buttons s p)"
    and "q \<noteq> p \<Longrightarrow> buttons (button_switch run p s) q = buttons s q"
    and "head_handle (button_switch run p s) = head_handle s"
  unfolding button_switch_def Let_def
    if_distrib [of "\<lambda>s. bt_next (buttons s p)"] if_distrib [of "\<lambda>s. buttons s q"] if_distrib [of head_handle]
  by (simp_all only: set_button_simps set_event_simps EVENT_CB_simps [OF assms] fun_upd_same fun_upd_other
      if_cancel not_False_eq_True simp_thms if_distrib [of "\<lambda>s. buttons s q"] if_distrib [of head_handle])
    (simp add: EVENT_CB_simps [OF assms])

lemma button_handler_frame:
  assumes "passive_btn run"
  shows "bt_next (buttons (button_handler hal run p s) q) = bt_next (buttons s q)"
    and "q \<noteq> p \<Longrightarrow> buttons (button_handler hal run p s) q = buttons s q"
    and "head_handle (button_handler hal run p s) = head_handle s"
proof -
  show other: "q \<noteq> p \<Longrightarrow> buttons (button_handler hal run p s) q = buttons s q"
    by (simp add: button_handler_def Let_def button_switch_frame [OF assms])
  show "bt_next (buttons (button_handler hal run p s) q) = bt_next (buttons s q)"
    using other by (cases "q = p")
      (simp_all add: button_handler_def button_debounce_def Let_def button_switch_frame [OF assms])
  show "head_handle (button_handler hal run p s) = head_handle s"
    by (simp add: button_handler_def Let_def button_switch_frame [OF assms])
qed

lemma button_ticks_walk_list:
  assumes "passive_btn run" "chain (buttons s) a xs"
  shows "button_ticks_walk hal run a s = Some (fold (button_handler hal run) xs s)"
  using assms(2)
proof (induction xs arbitrary: a s)
  case Nil
  then show ?case by (simp add: button_ticks_walk.simps)
next
  case (Cons x xs)
  have "chain (buttons (button_handler hal run x s)) (bt_next (buttons (button_handler hal run x s) x)) xs"
    using Cons.prems by (subst chain_cong [where B = "buttons s"]) (auto simp: button_handler_frame [OF assms(1)])
  from Cons.IH [OF this] Cons.prems show ?case
    by (subst button_ticks_walk.simps) (simp add: Let_def)
qed

section \<open>Short glitches\<close>

definition glitchy :: "bool list \<Rightarrow> bool" where
  "glitchy bs \<longleftrightarrow> (\<forall>i. i + DEBOUNCE_TICKS \<le> length bs \<longrightarrow> (\<exists>j < DEBOUNCE_TICKS. \<not> bs ! (i + j)))"

lemma glitchy_snocD: "glitchy (bs @ [b]) \<Longrightarrow> glitchy bs"
  unfolding glitchy_def
proof (intro allI impI)
  fix i
  assume *: "\<forall>i. i + DEBOUNCE_TICKS \<le> length (bs @ [b]) \<longrightarrow> (\<exists>j < DEBOUNCE_TICKS. \<not> (bs @ [b]) ! (i + j))"
    and i: "i + DEBOUNCE_TICKS \<le> length bs"
  obtain j where "j < DEBOUNCE_TICKS" "\<not> (bs @ [b]) ! (i + j)" using *[rule_format, of i] i by auto
  then show "\<exists>j < DEBOUNCE_TICKS. \<not> bs ! (i + j)" using i by (auto simp: nth_append)
qed

lemma glitchy_trailing: "glitchy bs \<Longrightarrow> length (takeWhile (\<lambda>b. b) (rev bs)) < DEBOUNCE_TICKS"
proof (rule ccontr)
  assume g: "glitchy bs" and "\<not> length (takeWhile (\<lambda>b. b) (rev bs)) < DEBOUNCE_TICKS"
  then have len: "DEBOUNCE_TICKS \<le> length (takeWhile (\<lambda>b. b) (rev bs))" by simp
  also have "\<dots> \<le> length bs" using length_takeWhile_le [of "\<lambda>b. b" "rev bs"] by simp
  finally have "DEBOUNCE_TICKS \<le> length bs" .
  then obtain j where j: "j < DEBOUNCE_TICKS" "\<not> bs ! (length bs - DEBOUNCE_TICKS + j)"
    using g [unfolded glitchy_def, rule_format, of "length bs - DEBOUNCE_TICKS"] by auto
  define i where "i = DEBOUNCE_TICKS - 1 - j"
  have i: "i < length (takeWhile (\<lambda>b. b) (rev bs))" using len j(1) by (simp add: i_def)
  have "takeWhile (\<lambda>b. b) (rev bs) ! i" using nth_mem [OF i] set_takeWhileD by fastforce
  then have "rev bs ! i" using takeWhile_nth [OF i] by simp
  moreover have "rev bs ! i = bs ! (length bs - DEBOUNCE_TICKS + j)"
    using j(1) \<open>DEBOUNCE_TICKS \<le> length bs\<close> by (subst rev_nth) (auto simp: i_def intro: arg_cong [where f = "nth bs"])
  ultimately show False using j(2) by simp
qed

lemma recogniser_ignores_glitches:
  "glitchy bs \<Longrightarrow>
     recogniser_run bs (Idle, False, 0) = ((Idle, False, length (takeWhile (\<lambda>b. b) (rev bs))), [])"
proof (induction bs rule: rev_induct)
  case (snoc b bs)
  from snoc.IH [OF glitchy_snocD [OF snoc.prems]] glitchy_trailing [OF snoc.prems] show ?case
    by (cases b) (simp_all add: recogniser_run_append)
qed simp

section \<open>Properties\<close>

lemma fold_button_handlers:
  fixes level :: "addr \<Rightarrow> u8"
  defines "step \<equiv> \<lambda>s p. recogniser_step (reads_active (level p) (buttons s p)) (button_abs (buttons s p))"
  assumes run: "passive_btn run" and "distinct xs"
    and "\<forall>p \<in> set xs. button_ok (buttons s p) \<and> pin_value (level p)"
  defines "t \<equiv> fold (button_handler (\<lambda>_ p _. level p) run) xs s"
  shows "head_handle t = head_handle s \<and>
    (\<forall>p. p \<notin> set xs \<longrightarrow> buttons t p = buttons s p) \<and>
    (\<forall>p \<in> set xs. button_ok (buttons t p) \<and> same_config (buttons s p) (buttons t p) \<and>
                   button_abs (buttons t p) = fst (step s p)) \<and>
    fired t = fired s @ concat (map (\<lambda>p. map (Pair p) (filter (attached (buttons s p)) (snd (step s p)))) xs)"
  using assms(3,4) unfolding t_def
proof (induction xs arbitrary: s)
  case (Cons x xs)
  let ?s1 = "button_handler (\<lambda>_ p _. level p) run x s"
  from button_handler_refines [OF run, of s x "\<lambda>_ p _. level p"] Cons.prems
  obtain h' where h': "buttons ?s1 = (buttons s)(x := h')" "head_handle ?s1 = head_handle s" "button_ok h'"
    "same_config (buttons s x) h'" "button_abs h' = fst (step s x)"
    "fired ?s1 = fired s @ map (Pair x) (filter (attached (buttons s x)) (snd (step s x)))"
    by (auto simp: step_def)
  have rest: "p \<in> set xs \<Longrightarrow> buttons ?s1 p = buttons s p" for p
    using h'(1) Cons.prems(1) by auto
  have step: "p \<in> set xs \<Longrightarrow> step ?s1 p = step s p" for p using rest [of p] by (simp add: step_def)
  have IH: "head_handle (fold (button_handler (\<lambda>_ p _. level p) run) xs ?s1) = head_handle ?s1"
    "\<forall>p. p \<notin> set xs \<longrightarrow> buttons (fold (button_handler (\<lambda>_ p _. level p) run) xs ?s1) p = buttons ?s1 p"
    "\<forall>p \<in> set xs. button_ok (buttons (fold (button_handler (\<lambda>_ p _. level p) run) xs ?s1) p) \<and>
       same_config (buttons ?s1 p) (buttons (fold (button_handler (\<lambda>_ p _. level p) run) xs ?s1) p) \<and>
       button_abs (buttons (fold (button_handler (\<lambda>_ p _. level p) run) xs ?s1) p) = fst (step ?s1 p)"
    "fired (fold (button_handler (\<lambda>_ p _. level p) run) xs ?s1) = fired ?s1 @
       concat (map (\<lambda>p. map (Pair p) (filter (attached (buttons ?s1 p)) (snd (step ?s1 p)))) xs)"
    using Cons.IH [of ?s1] Cons.prems rest by simp_all
  have evs: "map (\<lambda>p. map (Pair p) (filter (attached (buttons ?s1 p)) (snd (step ?s1 p)))) xs =
      map (\<lambda>p. map (Pair p) (filter (attached (buttons s p)) (snd (step s p)))) xs"
    using rest step by simp
  show ?case
    using IH(1-3) IH(4) [unfolded evs] h' rest step Cons.prems(1) by simp
qed simp

text \<open>
  C6. A timer tick returns, keeps the list of buttons, and moves every registered button by
  exactly one step of the recogniser on its own pin reading: the callbacks that run are those
  of the events of the step that have one, button after button in list order. Buttons that are
  not on the list are left alone. The callbacks must not change the recogniser's own state.
\<close>

theorem button_ticks_refines:
  fixes level :: "addr \<Rightarrow> u8" and s :: "'a key_state_scheme"
  defines "step \<equiv> \<lambda>p. recogniser_step (reads_active (level p) (buttons s p)) (button_abs (buttons s p))"
  assumes "passive_btn run" "button_list s xs"
    and "\<forall>p \<in> set xs. button_ok (buttons s p) \<and> pin_value (level p)"
  shows "\<exists>t. button_ticks (\<lambda>_ p _. level p) run s = Some t \<and> button_list t xs \<and>
    (\<forall>p. p \<notin> set xs \<longrightarrow> buttons t p = buttons s p) \<and>
    (\<forall>p \<in> set xs. button_ok (buttons t p) \<and> same_config (buttons s p) (buttons t p) \<and>
                   button_abs (buttons t p) = fst (step p)) \<and>
    fired t = fired s @ concat (map (\<lambda>p. map (Pair p) (filter (attached (buttons s p)) (snd (step p)))) xs)"
proof -
  let ?t = "fold (button_handler (\<lambda>_ p _. level p) run) xs s"
  have l: "chain (buttons s) (head_handle s) xs" using assms(3) by (simp add: button_list_def)
  note fold = fold_button_handlers [OF assms(2) chain_distinct [OF l] assms(4)]
  have "button_ticks (\<lambda>_ p _. level p) run s = Some ?t"
    unfolding button_ticks_def by (rule button_ticks_walk_list [OF assms(2) l])
  moreover have "button_list ?t xs"
    using l fold unfolding button_list_def
    by (subst chain_cong [where B = "buttons s"]) (auto simp: same_config_def)
  ultimately show ?thesis using fold unfolding step_def by blast
qed

text \<open>
  C26. A button that is pressed k times in a row, each press shorter than 400 ms and each pause
  short enough, and then left alone, reports a press and a release for every press, a repeat for
  every press but the first and a double click at the second. The single click is reported when k is 1
  modulo 16, because the four-bit counter of presses wraps: also the seventeenth press in a row is
  reported as a single click.
\<close>

theorem button_clicks:
  fixes s :: "'a key_state_scheme"
  assumes "passive_btn run" "button_ok (buttons s p)" "button_abs (buttons s p) = (Idle, False, 0)"
    and "6 \<le> n" "n < SHORT_TICKS" "6 \<le> m" "m \<le> SHORT_TICKS + 1" "SHORT_TICKS < m + w - 6" "0 < k"
  shows "fired (button_run run p (concat (replicate k (press (buttons s p) n m)) @ replicate w (idle_pin (buttons s p))) s) =
    fired s @ map (Pair p) (filter (attached (buttons s p))
      (click_events k @ (if k mod 16 = 1 then [SINGLE_CLICK] else [])))"
proof -
  obtain j where j: "k = Suc j" using \<open>0 < k\<close> by (cases k) auto
  note run = recogniser_clicks_settle [OF assms(4-8), of j]
  show ?thesis
    unfolding j
    by (rule button_run_gesture(1) [OF assms(1-3) _ _ run])
      (auto simp: map_concat press_def)
qed

text \<open>A button at rest: active low, pin high, every event with a callback.\<close>

definition sample_button :: BUTTON_S where
  "sample_button =
     \<lparr>bt_ticks = 0, bt_repeat = 0, bt_event = 8, bt_state = 0, bt_debounce_cnt = 0,
      bt_active_level = 0, bt_button_level = 1, bt_user_data = 7,
      bt_hal_button_Level = 0x1000, bt_cb = replicate 7 0x2000, bt_next = NULL\<rparr>"

definition sample_keys :: key_state where
  "sample_keys =
     \<lparr>buttons = (\<lambda>_. zero_button)(0x100 := sample_button), head_handle = 0x100, fired = []\<rparr>"

lemma sample_keys_ok:
  "passive_btn (\<lambda>_ _ s. s)" "button_ok (buttons sample_keys 0x100)"
  "button_abs (buttons sample_keys 0x100) = (Idle, False, 0)" "button_list sample_keys [0x100]"
  "fired sample_keys = []" "attached (buttons sample_keys 0x100) PRESS_DOWN"
  "attached (buttons sample_keys 0x100) PRESS_UP" "attached (buttons sample_keys 0x100) SINGLE_CLICK"
  "attached (buttons sample_keys 0x100) LONG_PRESS_START"
  "attached (buttons sample_keys 0x100) LONG_PRESS_HOLD"
  by (simp_all add: passive_btn_def sample_keys_def sample_button_def button_ok_def button_abs_def
      gesture_of_def tick_limits button_list_def attached_def)

theorem button_ticks_refines_witness:
  "\<exists>t. button_ticks (\<lambda>_ p _. 0) (\<lambda>_ _ s. s) sample_keys = Some t \<and>
       snd (snd (button_abs (buttons t 0x100))) = 1 \<and> fired t = []"
  using button_ticks_refines [OF sample_keys_ok(1,4), of "\<lambda>_. 0"]
  by (simp add: pin_value_def tick_limits reads_active_def sample_keys_ok)
    (auto simp: sample_keys_def sample_button_def tick_limits)

theorem button_clicks_witness:
  "fired (button_run (\<lambda>_ _ s. s) 0x100
      (concat (replicate 1 (press (buttons sample_keys 0x100) 10 10)) @
       replicate 100 (idle_pin (buttons sample_keys 0x100))) sample_keys) =
   [(0x100, PRESS_DOWN), (0x100, PRESS_UP), (0x100, SINGLE_CLICK)]"
  using button_clicks [OF sample_keys_ok(1-3), of 10 10 100 1] by (simp add: tick_limits sample_keys_ok)

text \<open>
  C27. A button that is held for more than a second reports the press, the start of the long press
  at the right tick, one hold event for every further tick until the release is seen, and the
  release; afterwards it is at rest again. It reports no click.
\<close>

theorem button_long_press:
  fixes s :: "'a key_state_scheme"
  assumes "passive_btn run" "button_ok (buttons s p)" "button_abs (buttons s p) = (Idle, False, 0)"
    and "LONG_TICKS + 2 \<le> n" "6 \<le> m"
  shows "button_abs (buttons (button_run run p (press (buttons s p) n m) s) p) = (Idle, False, 0) \<and>
    fired (button_run run p (press (buttons s p) n m) s) =
      fired s @ map (Pair p) (filter (attached (buttons s p))
        ([PRESS_DOWN, LONG_PRESS_START] @ replicate (n - (LONG_TICKS + 2)) LONG_PRESS_HOLD @ [PRESS_UP]))"
proof -
  note run = recogniser_long_press [OF assms(4,5)]
  have pins: "\<forall>r \<in> set (press (buttons s p) n m). pin_value r" by simp
  show ?thesis
    using button_run_gesture [OF assms(1-3) pins _ run] by simp
qed

theorem button_long_press_witness:
  "fired (button_run (\<lambda>_ _ s. s) 0x100 (press (buttons sample_keys 0x100) 204 6) sample_keys) =
   [(0x100, PRESS_DOWN), (0x100, LONG_PRESS_START), (0x100, LONG_PRESS_HOLD), (0x100, LONG_PRESS_HOLD),
    (0x100, PRESS_UP)]"
  using button_long_press [OF sample_keys_ok(1-3), of 204 6]
  by (simp add: tick_limits numeral_2_eq_2 sample_keys_ok)

text \<open>
  Contact bounce is not seen: as long as no six readings in a row are active, a button at
  rest runs no callback and stays at rest.
\<close>

theorem button_ignores_glitches:
  fixes s :: "'a key_state_scheme"
  assumes "passive_btn run" "button_ok (buttons s p)" "button_abs (buttons s p) = (Idle, False, 0)"
    and "\<forall>r \<in> set rs. pin_value r" "glitchy (map (\<lambda>r. reads_active r (buttons s p)) rs)"
  shows "fired (button_run run p rs s) = fired s \<and>
         gesture_of (buttons (button_run run p rs s) p) = Idle"
  using button_run_gesture [OF assms(1-4) refl recogniser_ignores_glitches [OF assms(5)]]
  by (simp add: button_abs_def)

theorem button_ignores_glitches_witness:
  "fired (button_run (\<lambda>_ _ s. s) 0x100 [0, 0, 1, 0, 0, 0] sample_keys) = []"
proof -
  have "\<exists>j < 6. \<not> [True, True, False, True, True, True] ! j" by (intro exI [of _ 2]) simp
  then have "glitchy (map (\<lambda>r. reads_active r (buttons sample_keys 0x100)) [0, 0, 1, 0, 0, 0])"
    by (auto simp: glitchy_def tick_limits reads_active_def sample_keys_def sample_button_def)
  from button_ignores_glitches [OF sample_keys_ok(1-3) _ this] show ?thesis
    by (simp add: pin_value_def sample_keys_ok)
qed

text \<open>
  The work list behaves as a list: a new handle goes to its front and a handle that is on it is
  refused with -1 and changes nothing; stopping a handle takes it off, wherever it stands, and changes
  no other field of any handle; starting and stopping a new handle gives the old list back; a lookup
  by user data returns the first handle of the list with that data, or NULL. Every one of these
  walks comes to an end.
\<close>

theorem button_work_list:
  fixes s :: "'a key_state_scheme"
  assumes "button_list s xs" "p \<noteq> NULL"
  shows "(p \<in> set xs \<longrightarrow> button_start p s = Some (- 1, s)) \<and>
    (p \<notin> set xs \<longrightarrow> (\<exists>t u. button_start p s = Some (0, t) \<and> button_list t (p # xs) \<and>
                           button_stop p t = Some u \<and> button_list u xs)) \<and>
    (\<exists>t. button_stop p s = Some t \<and> button_list t (removeAll p xs) \<and> fired t = fired s \<and>
       (\<forall>q. (buttons t q)\<lparr>bt_next := NULL\<rparr> = (buttons s q)\<lparr>bt_next := NULL\<rparr>)) \<and>
    button_find_with_user_data d s =
      Some (case find (\<lambda>x. bt_user_data (buttons s x) = d) xs of None \<Rightarrow> NULL | Some x \<Rightarrow> x)"
proof (intro conjI impI)
  have l: "chain (buttons s) (head_handle s) xs" using assms(1) by (simp add: button_list_def)
  have stop: "\<exists>t. button_stop p s = Some t \<and> button_list t (removeAll p ys) \<and> fired t = fired s \<and>
      (\<forall>q. (buttons t q)\<lparr>bt_next := NULL\<rparr> = (buttons s q)\<lparr>bt_next := NULL\<rparr>)"
    if "button_list s ys" for s :: "'a key_state_scheme" and ys
    using button_stop_walk_list [of s Head ys p] that by (auto simp: button_stop_def button_list_def)
  show "\<exists>t. button_stop p s = Some t \<and> button_list t (removeAll p xs) \<and> fired t = fired s \<and>
      (\<forall>q. (buttons t q)\<lparr>bt_next := NULL\<rparr> = (buttons s q)\<lparr>bt_next := NULL\<rparr>)"
    by (rule stop [OF assms(1)])
  show "button_start p s = Some (- 1, s)" if "p \<in> set xs"
    using that by (simp add: button_start_def button_start_walk_list [OF l])
  show "\<exists>t u. button_start p s = Some (0, t) \<and> button_list t (p # xs) \<and>
      button_stop p t = Some u \<and> button_list u xs" if p: "p \<notin> set xs"
  proof -
    define t where "t = (set_button p (\<lambda>h. h\<lparr>bt_next := head_handle s\<rparr>) s)\<lparr>head_handle := p\<rparr>"
    have "button_start p s = Some (0, t)"
      using p by (simp add: button_start_def button_start_walk_list [OF l] t_def)
    moreover have t: "button_list t (p # xs)"
      using l p assms(2) by (simp add: button_list_def t_def) (subst chain_cong [where B = "buttons s"], auto)
    ultimately show ?thesis using stop [OF t] p by auto
  qed
  show "button_find_with_user_data d s =
      Some (case find (\<lambda>x. bt_user_data (buttons s x) = d) xs of None \<Rightarrow> NULL | Some x \<Rightarrow> x)"
    by (simp add: button_find_with_user_data_def button_find_walk_list [OF l])
qed

theorem button_work_list_witness:
  "button_start 0x100 sample_keys = Some (- 1, sample_keys) \<and>
   (\<exists>t. button_start 0x200 sample_keys = Some (0, t) \<and> button_list t [0x200, 0x100]) \<and>
   button_find_with_user_data 7 sample_keys = Some 0x100"
  using button_work_list [OF sample_keys_ok(4), of "0x100" 7] button_work_list [OF sample_keys_ok(4), of "0x200" 7]
  by (auto simp: sample_keys_def sample_button_def)

end
