(* ===== verification/Bitfield.thy ===== *)
theory Bitfield
  imports Prelude
begin

text \<open>
  C bit fields of a machine word: reading and assigning the n bits from bit off upwards, and the
  two laws that reasoning about registers and message headers needs: a field reads back what was
  assigned to it, and assigning one field leaves every disjoint one alone.
\<close>

definition get_field :: "nat \<Rightarrow> nat \<Rightarrow> 'a::len word \<Rightarrow> 'a word" where
  "get_field off n w = take_bit n (drop_bit off w)"

definition set_field :: "nat \<Rightarrow> nat \<Rightarrow> 'a::len word \<Rightarrow> 'a word \<Rightarrow> 'a word" where
  "set_field off n v w = (w AND NOT (push_bit off (mask n))) OR push_bit off (take_bit n v)"

named_theorems field_simps

lemma bit_get_field: "bit (get_field off n w) i \<longleftrightarrow> i < n \<and> bit w (off + i)"
  by (simp add: get_field_def bit_simps)

lemma bit_set_field:
  "bit (set_field off n v w) i \<longleftrightarrow>
     i < LENGTH('a) \<and> (if off \<le> i \<and> i < off + n then bit v (i - off) else bit w i)"
  for w :: "'a::len word"
  using bit_imp_le_length [of w i] by (auto simp: set_field_def bit_simps)

lemma get_set_same [field_simps]:
  "off + n \<le> LENGTH('a) \<Longrightarrow> get_field off n (set_field off n v w) = take_bit n v"
  for w :: "'a::len word"
  by (rule bit_word_eqI) (auto simp: bit_get_field bit_set_field bit_simps)

lemma get_set_other [field_simps]:
  "off + n \<le> off' \<or> off' + n' \<le> off \<Longrightarrow> get_field off n (set_field off' n' v w) = get_field off n w"
  for w :: "'a::len word"
  by (rule bit_word_eqI) (auto simp: bit_get_field bit_set_field dest: bit_imp_le_length)

lemma get_field_0 [field_simps]: "get_field off n 0 = 0"
  by (simp add: get_field_def)

lemma get_field_less: "unat (get_field off n (w :: 'a::len word)) < 2 ^ n"
  by (simp add: get_field_def unsigned_take_bit_eq)

end
