(* ===== verification/Dma_Hw.thy ===== *)
theory Dma_Hw
  imports Bitfield
begin

text \<open>
  The general DMA controller's registers and their accessors: the register layout of
  \<^verbatim>\<open>middleware/soc/bk7235/soc/dma_struct.h\<close>, the low-level accessors of
  \<^verbatim>\<open>hal/dma_ll.h\<close> and the hardware layer \<^verbatim>\<open>soc/common/hal/dma_hal.c\<close>.

  The interrupt status register is written only to clear a status by writing its bit, so a write
  clears the bits that are 1 in the written word and keeps the others.
\<close>

section \<open>Registers\<close>

record dma_chan =
  ctrl :: u32
  dest_start_addr :: u32
  src_start_addr :: u32
  dest_loop_end_addr :: u32
  dest_loop_start_addr :: u32
  src_loop_end_addr :: u32
  src_loop_start_addr :: u32
  req_mux :: u32

record dma_hw_t =
  config_group :: "dma_chan list"
  src_pause_addr :: "u32 list"
  dest_pause_addr :: "u32 list"
  src_rd_addr :: "u32 list"
  dest_wr_addr :: "u32 list"
  status_group :: "u32 list"
  prio_mode :: u32
  int_status :: u32

definition SOC_DMA_CHAN_NUM_PER_UNIT :: nat where "SOC_DMA_CHAN_NUM_PER_UNIT = 12"
definition DMA_ID_MAX :: nat where "DMA_ID_MAX = 12"

lemmas dma_sizes = SOC_DMA_CHAN_NUM_PER_UNIT_def DMA_ID_MAX_def

definition zero_chan :: dma_chan where
  "zero_chan =
     \<lparr>ctrl = 0, dest_start_addr = 0, src_start_addr = 0, dest_loop_end_addr = 0,
      dest_loop_start_addr = 0, src_loop_end_addr = 0, src_loop_start_addr = 0, req_mux = 0\<rparr>"

definition on_chan :: "nat \<Rightarrow> (dma_chan \<Rightarrow> dma_chan) \<Rightarrow> dma_hw_t \<Rightarrow> dma_hw_t" where
  "on_chan i f hw = hw\<lparr>config_group := (config_group hw)[i := f (config_group hw ! i)]\<rparr>"

definition on_ctrl :: "nat \<Rightarrow> (u32 \<Rightarrow> u32) \<Rightarrow> dma_hw_t \<Rightarrow> dma_hw_t" where
  "on_ctrl i f = on_chan i (\<lambda>c. c\<lparr>ctrl := f (ctrl c)\<rparr>)"

definition write_int_status :: "u32 \<Rightarrow> dma_hw_t \<Rightarrow> dma_hw_t" where
  "write_int_status v hw = hw\<lparr>int_status := int_status hw AND NOT v\<rparr>"

text \<open>The fields of the control word and of the request multiplexer.\<close>

abbreviation ctrl_enable :: "u32 \<Rightarrow> u32" where "ctrl_enable \<equiv> get_field 0 1"
abbreviation ctrl_finish_int_en :: "u32 \<Rightarrow> u32" where "ctrl_finish_int_en \<equiv> get_field 1 1"
abbreviation ctrl_half_finish_int_en :: "u32 \<Rightarrow> u32" where "ctrl_half_finish_int_en \<equiv> get_field 2 1"
abbreviation ctrl_mode :: "u32 \<Rightarrow> u32" where "ctrl_mode \<equiv> get_field 3 1"
abbreviation ctrl_src_data_width :: "u32 \<Rightarrow> u32" where "ctrl_src_data_width \<equiv> get_field 4 2"
abbreviation ctrl_dest_data_width :: "u32 \<Rightarrow> u32" where "ctrl_dest_data_width \<equiv> get_field 6 2"
abbreviation ctrl_src_addr_inc_en :: "u32 \<Rightarrow> u32" where "ctrl_src_addr_inc_en \<equiv> get_field 8 1"
abbreviation ctrl_dest_addr_inc_en :: "u32 \<Rightarrow> u32" where "ctrl_dest_addr_inc_en \<equiv> get_field 9 1"
abbreviation ctrl_src_addr_loop_en :: "u32 \<Rightarrow> u32" where "ctrl_src_addr_loop_en \<equiv> get_field 10 1"
abbreviation ctrl_dest_addr_loop_en :: "u32 \<Rightarrow> u32" where "ctrl_dest_addr_loop_en \<equiv> get_field 11 1"
abbreviation ctrl_chan_prio :: "u32 \<Rightarrow> u32" where "ctrl_chan_prio \<equiv> get_field 12 3"
abbreviation ctrl_transfer_len :: "u32 \<Rightarrow> u32" where "ctrl_transfer_len \<equiv> get_field 16 16"
abbreviation mux_src :: "u32 \<Rightarrow> u32" where "mux_src \<equiv> get_field 0 5"
abbreviation mux_dest :: "u32 \<Rightarrow> u32" where "mux_dest \<equiv> get_field 5 5"

section \<open>Low-level accessors\<close>

definition dma_ll_reset_config_to_default :: "dma_hw_t \<Rightarrow> nat \<Rightarrow> dma_hw_t" where
  "dma_ll_reset_config_to_default hw i =
     on_chan i (\<lambda>c. c\<lparr>ctrl := 0, dest_start_addr := 0, src_start_addr := 0, dest_loop_end_addr := 0,
       dest_loop_start_addr := 0, src_loop_end_addr := 0, src_loop_start_addr := 0, req_mux := 0\<rparr>) hw"

definition dma_ll_init :: "dma_hw_t \<Rightarrow> dma_hw_t" where
  "dma_ll_init hw =
     (let hw = fold (\<lambda>i hw. on_chan i (\<lambda>c. c\<lparr>ctrl := 0, dest_start_addr := 0, src_start_addr := 0,
                  dest_loop_end_addr := 0, dest_loop_start_addr := 0, src_loop_end_addr := 0,
                  src_loop_start_addr := 0, req_mux := 0\<rparr>) hw) [0..<SOC_DMA_CHAN_NUM_PER_UNIT] hw;
          hw = hw\<lparr>prio_mode := 0\<rparr>
      in write_int_status 0 hw)"

definition DMA_DEV_DTCM :: u32 where "DMA_DEV_DTCM = 0"
definition DMA_DEV_AUDIO :: u32 where "DMA_DEV_AUDIO = 3"
definition DMA_DEV_SDIO :: u32 where "DMA_DEV_SDIO = 4"
definition DMA_DEV_UART1 :: u32 where "DMA_DEV_UART1 = 5"
definition DMA_DEV_UART2 :: u32 where "DMA_DEV_UART2 = 6"
definition DMA_DEV_UART3 :: u32 where "DMA_DEV_UART3 = 7"
definition DMA_DEV_I2S :: u32 where "DMA_DEV_I2S = 8"
definition DMA_DEV_GSPI0 :: u32 where "DMA_DEV_GSPI0 = 9"
definition DMA_DEV_GSPI1 :: u32 where "DMA_DEV_GSPI1 = 10"
definition DMA_DEV_JPEG :: u32 where "DMA_DEV_JPEG = 12"
definition DMA_DEV_USB :: u32 where "DMA_DEV_USB = 15"
definition DMA_DEV_LCD_CMD :: u32 where "DMA_DEV_LCD_CMD = 16"
definition DMA_DEV_LCD_DATA :: u32 where "DMA_DEV_LCD_DATA = 17"

definition dma_ll_dev_to_req_mux :: "u32 \<Rightarrow> u32" where
  "dma_ll_dev_to_req_mux dev =
     (if dev = DMA_DEV_DTCM then 0x0
      else if dev = DMA_DEV_UART1 then 0x1
      else if dev = DMA_DEV_GSPI0 then 0x2
      else if dev = DMA_DEV_SDIO then 0x3
      else if dev = DMA_DEV_UART2 then 0x4
      else if dev = DMA_DEV_UART3 then 0x5
      else if dev = DMA_DEV_GSPI1 then 0x6
      else if dev = DMA_DEV_USB then 0x7
      else if dev = DMA_DEV_AUDIO then 0x8
      else if dev = DMA_DEV_I2S then 0x9
      else if dev = DMA_DEV_LCD_CMD then 0xa
      else if dev = DMA_DEV_LCD_DATA then 0xb
      else if dev = DMA_DEV_JPEG then 0xa
      else 0)"

definition dma_ll_enable :: "dma_hw_t \<Rightarrow> nat \<Rightarrow> dma_hw_t" where
  "dma_ll_enable hw i = on_ctrl i (set_field 0 1 1) hw"

definition dma_ll_disable :: "dma_hw_t \<Rightarrow> nat \<Rightarrow> dma_hw_t" where
  "dma_ll_disable hw i = on_ctrl i (set_field 0 1 0) hw"

definition dma_ll_get_enable_status :: "dma_hw_t \<Rightarrow> nat \<Rightarrow> u32" where
  "dma_ll_get_enable_status hw i = ctrl_enable (ctrl (config_group hw ! i))"

definition dma_ll_is_id_started :: "dma_hw_t \<Rightarrow> nat \<Rightarrow> bool" where
  "dma_ll_is_id_started hw i \<longleftrightarrow> ctrl_enable (ctrl (config_group hw ! i)) = 1"

definition dma_ll_enable_finish_interrupt :: "dma_hw_t \<Rightarrow> nat \<Rightarrow> dma_hw_t" where
  "dma_ll_enable_finish_interrupt hw i = on_ctrl i (set_field 1 1 1) hw"

definition dma_ll_disable_finish_interrupt :: "dma_hw_t \<Rightarrow> nat \<Rightarrow> dma_hw_t" where
  "dma_ll_disable_finish_interrupt hw i = on_ctrl i (set_field 1 1 0) hw"

definition dma_ll_enable_half_finish_interrupt :: "dma_hw_t \<Rightarrow> nat \<Rightarrow> dma_hw_t" where
  "dma_ll_enable_half_finish_interrupt hw i = on_ctrl i (set_field 2 1 1) hw"

definition dma_ll_disable_half_finish_interrupt :: "dma_hw_t \<Rightarrow> nat \<Rightarrow> dma_hw_t" where
  "dma_ll_disable_half_finish_interrupt hw i = on_ctrl i (set_field 2 1 0) hw"

definition dma_ll_enable_interrupt :: "dma_hw_t \<Rightarrow> nat \<Rightarrow> dma_hw_t" where
  "dma_ll_enable_interrupt hw i =
     dma_ll_enable_finish_interrupt (dma_ll_enable_half_finish_interrupt hw i) i"

definition dma_ll_disable_interrupt :: "dma_hw_t \<Rightarrow> nat \<Rightarrow> dma_hw_t" where
  "dma_ll_disable_interrupt hw i =
     dma_ll_disable_finish_interrupt (dma_ll_disable_half_finish_interrupt hw i) i"

definition dma_ll_clear_finish_interrupt_status :: "dma_hw_t \<Rightarrow> nat \<Rightarrow> dma_hw_t" where
  "dma_ll_clear_finish_interrupt_status hw i = write_int_status (push_bit i 1) hw"

definition dma_ll_clear_half_finish_interrupt_status :: "dma_hw_t \<Rightarrow> nat \<Rightarrow> dma_hw_t" where
  "dma_ll_clear_half_finish_interrupt_status hw i = write_int_status (push_bit 16 (push_bit i 1)) hw"

definition dma_ll_clear_interrupt_status :: "dma_hw_t \<Rightarrow> nat \<Rightarrow> dma_hw_t" where
  "dma_ll_clear_interrupt_status hw i =
     dma_ll_clear_finish_interrupt_status (dma_ll_clear_half_finish_interrupt_status hw i) i"

definition dma_ll_is_finish_interrupt_triggered :: "dma_hw_t \<Rightarrow> nat \<Rightarrow> bool" where
  "dma_ll_is_finish_interrupt_triggered hw i \<longleftrightarrow> get_field 0 12 (int_status hw) AND push_bit i 1 \<noteq> 0"

definition dma_ll_is_half_finish_interrupt_triggered :: "dma_hw_t \<Rightarrow> nat \<Rightarrow> bool" where
  "dma_ll_is_half_finish_interrupt_triggered hw i \<longleftrightarrow> get_field 16 12 (int_status hw) AND push_bit i 1 \<noteq> 0"

definition dma_ll_set_work_mode :: "dma_hw_t \<Rightarrow> nat \<Rightarrow> u32 \<Rightarrow> dma_hw_t" where
  "dma_ll_set_work_mode hw i mode = on_ctrl i (set_field 3 1 (mode AND 0x01)) hw"

definition dma_ll_set_chan_prio :: "dma_hw_t \<Rightarrow> nat \<Rightarrow> u32 \<Rightarrow> dma_hw_t" where
  "dma_ll_set_chan_prio hw i chan_prio = on_ctrl i (set_field 12 3 (chan_prio AND 0x07)) hw"

definition dma_ll_set_dest_data_width :: "dma_hw_t \<Rightarrow> nat \<Rightarrow> u32 \<Rightarrow> dma_hw_t" where
  "dma_ll_set_dest_data_width hw i data_width = on_ctrl i (set_field 6 2 (data_width AND 0x03)) hw"

definition dma_ll_set_src_data_width :: "dma_hw_t \<Rightarrow> nat \<Rightarrow> u32 \<Rightarrow> dma_hw_t" where
  "dma_ll_set_src_data_width hw i data_width = on_ctrl i (set_field 4 2 (data_width AND 0x03)) hw"

definition dma_ll_set_dest_req_mux :: "dma_hw_t \<Rightarrow> nat \<Rightarrow> u32 \<Rightarrow> dma_hw_t" where
  "dma_ll_set_dest_req_mux hw i dev =
     on_chan i (\<lambda>c. c\<lparr>req_mux := set_field 5 5 (dma_ll_dev_to_req_mux dev AND 0xf) (req_mux c)\<rparr>) hw"

definition dma_ll_set_src_req_mux :: "dma_hw_t \<Rightarrow> nat \<Rightarrow> u32 \<Rightarrow> dma_hw_t" where
  "dma_ll_set_src_req_mux hw i dev =
     on_chan i (\<lambda>c. c\<lparr>req_mux := set_field 0 5 (dma_ll_dev_to_req_mux dev AND 0xf) (req_mux c)\<rparr>) hw"

definition dma_ll_enable_src_addr_inc :: "dma_hw_t \<Rightarrow> nat \<Rightarrow> dma_hw_t" where
  "dma_ll_enable_src_addr_inc hw i = on_ctrl i (set_field 8 1 1) hw"

definition dma_ll_disable_src_addr_inc :: "dma_hw_t \<Rightarrow> nat \<Rightarrow> dma_hw_t" where
  "dma_ll_disable_src_addr_inc hw i = on_ctrl i (set_field 8 1 0) hw"

definition dma_ll_enable_dest_addr_inc :: "dma_hw_t \<Rightarrow> nat \<Rightarrow> dma_hw_t" where
  "dma_ll_enable_dest_addr_inc hw i = on_ctrl i (set_field 9 1 1) hw"

definition dma_ll_disable_dest_addr_inc :: "dma_hw_t \<Rightarrow> nat \<Rightarrow> dma_hw_t" where
  "dma_ll_disable_dest_addr_inc hw i = on_ctrl i (set_field 9 1 0) hw"

definition dma_ll_enable_src_addr_loop :: "dma_hw_t \<Rightarrow> nat \<Rightarrow> dma_hw_t" where
  "dma_ll_enable_src_addr_loop hw i = on_ctrl i (set_field 10 1 1) hw"

definition dma_ll_disable_src_addr_loop :: "dma_hw_t \<Rightarrow> nat \<Rightarrow> dma_hw_t" where
  "dma_ll_disable_src_addr_loop hw i = on_ctrl i (set_field 10 1 0) hw"

definition dma_ll_enable_dest_addr_loop :: "dma_hw_t \<Rightarrow> nat \<Rightarrow> dma_hw_t" where
  "dma_ll_enable_dest_addr_loop hw i = on_ctrl i (set_field 11 1 1) hw"

definition dma_ll_disable_dest_addr_loop :: "dma_hw_t \<Rightarrow> nat \<Rightarrow> dma_hw_t" where
  "dma_ll_disable_dest_addr_loop hw i = on_ctrl i (set_field 11 1 0) hw"

definition dma_ll_set_dest_start_addr :: "dma_hw_t \<Rightarrow> nat \<Rightarrow> u32 \<Rightarrow> dma_hw_t" where
  "dma_ll_set_dest_start_addr hw i a = on_chan i (\<lambda>c. c\<lparr>dest_start_addr := a\<rparr>) hw"

definition dma_ll_set_src_start_addr :: "dma_hw_t \<Rightarrow> nat \<Rightarrow> u32 \<Rightarrow> dma_hw_t" where
  "dma_ll_set_src_start_addr hw i a = on_chan i (\<lambda>c. c\<lparr>src_start_addr := a\<rparr>) hw"

definition dma_ll_set_dest_loop_addr :: "dma_hw_t \<Rightarrow> nat \<Rightarrow> u32 \<Rightarrow> u32 \<Rightarrow> dma_hw_t" where
  "dma_ll_set_dest_loop_addr hw i start_addr end_addr =
     on_chan i (\<lambda>c. c\<lparr>dest_loop_start_addr := start_addr, dest_loop_end_addr := end_addr\<rparr>) hw"

definition dma_ll_set_src_loop_addr :: "dma_hw_t \<Rightarrow> nat \<Rightarrow> u32 \<Rightarrow> u32 \<Rightarrow> dma_hw_t" where
  "dma_ll_set_src_loop_addr hw i start_addr end_addr =
     on_chan i (\<lambda>c. c\<lparr>src_loop_start_addr := start_addr, src_loop_end_addr := end_addr\<rparr>) hw"

definition dma_ll_set_transfer_len :: "dma_hw_t \<Rightarrow> nat \<Rightarrow> u32 \<Rightarrow> dma_hw_t" where
  "dma_ll_set_transfer_len hw i tran_len =
     on_ctrl i (\<lambda>v. v OR push_bit 16 (tran_len - 1)) (on_ctrl i (\<lambda>v. v AND 0xFFFF) hw)"

definition dma_ll_get_remain_len :: "dma_hw_t \<Rightarrow> nat \<Rightarrow> u32" where
  "dma_ll_get_remain_len hw i = get_field 0 17 (status_group hw ! i)"

definition dma_ll_set_prio_mode :: "dma_hw_t \<Rightarrow> u32 \<Rightarrow> dma_hw_t" where
  "dma_ll_set_prio_mode hw m = hw\<lparr>prio_mode := set_field 0 1 (m AND 0x1) (prio_mode hw)\<rparr>"

definition dma_ll_set_src_pause_addr :: "dma_hw_t \<Rightarrow> nat \<Rightarrow> u32 \<Rightarrow> dma_hw_t" where
  "dma_ll_set_src_pause_addr hw i a = hw\<lparr>src_pause_addr := (src_pause_addr hw)[i := a]\<rparr>"

definition dma_ll_set_dest_pause_addr :: "dma_hw_t \<Rightarrow> nat \<Rightarrow> u32 \<Rightarrow> dma_hw_t" where
  "dma_ll_set_dest_pause_addr hw i a = hw\<lparr>dest_pause_addr := (dest_pause_addr hw)[i := a]\<rparr>"

definition dma_ll_get_src_read_addr :: "dma_hw_t \<Rightarrow> nat \<Rightarrow> u32" where
  "dma_ll_get_src_read_addr hw i = src_rd_addr hw ! i"

definition dma_ll_get_dest_write_addr :: "dma_hw_t \<Rightarrow> nat \<Rightarrow> u32" where
  "dma_ll_get_dest_write_addr hw i = dest_wr_addr hw ! i"

section \<open>The hardware layer\<close>

record dma_port_config_t =
  pc_dev :: u32
  pc_width :: u32
  pc_addr_inc_en :: u32
  pc_addr_loop_en :: u32
  pc_start_addr :: u32
  pc_end_addr :: u32

record dma_config_t =
  dc_mode :: u32
  dc_chan_prio :: u8
  dc_src :: dma_port_config_t
  dc_dst :: dma_port_config_t

abbreviation BK_ERR_DMA_BASE :: bk_err_t where "BK_ERR_DMA_BASE \<equiv> - 0x2100"
abbreviation BK_ERR_DMA_ID :: bk_err_t where "BK_ERR_DMA_ID \<equiv> BK_ERR_DMA_BASE - 1"
abbreviation BK_ERR_DMA_NOT_INIT :: bk_err_t where "BK_ERR_DMA_NOT_INIT \<equiv> BK_ERR_DMA_BASE - 2"
abbreviation BK_ERR_DMA_ID_NOT_INIT :: bk_err_t where "BK_ERR_DMA_ID_NOT_INIT \<equiv> BK_ERR_DMA_BASE - 3"
abbreviation BK_ERR_DMA_INVALID_ADDR :: bk_err_t where "BK_ERR_DMA_INVALID_ADDR \<equiv> BK_ERR_DMA_BASE - 5"
abbreviation BK_ERR_DMA_HAL_INVALID_ADDR :: bk_err_t where
  "BK_ERR_DMA_HAL_INVALID_ADDR \<equiv> - 0x2200 - 1"

definition invalid_addr :: "u32 \<Rightarrow> u32 \<Rightarrow> bool" where
  "invalid_addr start_addr end_addr \<longleftrightarrow> 0 < end_addr \<and> end_addr < start_addr"

definition dma_hal_init :: "dma_hw_t \<Rightarrow> dma_hw_t" where
  "dma_hal_init hw = dma_ll_set_prio_mode (dma_ll_init hw) 0"

definition dma_hal_init_dma :: "nat \<Rightarrow> dma_config_t \<Rightarrow> dma_hw_t \<Rightarrow> bk_err_t \<times> dma_hw_t" where
  "dma_hal_init_dma i config hw =
     (if invalid_addr (pc_start_addr (dc_src config)) (pc_end_addr (dc_src config))
      then (BK_ERR_DMA_HAL_INVALID_ADDR, hw)
      else if invalid_addr (pc_start_addr (dc_dst config)) (pc_end_addr (dc_dst config))
      then (BK_ERR_DMA_HAL_INVALID_ADDR, hw)
      else
        let hw = dma_ll_set_work_mode hw i (dc_mode config);
            hw = dma_ll_set_chan_prio hw i (ucast (dc_chan_prio config));
            hw = dma_ll_set_dest_data_width hw i (pc_width (dc_dst config));
            hw = dma_ll_set_src_data_width hw i (pc_width (dc_src config));
            hw = dma_ll_set_dest_req_mux hw i (pc_dev (dc_dst config));
            hw = dma_ll_set_src_req_mux hw i (pc_dev (dc_src config));
            hw = dma_ll_set_src_start_addr hw i (pc_start_addr (dc_src config));
            hw = dma_ll_set_src_loop_addr hw i (pc_start_addr (dc_src config)) (pc_end_addr (dc_src config));
            hw = dma_ll_set_dest_start_addr hw i (pc_start_addr (dc_dst config));
            hw = dma_ll_set_dest_loop_addr hw i (pc_start_addr (dc_dst config)) (pc_end_addr (dc_dst config));
            hw = (if pc_addr_inc_en (dc_src config) \<noteq> 0
                  then dma_ll_enable_src_addr_inc hw i else dma_ll_disable_src_addr_inc hw i);
            hw = (if pc_addr_loop_en (dc_src config) \<noteq> 0
                  then dma_ll_enable_src_addr_loop hw i else dma_ll_disable_src_addr_loop hw i);
            hw = (if pc_addr_inc_en (dc_dst config) \<noteq> 0
                  then dma_ll_enable_dest_addr_inc hw i else dma_ll_disable_dest_addr_inc hw i);
            hw = (if pc_addr_loop_en (dc_dst config) \<noteq> 0
                  then dma_ll_enable_dest_addr_loop hw i else dma_ll_disable_dest_addr_loop hw i)
        in (BK_OK, hw))"

definition dma_hal_start_common :: "nat \<Rightarrow> dma_hw_t \<Rightarrow> dma_hw_t" where
  "dma_hal_start_common i hw = dma_ll_enable hw i"

definition dma_hal_stop_common :: "nat \<Rightarrow> dma_hw_t \<Rightarrow> dma_hw_t" where
  "dma_hal_stop_common i hw = dma_ll_disable (dma_ll_clear_interrupt_status hw i) i"

section \<open>What the accessors do to the registers\<close>

lemma on_chan_simps [simp]:
  "length (config_group (on_chan i f hw)) = length (config_group hw)"
  "config_group (on_chan i f hw) ! j =
     (if j = i \<and> i < length (config_group hw) then f (config_group hw ! i) else config_group hw ! j)"
  "int_status (on_chan i f hw) = int_status hw"
  "prio_mode (on_chan i f hw) = prio_mode hw"
  by (auto simp: on_chan_def not_less list_update_beyond)

lemma on_chan_on_chan [simp]: "on_chan i f (on_chan i g hw) = on_chan i (f \<circ> g) hw"
  by (cases "i < length (config_group hw)") (simp_all add: on_chan_def not_less list_update_beyond)

lemma on_chan_swap:
  "i \<noteq> j \<Longrightarrow> on_chan i f (on_chan j g hw) = on_chan j g (on_chan i f hw)"
  by (simp add: on_chan_def list_update_swap)

lemma write_int_status_simps [simp]:
  "config_group (write_int_status v hw) = config_group hw"
  "int_status (write_int_status v hw) = int_status hw AND NOT v"
  "on_chan i f (write_int_status v hw) = write_int_status v (on_chan i f hw)"
  by (simp_all add: write_int_status_def on_chan_def)

lemma pending_iff:
  "i < 12 \<Longrightarrow> dma_ll_is_finish_interrupt_triggered hw i \<longleftrightarrow> bit (int_status hw) i"
  "i < 12 \<Longrightarrow> dma_ll_is_half_finish_interrupt_triggered hw i \<longleftrightarrow> bit (int_status hw) (16 + i)"
  by (simp_all add: dma_ll_is_finish_interrupt_triggered_def dma_ll_is_half_finish_interrupt_triggered_def
      bit_get_field flip: bit_iff_and_exp)

lemma clear_pending:
  "dma_ll_clear_finish_interrupt_status hw i = hw\<lparr>int_status := int_status hw AND NOT (2 ^ i)\<rparr>"
  "dma_ll_clear_half_finish_interrupt_status hw i = hw\<lparr>int_status := int_status hw AND NOT (2 ^ (16 + i))\<rparr>"
  by (simp_all add: dma_ll_clear_finish_interrupt_status_def dma_ll_clear_half_finish_interrupt_status_def
      write_int_status_def push_bit_eq_mult power_add mult.commute)

text \<open>
  The channel that \<^const>\<open>dma_hal_init_dma\<close> programs, field by field; the other fields of the
  control word, the transfer length among them, keep their value.
\<close>

definition programmed :: "dma_config_t \<Rightarrow> dma_chan \<Rightarrow> dma_chan \<Rightarrow> bool" where
  "programmed config c c' \<longleftrightarrow>
     ctrl_mode (ctrl c') = take_bit 1 (dc_mode config) \<and>
     ctrl_chan_prio (ctrl c') = take_bit 3 (ucast (dc_chan_prio config)) \<and>
     ctrl_src_data_width (ctrl c') = take_bit 2 (pc_width (dc_src config)) \<and>
     ctrl_dest_data_width (ctrl c') = take_bit 2 (pc_width (dc_dst config)) \<and>
     ctrl_src_addr_inc_en (ctrl c') = of_bool (pc_addr_inc_en (dc_src config) \<noteq> 0) \<and>
     ctrl_dest_addr_inc_en (ctrl c') = of_bool (pc_addr_inc_en (dc_dst config) \<noteq> 0) \<and>
     ctrl_src_addr_loop_en (ctrl c') = of_bool (pc_addr_loop_en (dc_src config) \<noteq> 0) \<and>
     ctrl_dest_addr_loop_en (ctrl c') = of_bool (pc_addr_loop_en (dc_dst config) \<noteq> 0) \<and>
     mux_src (req_mux c') = dma_ll_dev_to_req_mux (pc_dev (dc_src config)) \<and>
     mux_dest (req_mux c') = dma_ll_dev_to_req_mux (pc_dev (dc_dst config)) \<and>
     src_start_addr c' = pc_start_addr (dc_src config) \<and>
     src_loop_start_addr c' = pc_start_addr (dc_src config) \<and>
     src_loop_end_addr c' = pc_end_addr (dc_src config) \<and>
     dest_start_addr c' = pc_start_addr (dc_dst config) \<and>
     dest_loop_start_addr c' = pc_start_addr (dc_dst config) \<and>
     dest_loop_end_addr c' = pc_end_addr (dc_dst config) \<and>
     ctrl_enable (ctrl c') = ctrl_enable (ctrl c) \<and>
     ctrl_finish_int_en (ctrl c') = ctrl_finish_int_en (ctrl c) \<and>
     ctrl_half_finish_int_en (ctrl c') = ctrl_half_finish_int_en (ctrl c) \<and>
     ctrl_transfer_len (ctrl c') = ctrl_transfer_len (ctrl c)"

lemma and_masks: "w AND 0x01 = take_bit 1 w" "w AND 0x07 = take_bit 3 w" "w AND 0x03 = take_bit 2 w"
  "w AND 0xf = take_bit 4 w" "w AND 0xFFFF = take_bit 16 w" for w :: u32
  by (simp_all add: take_bit_eq_mask mask_eq_exp_minus_1)

lemma take_bit_req_mux [simp]:
  "take_bit 4 (dma_ll_dev_to_req_mux d) = dma_ll_dev_to_req_mux d"
  "take_bit 5 (dma_ll_dev_to_req_mux d) = dma_ll_dev_to_req_mux d"
  by (simp_all add: dma_ll_dev_to_req_mux_def)

lemma mod2_mod2 [simp]: "w mod 2 mod 2 = w mod 2" for w :: u32
  using take_bit_take_bit [of 1 1 w] by simp

lemma addr_flag_fields:
  "(if b then dma_ll_enable_src_addr_inc hw i else dma_ll_disable_src_addr_inc hw i) =
     on_chan i (\<lambda>c. c\<lparr>ctrl := set_field 8 1 (of_bool b) (ctrl c)\<rparr>) hw"
  "(if b then dma_ll_enable_dest_addr_inc hw i else dma_ll_disable_dest_addr_inc hw i) =
     on_chan i (\<lambda>c. c\<lparr>ctrl := set_field 9 1 (of_bool b) (ctrl c)\<rparr>) hw"
  "(if b then dma_ll_enable_src_addr_loop hw i else dma_ll_disable_src_addr_loop hw i) =
     on_chan i (\<lambda>c. c\<lparr>ctrl := set_field 10 1 (of_bool b) (ctrl c)\<rparr>) hw"
  "(if b then dma_ll_enable_dest_addr_loop hw i else dma_ll_disable_dest_addr_loop hw i) =
     on_chan i (\<lambda>c. c\<lparr>ctrl := set_field 11 1 (of_bool b) (ctrl c)\<rparr>) hw"
  by (simp_all add: on_ctrl_def
      dma_ll_enable_src_addr_inc_def dma_ll_disable_src_addr_inc_def
      dma_ll_enable_src_addr_loop_def dma_ll_disable_src_addr_loop_def dma_ll_enable_dest_addr_inc_def
      dma_ll_disable_dest_addr_inc_def dma_ll_enable_dest_addr_loop_def dma_ll_disable_dest_addr_loop_def)

lemma dma_hal_init_dma_ok:
  assumes "\<not> invalid_addr (pc_start_addr (dc_src config)) (pc_end_addr (dc_src config))"
    and "\<not> invalid_addr (pc_start_addr (dc_dst config)) (pc_end_addr (dc_dst config))"
  shows "\<exists>f. dma_hal_init_dma i config hw = (BK_OK, on_chan i f hw) \<and> (\<forall>c. programmed config c (f c))"
  unfolding dma_hal_init_dma_def Let_def addr_flag_fields if_not_P [OF assms(1)] if_not_P [OF assms(2)]
    dma_ll_set_work_mode_def dma_ll_set_chan_prio_def dma_ll_set_dest_data_width_def
    dma_ll_set_src_data_width_def dma_ll_set_dest_req_mux_def dma_ll_set_src_req_mux_def
    dma_ll_set_src_start_addr_def dma_ll_set_src_loop_addr_def dma_ll_set_dest_start_addr_def
    dma_ll_set_dest_loop_addr_def on_ctrl_def on_chan_on_chan
  by (rule exI, rule conjI, rule refl) (simp add: programmed_def field_simps and_masks)

text \<open>
  The length register holds the length minus one in sixteen bits: a length of 0 or beyond 65536
  bytes is programmed as one between 1 and 65536.
\<close>

definition programmed_len :: "u32 \<Rightarrow> nat" where
  "programmed_len len = unat (take_bit 16 (len - 1)) + 1"

lemma set_transfer_len_fields:
  defines "f \<equiv> \<lambda>v len :: u32. v AND 0xFFFF OR push_bit 16 (len - 1)"
  shows "unat (ctrl_transfer_len (f v len)) + 1 = programmed_len len"
    and "off + n \<le> 16 \<Longrightarrow> get_field off n (f v len) = get_field off n v"
proof -
  have "ctrl_transfer_len (f v len) = take_bit 16 (len - 1)"
    by (rule bit_word_eqI) (auto simp: f_def and_masks bit_get_field bit_simps)
  then show "unat (ctrl_transfer_len (f v len)) + 1 = programmed_len len" by (simp add: programmed_len_def)
  show "off + n \<le> 16 \<Longrightarrow> get_field off n (f v len) = get_field off n v"
    by (rule bit_word_eqI) (auto simp: f_def and_masks bit_get_field bit_simps)
qed

lemma programmed_len_exact: "1 \<le> unat len \<Longrightarrow> unat len \<le> 65536 \<Longrightarrow> programmed_len len = unat len"
proof -
  assume "1 \<le> unat len" "unat len \<le> 65536"
  moreover from this have "len \<noteq> 0" by auto
  then have "unat (len - 1) = unat len - 1" by (rule unat_minus_one)
  ultimately show ?thesis
    by (simp add: programmed_len_def unsigned_take_bit_eq take_bit_nat_eq_self)
qed

end
