(* ===== verification/Dma.thy ===== *)
theory Dma
  imports Dma_Hw
begin

text \<open>
  The general DMA driver, \<^verbatim>\<open>middleware/driver/general_dma/dma_driver.c\<close>, in the build for a
  single core with the system controller and without data cache: the pool of channels, the
  initialisation of channels, the transfer operations, the interrupt handler and the memory copy.

  The transfer itself is done by the controller, which is a parameter: a function that moves
  registers and memory on between two polls of the driver.
\<close>

section \<open>State\<close>

record dma_driver_t =
  dma_hw :: dma_hw_t
  hal_hw_set :: bool
  id_init_bits :: u32
  s_dma_finish_isr :: "addr list"
  s_dma_half_finish_isr :: "addr list"
  s_dma_driver_is_init :: bool
  chnl_bitmap :: u32
  chnl_user :: "u32 list"
  gdma_isr_registered :: bool
  gdma_int_enabled :: bool
  dma_mem :: "addr \<Rightarrow> u8"
  dma_calls :: "(addr \<times> nat) list"

definition on_hw :: "(dma_hw_t \<Rightarrow> dma_hw_t) \<Rightarrow> dma_driver_t \<Rightarrow> dma_driver_t" where
  "on_hw f s = s\<lparr>dma_hw := f (dma_hw s)\<rparr>"

text \<open>The guards of the API, in the order each operation applies them.\<close>

definition return_on_not_init ::
  "dma_driver_t \<Rightarrow> bk_err_t \<times> dma_driver_t \<Rightarrow> bk_err_t \<times> dma_driver_t" where
  "return_on_not_init s k = (if \<not> s_dma_driver_is_init s then (BK_ERR_DMA_NOT_INIT, s) else k)"

definition return_on_invalid_id ::
  "nat \<Rightarrow> dma_driver_t \<Rightarrow> bk_err_t \<times> dma_driver_t \<Rightarrow> bk_err_t \<times> dma_driver_t" where
  "return_on_invalid_id i s k = (if SOC_DMA_CHAN_NUM_PER_UNIT \<le> i then (BK_ERR_DMA_ID, s) else k)"

definition return_on_id_not_init ::
  "nat \<Rightarrow> dma_driver_t \<Rightarrow> bk_err_t \<times> dma_driver_t \<Rightarrow> bk_err_t \<times> dma_driver_t" where
  "return_on_id_not_init i s k =
     (if id_init_bits s AND push_bit i 1 = 0 then (BK_ERR_DMA_ID_NOT_INIT, s) else k)"

section \<open>The pool of channels\<close>

definition dma_chnl_alloc :: "u32 \<Rightarrow> dma_driver_t \<Rightarrow> nat \<times> dma_driver_t" where
  "dma_chnl_alloc user s =
     (case find (\<lambda>i. chnl_bitmap s AND push_bit i 1 = 0) [0..<DMA_ID_MAX] of
        Some i \<Rightarrow> (i, s\<lparr>chnl_bitmap := chnl_bitmap s OR push_bit i 1,
                        chnl_user := (chnl_user s)[i := user]\<rparr>)
      | None \<Rightarrow> (DMA_ID_MAX, s))"

definition dma_chnl_free :: "u32 \<Rightarrow> nat \<Rightarrow> dma_driver_t \<Rightarrow> bk_err_t \<times> dma_driver_t" where
  "dma_chnl_free user i s =
     (if DMA_ID_MAX \<le> i then (BK_ERR_DMA_ID, s)
      else if chnl_user s ! i \<noteq> user then (BK_ERR_PARAM, s)
      else (BK_OK, s\<lparr>chnl_bitmap := chnl_bitmap s AND NOT (push_bit i 1),
                     chnl_user := (chnl_user s)[i := - 1]\<rparr>))"

definition dma_chnl_user :: "nat \<Rightarrow> dma_driver_t \<Rightarrow> u32" where
  "dma_chnl_user i s = (if DMA_ID_MAX \<le> i then - 1 else chnl_user s ! i)"

definition DMA_USER_CPU :: u32 where "DMA_USER_CPU = 0"

definition bk_dma_alloc :: "u16 \<Rightarrow> dma_driver_t \<Rightarrow> nat \<times> dma_driver_t" where
  "bk_dma_alloc user s =
     (if \<not> s_dma_driver_is_init s then (DMA_ID_MAX, s)
      else dma_chnl_alloc (push_bit 16 DMA_USER_CPU + ucast user) s)"

definition bk_dma_free :: "u16 \<Rightarrow> nat \<Rightarrow> dma_driver_t \<Rightarrow> bk_err_t \<times> dma_driver_t" where
  "bk_dma_free user i s =
     (if \<not> s_dma_driver_is_init s then (BK_ERR_DMA_NOT_INIT, s)
      else dma_chnl_free (push_bit 16 DMA_USER_CPU + ucast user) i s)"

definition bk_dma_user :: "nat \<Rightarrow> dma_driver_t \<Rightarrow> u32" where
  "bk_dma_user i s = (if \<not> s_dma_driver_is_init s then - 1 else dma_chnl_user i s)"

section \<open>Driver and channel initialisation\<close>

definition dma_id_init_common :: "nat \<Rightarrow> dma_driver_t \<Rightarrow> dma_driver_t" where
  "dma_id_init_common i s = s\<lparr>id_init_bits := id_init_bits s OR push_bit i 1\<rparr>"

definition dma_id_deinit_common :: "nat \<Rightarrow> dma_driver_t \<Rightarrow> dma_driver_t" where
  "dma_id_deinit_common i s =
     (let s = s\<lparr>id_init_bits := id_init_bits s AND NOT (push_bit i 1)\<rparr>;
          s = on_hw (dma_hal_stop_common i) s
      in on_hw (\<lambda>hw. dma_ll_reset_config_to_default hw i) s)"

definition dma_id_enable_interrupt_common :: "dma_driver_t \<Rightarrow> dma_driver_t" where
  "dma_id_enable_interrupt_common s = s\<lparr>gdma_int_enabled := True\<rparr>"

definition bk_dma_driver_init :: "dma_driver_t \<Rightarrow> bk_err_t \<times> dma_driver_t" where
  "bk_dma_driver_init s =
     (if s_dma_driver_is_init s then (BK_OK, s)
      else
        let s = s\<lparr>chnl_bitmap := 0\<rparr>;
            s = s\<lparr>chnl_user := fold (\<lambda>i us. us[i := - 1]) [0..<DMA_ID_MAX] (chnl_user s)\<rparr>;
            s = s\<lparr>hal_hw_set := False, id_init_bits := 0\<rparr>;
            s = s\<lparr>s_dma_finish_isr := replicate SOC_DMA_CHAN_NUM_PER_UNIT NULL\<rparr>;
            s = s\<lparr>s_dma_half_finish_isr := replicate SOC_DMA_CHAN_NUM_PER_UNIT NULL\<rparr>;
            s = s\<lparr>gdma_isr_registered := True\<rparr>;
            s = on_hw dma_hal_init (s\<lparr>hal_hw_set := True\<rparr>)
        in (BK_OK, s\<lparr>s_dma_driver_is_init := True\<rparr>))"

definition bk_dma_driver_deinit :: "dma_driver_t \<Rightarrow> bk_err_t \<times> dma_driver_t" where
  "bk_dma_driver_deinit s =
     (if \<not> s_dma_driver_is_init s then (BK_OK, s)
      else
        let s = fold dma_id_deinit_common [0..<SOC_DMA_CHAN_NUM_PER_UNIT] s;
            s = s\<lparr>gdma_int_enabled := False\<rparr>
        in (BK_OK, s\<lparr>s_dma_driver_is_init := False\<rparr>))"

definition bk_dma_init :: "nat \<Rightarrow> dma_config_t option \<Rightarrow> dma_driver_t \<Rightarrow> bk_err_t \<times> dma_driver_t" where
  "bk_dma_init i config s = return_on_not_init s
     (case config of
        None \<Rightarrow> (BK_ERR_NULL_PARAM, s)
      | Some config \<Rightarrow> return_on_invalid_id i s
          (if invalid_addr (pc_start_addr (dc_src config)) (pc_end_addr (dc_src config))
           then (BK_ERR_DMA_INVALID_ADDR, s)
           else if invalid_addr (pc_start_addr (dc_dst config)) (pc_end_addr (dc_dst config))
           then (BK_ERR_DMA_INVALID_ADDR, s)
           else
             let s = dma_id_init_common i s; (ret, hw) = dma_hal_init_dma i config (dma_hw s)
             in (ret, s\<lparr>dma_hw := hw\<rparr>)))"

definition bk_dma_register_isr :: "nat \<Rightarrow> addr \<Rightarrow> addr \<Rightarrow> dma_driver_t \<Rightarrow> bk_err_t \<times> dma_driver_t" where
  "bk_dma_register_isr i half_finish_isr finish_isr s = return_on_not_init s (return_on_invalid_id i s
     (BK_OK, s\<lparr>s_dma_half_finish_isr := (s_dma_half_finish_isr s)[i := half_finish_isr],
                s_dma_finish_isr := (s_dma_finish_isr s)[i := finish_isr]\<rparr>))"

text \<open>
  \<^verbatim>\<open>bk_dma_deinit\<close> does not ask whether the driver is initialised; before the first
  initialisation the register pointer is NULL and the result is \<^const>\<open>None\<close>.
\<close>

definition bk_dma_deinit :: "nat \<Rightarrow> dma_driver_t \<Rightarrow> (bk_err_t \<times> dma_driver_t) option" where
  "bk_dma_deinit i s =
     (if SOC_DMA_CHAN_NUM_PER_UNIT \<le> i then Some (BK_ERR_DMA_ID, s)
      else if \<not> hal_hw_set s then None
      else Some (BK_OK, snd (bk_dma_register_isr i NULL NULL (dma_id_deinit_common i s))))"

section \<open>Transfers\<close>

definition bk_dma_start :: "nat \<Rightarrow> dma_driver_t \<Rightarrow> bk_err_t \<times> dma_driver_t" where
  "bk_dma_start i s = return_on_not_init s (return_on_id_not_init i s
     (BK_OK, on_hw (dma_hal_start_common i) s))"

definition bk_dma_stop :: "nat \<Rightarrow> dma_driver_t \<Rightarrow> bk_err_t \<times> dma_driver_t" where
  "bk_dma_stop i s = return_on_not_init s (return_on_id_not_init i s
     (BK_OK, on_hw (dma_hal_stop_common i) s))"

text \<open>Queries return an error code and a value in the same unsigned word.\<close>

definition dma_query :: "bool \<Rightarrow> nat \<Rightarrow> (dma_hw_t \<Rightarrow> nat \<Rightarrow> u32) \<Rightarrow> dma_driver_t \<Rightarrow> u32" where
  "dma_query by_init_bits i q s =
     (if \<not> s_dma_driver_is_init s then word_of_int BK_ERR_DMA_NOT_INIT
      else if by_init_bits \<and> id_init_bits s AND push_bit i 1 = 0 then word_of_int BK_ERR_DMA_ID_NOT_INIT
      else if \<not> by_init_bits \<and> SOC_DMA_CHAN_NUM_PER_UNIT \<le> i then word_of_int BK_ERR_DMA_ID
      else q (dma_hw s) i)"

definition bk_dma_get_enable_status :: "nat \<Rightarrow> dma_driver_t \<Rightarrow> u32" where
  "bk_dma_get_enable_status i = dma_query True i dma_ll_get_enable_status"

definition bk_dma_get_remain_len :: "nat \<Rightarrow> dma_driver_t \<Rightarrow> u32" where
  "bk_dma_get_remain_len i = dma_query True i dma_ll_get_remain_len"

definition dma_get_src_read_addr :: "nat \<Rightarrow> dma_driver_t \<Rightarrow> u32" where
  "dma_get_src_read_addr i = dma_query False i dma_ll_get_src_read_addr"

definition dma_get_dest_write_addr :: "nat \<Rightarrow> dma_driver_t \<Rightarrow> u32" where
  "dma_get_dest_write_addr i = dma_query False i dma_ll_get_dest_write_addr"

definition bk_dma_write :: "nat \<Rightarrow> addr \<Rightarrow> u32 \<Rightarrow> dma_driver_t \<Rightarrow> bk_err_t \<times> dma_driver_t" where
  "bk_dma_write i data sz s = return_on_not_init s (return_on_id_not_init i s
     (let s = on_hw (\<lambda>hw. dma_ll_set_src_start_addr hw i data) s;
          s = on_hw (\<lambda>hw. dma_ll_set_src_loop_addr hw i data (data + sz)) s;
          s = on_hw (\<lambda>hw. dma_ll_set_transfer_len hw i sz) s
      in (BK_OK, on_hw (dma_hal_start_common i) s)))"

definition bk_dma_read :: "nat \<Rightarrow> addr \<Rightarrow> u32 \<Rightarrow> dma_driver_t \<Rightarrow> bk_err_t \<times> dma_driver_t" where
  "bk_dma_read i data sz s = return_on_not_init s (return_on_id_not_init i s
     (let s = on_hw (\<lambda>hw. dma_ll_set_dest_start_addr hw i data) s;
          s = on_hw (\<lambda>hw. dma_ll_set_dest_loop_addr hw i data (data + sz)) s;
          s = on_hw (\<lambda>hw. dma_ll_set_transfer_len hw i sz) s
      in (BK_OK, on_hw (dma_hal_start_common i) s)))"

definition bk_dma_enable_finish_interrupt :: "nat \<Rightarrow> dma_driver_t \<Rightarrow> bk_err_t \<times> dma_driver_t" where
  "bk_dma_enable_finish_interrupt i s = return_on_id_not_init i s (return_on_invalid_id i s
     (BK_OK, on_hw (\<lambda>hw. dma_ll_enable_finish_interrupt hw i) (dma_id_enable_interrupt_common s)))"

definition bk_dma_disable_finish_interrupt :: "nat \<Rightarrow> dma_driver_t \<Rightarrow> bk_err_t \<times> dma_driver_t" where
  "bk_dma_disable_finish_interrupt i s = return_on_id_not_init i s (return_on_invalid_id i s
     (let s = on_hw (\<lambda>hw. dma_ll_disable_finish_interrupt hw i) s
      in (BK_OK, on_hw (\<lambda>hw. dma_ll_clear_finish_interrupt_status hw i) s)))"

definition bk_dma_enable_half_finish_interrupt :: "nat \<Rightarrow> dma_driver_t \<Rightarrow> bk_err_t \<times> dma_driver_t" where
  "bk_dma_enable_half_finish_interrupt i s = return_on_id_not_init i s (return_on_invalid_id i s
     (BK_OK, on_hw (\<lambda>hw. dma_ll_enable_half_finish_interrupt hw i) (dma_id_enable_interrupt_common s)))"

definition bk_dma_disable_half_finish_interrupt :: "nat \<Rightarrow> dma_driver_t \<Rightarrow> bk_err_t \<times> dma_driver_t" where
  "bk_dma_disable_half_finish_interrupt i s = return_on_id_not_init i s (return_on_invalid_id i s
     (let s = on_hw (\<lambda>hw. dma_ll_disable_half_finish_interrupt hw i) s
      in (BK_OK, on_hw (\<lambda>hw. dma_ll_clear_half_finish_interrupt_status hw i) s)))"

text \<open>Operations that set one or two registers of a channel share their guards.\<close>

definition dma_set :: "nat \<Rightarrow> (dma_hw_t \<Rightarrow> dma_hw_t) \<Rightarrow> dma_driver_t \<Rightarrow> bk_err_t \<times> dma_driver_t" where
  "dma_set i f s = return_on_not_init s (return_on_invalid_id i s (BK_OK, on_hw f s))"

definition bk_dma_set_transfer_len :: "nat \<Rightarrow> u32 \<Rightarrow> dma_driver_t \<Rightarrow> bk_err_t \<times> dma_driver_t" where
  "bk_dma_set_transfer_len i tran_len = dma_set i (\<lambda>hw. dma_ll_set_transfer_len hw i tran_len)"

definition bk_dma_set_src_addr :: "nat \<Rightarrow> u32 \<Rightarrow> u32 \<Rightarrow> dma_driver_t \<Rightarrow> bk_err_t \<times> dma_driver_t" where
  "bk_dma_set_src_addr i start_addr end_addr =
     dma_set i (\<lambda>hw. dma_ll_set_src_loop_addr (dma_ll_set_src_start_addr hw i start_addr) i start_addr end_addr)"

definition bk_dma_set_src_start_addr :: "nat \<Rightarrow> u32 \<Rightarrow> dma_driver_t \<Rightarrow> bk_err_t \<times> dma_driver_t" where
  "bk_dma_set_src_start_addr i start_addr = dma_set i (\<lambda>hw. dma_ll_set_src_start_addr hw i start_addr)"

definition bk_dma_set_dest_addr :: "nat \<Rightarrow> u32 \<Rightarrow> u32 \<Rightarrow> dma_driver_t \<Rightarrow> bk_err_t \<times> dma_driver_t" where
  "bk_dma_set_dest_addr i start_addr end_addr =
     dma_set i (\<lambda>hw. dma_ll_set_dest_loop_addr (dma_ll_set_dest_start_addr hw i start_addr) i start_addr end_addr)"

definition bk_dma_set_dest_start_addr :: "nat \<Rightarrow> u32 \<Rightarrow> dma_driver_t \<Rightarrow> bk_err_t \<times> dma_driver_t" where
  "bk_dma_set_dest_start_addr i start_addr = dma_set i (\<lambda>hw. dma_ll_set_dest_start_addr hw i start_addr)"

definition bk_dma_enable_src_addr_increase :: "nat \<Rightarrow> dma_driver_t \<Rightarrow> bk_err_t \<times> dma_driver_t" where
  "bk_dma_enable_src_addr_increase i = dma_set i (\<lambda>hw. dma_ll_enable_src_addr_inc hw i)"

definition bk_dma_disable_src_addr_increase :: "nat \<Rightarrow> dma_driver_t \<Rightarrow> bk_err_t \<times> dma_driver_t" where
  "bk_dma_disable_src_addr_increase i = dma_set i (\<lambda>hw. dma_ll_disable_src_addr_inc hw i)"

definition bk_dma_enable_src_addr_loop :: "nat \<Rightarrow> dma_driver_t \<Rightarrow> bk_err_t \<times> dma_driver_t" where
  "bk_dma_enable_src_addr_loop i = dma_set i (\<lambda>hw. dma_ll_enable_src_addr_loop hw i)"

definition bk_dma_disable_src_addr_loop :: "nat \<Rightarrow> dma_driver_t \<Rightarrow> bk_err_t \<times> dma_driver_t" where
  "bk_dma_disable_src_addr_loop i = dma_set i (\<lambda>hw. dma_ll_disable_src_addr_loop hw i)"

definition bk_dma_enable_dest_addr_increase :: "nat \<Rightarrow> dma_driver_t \<Rightarrow> bk_err_t \<times> dma_driver_t" where
  "bk_dma_enable_dest_addr_increase i = dma_set i (\<lambda>hw. dma_ll_enable_dest_addr_inc hw i)"

definition bk_dma_disable_dest_addr_increase :: "nat \<Rightarrow> dma_driver_t \<Rightarrow> bk_err_t \<times> dma_driver_t" where
  "bk_dma_disable_dest_addr_increase i = dma_set i (\<lambda>hw. dma_ll_disable_dest_addr_inc hw i)"

definition bk_dma_enable_dest_addr_loop :: "nat \<Rightarrow> dma_driver_t \<Rightarrow> bk_err_t \<times> dma_driver_t" where
  "bk_dma_enable_dest_addr_loop i = dma_set i (\<lambda>hw. dma_ll_enable_dest_addr_loop hw i)"

definition bk_dma_disable_dest_addr_loop :: "nat \<Rightarrow> dma_driver_t \<Rightarrow> bk_err_t \<times> dma_driver_t" where
  "bk_dma_disable_dest_addr_loop i = dma_set i (\<lambda>hw. dma_ll_disable_dest_addr_loop hw i)"

definition dma_set_src_pause_addr :: "nat \<Rightarrow> u32 \<Rightarrow> dma_driver_t \<Rightarrow> bk_err_t \<times> dma_driver_t" where
  "dma_set_src_pause_addr i a = dma_set i (\<lambda>hw. dma_ll_set_src_pause_addr hw i a)"

definition dma_set_dst_pause_addr :: "nat \<Rightarrow> u32 \<Rightarrow> dma_driver_t \<Rightarrow> bk_err_t \<times> dma_driver_t" where
  "dma_set_dst_pause_addr i a = dma_set i (\<lambda>hw. dma_ll_set_dest_pause_addr hw i a)"

definition bk_dma_set_src_data_width :: "nat \<Rightarrow> u32 \<Rightarrow> dma_driver_t \<Rightarrow> bk_err_t \<times> dma_driver_t" where
  "bk_dma_set_src_data_width i data_width = dma_set i (\<lambda>hw. dma_ll_set_src_data_width hw i data_width)"

definition bk_dma_set_dest_data_width :: "nat \<Rightarrow> u32 \<Rightarrow> dma_driver_t \<Rightarrow> bk_err_t \<times> dma_driver_t" where
  "bk_dma_set_dest_data_width i data_width = dma_set i (\<lambda>hw. dma_ll_set_dest_data_width hw i data_width)"

section \<open>Copying memory\<close>

text \<open>
  What the controller does between two polls: it may change its registers and the memory. The
  number is the number of the poll.
\<close>

type_synonym dma_engine = "nat \<Rightarrow> dma_hw_t \<times> (addr \<Rightarrow> u8) \<Rightarrow> dma_hw_t \<times> (addr \<Rightarrow> u8)"

definition dma_advance :: "dma_engine \<Rightarrow> nat \<Rightarrow> dma_driver_t \<Rightarrow> dma_driver_t" where
  "dma_advance engine k s =
     (let (hw, m) = engine k (dma_hw s, dma_mem s) in s\<lparr>dma_hw := hw, dma_mem := m\<rparr>)"

partial_function (option) dma_wait :: "dma_engine \<Rightarrow> nat \<Rightarrow> nat \<Rightarrow> dma_driver_t \<Rightarrow> dma_driver_t option"
where
  "dma_wait engine i k s =
     (let s = dma_advance engine k s
      in if dma_ll_get_enable_status (dma_hw s) i \<noteq> 0 then dma_wait engine i (Suc k) s else Some s)"

definition memcpy_config :: "addr \<Rightarrow> addr \<Rightarrow> u32 \<Rightarrow> dma_config_t" where
  "memcpy_config out inp len =
     \<lparr>dc_mode = 0, dc_chan_prio = 0,
      dc_src = \<lparr>pc_dev = DMA_DEV_DTCM, pc_width = 2, pc_addr_inc_en = 1, pc_addr_loop_en = 0,
                pc_start_addr = inp, pc_end_addr = inp + len\<rparr>,
      dc_dst = \<lparr>pc_dev = DMA_DEV_DTCM, pc_width = 2, pc_addr_inc_en = 1, pc_addr_loop_en = 0,
                pc_start_addr = out, pc_end_addr = out + len\<rparr>\<rparr>"

definition dma_memcpy_by_chnl ::
  "dma_engine \<Rightarrow> addr \<Rightarrow> addr \<Rightarrow> u32 \<Rightarrow> nat \<Rightarrow> dma_driver_t \<Rightarrow> (bk_err_t \<times> dma_driver_t) option"
where
  "dma_memcpy_by_chnl engine out inp len cpy_chnl s =
     (if \<not> s_dma_driver_is_init s then Some (BK_ERR_DMA_NOT_INIT, s)
      else if SOC_DMA_CHAN_NUM_PER_UNIT \<le> cpy_chnl then Some (BK_ERR_DMA_ID, s)
      else do {
        let s = snd (bk_dma_init cpy_chnl (Some (memcpy_config out inp len)) s);
        let s = on_hw (\<lambda>hw. dma_ll_set_transfer_len hw cpy_chnl len) s;
        let s = on_hw (dma_hal_start_common cpy_chnl) s;
        s \<leftarrow> dma_wait engine cpy_chnl 0 s;
        Some (BK_OK, s) })"

definition dma_memcpy ::
  "dma_engine \<Rightarrow> addr \<Rightarrow> addr \<Rightarrow> u32 \<Rightarrow> dma_driver_t \<Rightarrow> (bk_err_t \<times> dma_driver_t) option"
where
  "dma_memcpy engine out inp len s =
     (if \<not> s_dma_driver_is_init s then Some (BK_ERR_DMA_NOT_INIT, s)
      else
        let (cpy_chnl, s) = bk_dma_alloc (ucast DMA_DEV_DTCM) s
        in if SOC_DMA_CHAN_NUM_PER_UNIT \<le> cpy_chnl then Some (BK_ERR_DMA_ID, s)
           else do {
             (ret, s) \<leftarrow> dma_memcpy_by_chnl engine out inp len cpy_chnl s;
             Some (ret, snd (bk_dma_free (ucast DMA_DEV_DTCM) cpy_chnl s)) })"

section \<open>The interrupt handler\<close>

text \<open>The effect of a registered handler is a parameter; the handlers that run are listed.\<close>

type_synonym dma_isr_t = "addr \<Rightarrow> nat \<Rightarrow> dma_driver_t \<Rightarrow> dma_driver_t"

definition call_dma_isr :: "dma_isr_t \<Rightarrow> addr \<Rightarrow> nat \<Rightarrow> dma_driver_t \<Rightarrow> dma_driver_t" where
  "call_dma_isr run f i s = run f i (s\<lparr>dma_calls := dma_calls s @ [(f, i)]\<rparr>)"

definition dma_isr_channel :: "dma_isr_t \<Rightarrow> nat \<Rightarrow> dma_driver_t \<Rightarrow> dma_driver_t" where
  "dma_isr_channel run i s =
     (let s = (if dma_ll_is_half_finish_interrupt_triggered (dma_hw s) i
               then if s_dma_half_finish_isr s ! i \<noteq> NULL
                    then let s = on_hw (\<lambda>hw. dma_ll_clear_half_finish_interrupt_status hw i) s
                         in call_dma_isr run (s_dma_half_finish_isr s ! i) i s
                    else s
               else s)
      in if dma_ll_is_finish_interrupt_triggered (dma_hw s) i
         then if s_dma_finish_isr s ! i \<noteq> NULL
              then let s = on_hw (\<lambda>hw. dma_ll_clear_finish_interrupt_status hw i) s
                   in call_dma_isr run (s_dma_finish_isr s ! i) i s
              else s
         else s)"

definition dma_isr :: "dma_isr_t \<Rightarrow> dma_driver_t \<Rightarrow> dma_driver_t" where
  "dma_isr run = fold (dma_isr_channel run) [0..<SOC_DMA_CHAN_NUM_PER_UNIT]"

section \<open>The pool\<close>

definition dma_taken :: "dma_driver_t \<Rightarrow> nat set" where
  "dma_taken s = {i. i < DMA_ID_MAX \<and> bit (chnl_bitmap s) i}"

definition dma_request :: "u32 \<Rightarrow> dma_driver_t \<Rightarrow> nat option \<times> dma_driver_t" where
  "dma_request user s =
     (let (i, t) = dma_chnl_alloc user s in (if i < DMA_ID_MAX then Some i else None, t))"

definition dma_release :: "nat \<Rightarrow> dma_driver_t \<Rightarrow> dma_driver_t" where
  "dma_release i s = snd (dma_chnl_free (chnl_user s ! i) i s)"

lemma dma_chnl_alloc_cases:
  obtains (full) "dma_chnl_alloc user s = (DMA_ID_MAX, s)" "\<forall>i < DMA_ID_MAX. bit (chnl_bitmap s) i"
  | (chan) i t where "dma_chnl_alloc user s = (i, t)" "i < DMA_ID_MAX" "\<not> bit (chnl_bitmap s) i"
      "t = s\<lparr>chnl_bitmap := chnl_bitmap s OR push_bit i 1, chnl_user := (chnl_user s)[i := user]\<rparr>"
proof (cases "find (\<lambda>i. chnl_bitmap s AND push_bit i 1 = 0) [0..<DMA_ID_MAX]")
  case None
  then have "dma_chnl_alloc user s = (DMA_ID_MAX, s)" by (simp add: dma_chnl_alloc_def)
  moreover from None have "\<forall>i < DMA_ID_MAX. bit (chnl_bitmap s) i"
    by (auto simp: find_None_iff bit_iff_and_push_bit_not_eq_0)
  ultimately show thesis by (rule full)
next
  case (Some i)
  then have "dma_chnl_alloc user s =
      (i, s\<lparr>chnl_bitmap := chnl_bitmap s OR push_bit i 1, chnl_user := (chnl_user s)[i := user]\<rparr>)"
    by (simp add: dma_chnl_alloc_def)
  moreover from Some have "i < DMA_ID_MAX" "\<not> bit (chnl_bitmap s) i"
    by (auto simp: find_Some_iff bit_iff_and_push_bit_not_eq_0 nth_upt)
  ultimately show thesis by (intro chan [OF _ _ _ refl])
qed

interpretation dma_pool: slot_pool DMA_ID_MAX dma_taken "dma_request user" dma_release for user
proof unfold_locales
  fix s t i
  show "dma_taken s \<subseteq> {..<DMA_ID_MAX}" by (auto simp: dma_taken_def)
  show "dma_request user s = (None, t) \<Longrightarrow> dma_taken s = {..<DMA_ID_MAX} \<and> t = s"
    by (cases s rule: dma_chnl_alloc_cases [of user]) (auto simp: dma_taken_def dma_request_def)
  show "dma_request user s = (Some i, t) \<Longrightarrow> i \<notin> dma_taken s \<and> dma_taken t = insert i (dma_taken s)"
    by (cases s rule: dma_chnl_alloc_cases [of user])
      (auto simp: dma_taken_def dma_request_def dma_sizes bit_or_exp)
  show "i < DMA_ID_MAX \<Longrightarrow> dma_taken (dma_release i s) = dma_taken s - {i}"
    by (auto simp: dma_taken_def dma_release_def dma_chnl_free_def bit_and_not_exp)
qed

end
