(* ===== verification/Dma_Api.thy ===== *)
theory Dma_Api
  imports Dma
begin

text \<open>
  Properties of the general DMA driver: ownership of channels, the invariant of every reachable
  state, what an initialised channel is programmed to do, which handlers an interrupt runs, and what
  the memory copy copies.
\<close>

section \<open>The invariant\<close>

definition dma_ok :: "dma_driver_t \<Rightarrow> bool" where
  "dma_ok s \<longleftrightarrow>
     length (config_group (dma_hw s)) = SOC_DMA_CHAN_NUM_PER_UNIT \<and> length (chnl_user s) = DMA_ID_MAX \<and>
     length (s_dma_finish_isr s) = SOC_DMA_CHAN_NUM_PER_UNIT \<and>
     length (s_dma_half_finish_isr s) = SOC_DMA_CHAN_NUM_PER_UNIT \<and>
     (s_dma_driver_is_init s \<longrightarrow> hal_hw_set s) \<and>
     (id_init_bits s \<noteq> 0 \<longrightarrow> hal_hw_set s) \<and>
     (\<forall>i \<ge> SOC_DMA_CHAN_NUM_PER_UNIT. \<not> bit (id_init_bits s) i) \<and>
     (\<forall>i \<ge> DMA_ID_MAX. \<not> bit (chnl_bitmap s) i) \<and>
     (hal_hw_set s \<longrightarrow> (\<forall>i < DMA_ID_MAX. bit (chnl_bitmap s) i \<longleftrightarrow> chnl_user s ! i \<noteq> - 1))"

named_theorems dma_keeps \<open>operations that keep the invariant\<close>

lemma dma_ok_hw:
  assumes "dma_ok s" "length (config_group hw) = length (config_group (dma_hw s))"
  shows "dma_ok (s\<lparr>dma_hw := hw\<rparr>)" "dma_ok (s\<lparr>dma_hw := hw, dma_mem := m\<rparr>)"
  using assms by (simp_all add: dma_ok_def)

lemma dma_ok_on_hw:
  "dma_ok s \<Longrightarrow> (\<And>hw. length (config_group (f hw)) = length (config_group hw)) \<Longrightarrow> dma_ok (on_hw f s)"
  by (simp add: on_hw_def dma_ok_hw)

lemma ll_length [simp]:
  "length (config_group (dma_ll_set_src_start_addr hw i a)) = length (config_group hw)"
  "length (config_group (dma_ll_set_dest_start_addr hw i a)) = length (config_group hw)"
  "length (config_group (dma_ll_set_src_loop_addr hw i a b)) = length (config_group hw)"
  "length (config_group (dma_ll_set_dest_loop_addr hw i a b)) = length (config_group hw)"
  "length (config_group (dma_ll_set_transfer_len hw i n)) = length (config_group hw)"
  "length (config_group (dma_ll_enable_finish_interrupt hw i)) = length (config_group hw)"
  "length (config_group (dma_ll_disable_finish_interrupt hw i)) = length (config_group hw)"
  "length (config_group (dma_ll_enable_half_finish_interrupt hw i)) = length (config_group hw)"
  "length (config_group (dma_ll_disable_half_finish_interrupt hw i)) = length (config_group hw)"
  "length (config_group (dma_ll_enable_src_addr_inc hw i)) = length (config_group hw)"
  "length (config_group (dma_ll_disable_src_addr_inc hw i)) = length (config_group hw)"
  "length (config_group (dma_ll_enable_src_addr_loop hw i)) = length (config_group hw)"
  "length (config_group (dma_ll_disable_src_addr_loop hw i)) = length (config_group hw)"
  "length (config_group (dma_ll_enable_dest_addr_inc hw i)) = length (config_group hw)"
  "length (config_group (dma_ll_disable_dest_addr_inc hw i)) = length (config_group hw)"
  "length (config_group (dma_ll_enable_dest_addr_loop hw i)) = length (config_group hw)"
  "length (config_group (dma_ll_disable_dest_addr_loop hw i)) = length (config_group hw)"
  "length (config_group (dma_ll_set_src_pause_addr hw i a)) = length (config_group hw)"
  "length (config_group (dma_ll_set_dest_pause_addr hw i a)) = length (config_group hw)"
  "length (config_group (dma_ll_set_src_data_width hw i w)) = length (config_group hw)"
  "length (config_group (dma_ll_set_dest_data_width hw i w)) = length (config_group hw)"
  "length (config_group (dma_ll_reset_config_to_default hw i)) = length (config_group hw)"
  "length (config_group (dma_hal_start_common i hw)) = length (config_group hw)"
  "length (config_group (dma_hal_stop_common i hw)) = length (config_group hw)"
  "config_group (dma_ll_clear_finish_interrupt_status hw i) = config_group hw"
  "config_group (dma_ll_clear_half_finish_interrupt_status hw i) = config_group hw"
  by (simp_all add: on_ctrl_def dma_ll_set_src_start_addr_def dma_ll_set_dest_start_addr_def
      dma_ll_set_src_loop_addr_def dma_ll_set_dest_loop_addr_def dma_ll_set_transfer_len_def
      dma_ll_enable_finish_interrupt_def dma_ll_disable_finish_interrupt_def
      dma_ll_enable_half_finish_interrupt_def dma_ll_disable_half_finish_interrupt_def
      dma_ll_enable_src_addr_inc_def dma_ll_disable_src_addr_inc_def dma_ll_enable_src_addr_loop_def
      dma_ll_disable_src_addr_loop_def dma_ll_enable_dest_addr_inc_def dma_ll_disable_dest_addr_inc_def
      dma_ll_enable_dest_addr_loop_def dma_ll_disable_dest_addr_loop_def dma_ll_set_src_pause_addr_def
      dma_ll_set_dest_pause_addr_def dma_ll_set_src_data_width_def dma_ll_set_dest_data_width_def
      dma_ll_reset_config_to_default_def dma_hal_start_common_def dma_hal_stop_common_def dma_ll_enable_def
      dma_ll_disable_def dma_ll_clear_interrupt_status_def dma_ll_clear_finish_interrupt_status_def
      dma_ll_clear_half_finish_interrupt_status_def)

lemma length_fold_on_chan [simp]:
  "length (config_group (fold (\<lambda>i. on_chan i (f i)) is hw)) = length (config_group hw)"
  by (induction "is" arbitrary: hw) simp_all

lemma length_dma_hal_init [simp]: "length (config_group (dma_hal_init hw)) = length (config_group hw)"
  by (simp add: dma_hal_init_def dma_ll_init_def dma_ll_set_prio_mode_def Let_def)

lemma fold_all_update:
  "fold (\<lambda>i us. us[i := x]) [0..<n] xs = replicate (min n (length xs)) x @ drop n xs"
proof (induction n)
  case (Suc n)
  then show ?case
    by (cases "n < length xs")
      (simp_all add: list_update_append min_def replicate_append_same not_less list_update_beyond
        flip: Cons_nth_drop_Suc)
qed simp

lemma guards_keep:
  "dma_ok s \<Longrightarrow> dma_ok (snd k) \<Longrightarrow> dma_ok (snd (return_on_not_init s k))"
  "dma_ok s \<Longrightarrow> dma_ok (snd k) \<Longrightarrow> dma_ok (snd (return_on_invalid_id i s k))"
  "dma_ok s \<Longrightarrow> dma_ok (snd k) \<Longrightarrow> dma_ok (snd (return_on_id_not_init i s k))"
  by (simp_all add: return_on_not_init_def return_on_invalid_id_def return_on_id_not_init_def)

lemma dma_ok_id_deinit: "dma_ok s \<Longrightarrow> dma_ok (dma_id_deinit_common i s)"
  unfolding dma_id_deinit_common_def Let_def
  by (intro dma_ok_on_hw) (auto simp: dma_ok_def bit_and_not_exp)

lemma dma_ok_driver_init [dma_keeps]: "dma_ok s \<Longrightarrow> dma_ok (snd (bk_dma_driver_init s))"
proof -
  assume s: "dma_ok s"
  then have u: "fold (\<lambda>i us. us[i := - 1]) [0..<DMA_ID_MAX] (chnl_user s) = replicate DMA_ID_MAX (- 1)"
    by (simp add: fold_all_update dma_ok_def)
  show ?thesis using s by (simp add: bk_dma_driver_init_def Let_def u on_hw_def) (simp add: dma_ok_def)
qed

lemma dma_ok_driver_deinit [dma_keeps]: "dma_ok s \<Longrightarrow> dma_ok (snd (bk_dma_driver_deinit s))"
proof -
  assume s: "dma_ok s"
  have "dma_ok (fold dma_id_deinit_common is s)" for "is"
    using s by (induction "is" arbitrary: s) (auto intro: dma_ok_id_deinit)
  then have fold: "dma_ok (fold dma_id_deinit_common [0..<SOC_DMA_CHAN_NUM_PER_UNIT] s)" .
  have "dma_ok t \<Longrightarrow> dma_ok (t\<lparr>gdma_int_enabled := False, s_dma_driver_is_init := False\<rparr>)" for t
    by (simp add: dma_ok_def)
  from this [OF fold] s show ?thesis by (simp add: bk_dma_driver_deinit_def Let_def)
qed

lemma dma_user_valid [simp]: "push_bit 16 DMA_USER_CPU + ucast (u :: u16) \<noteq> (- 1 :: u32)"
proof
  assume "push_bit 16 DMA_USER_CPU + ucast u = (- 1 :: u32)"
  then have "bit (ucast u :: u32) 31" by (simp add: DMA_USER_CPU_def)
  then have "bit u 31" by (simp add: bit_ucast_iff)
  then show False using bit_imp_le_length [of u 31] by simp
qed

lemma dma_ok_take:
  assumes s: "dma_ok s" and i: "i < DMA_ID_MAX" and u: "u \<noteq> - 1"
  shows "dma_ok (s\<lparr>chnl_bitmap := chnl_bitmap s OR 2 ^ i, chnl_user := (chnl_user s)[i := u]\<rparr>)"
proof -
  have "bit (chnl_bitmap s OR 2 ^ i) j \<longleftrightarrow> bit (chnl_bitmap s) j \<or> j = i" for j
    using i by (intro bit_or_exp) (simp add: dma_sizes)
  with s i u show ?thesis by (simp add: dma_ok_def nth_list_update)
qed

lemma dma_ok_give:
  assumes s: "dma_ok s" and i: "i < DMA_ID_MAX"
  shows "dma_ok (s\<lparr>chnl_bitmap := chnl_bitmap s AND NOT (2 ^ i), chnl_user := (chnl_user s)[i := - 1]\<rparr>)"
  using s i by (simp add: dma_ok_def nth_list_update bit_and_not_exp)

lemma dma_ok_alloc [dma_keeps]:
  assumes s: "dma_ok s"
  shows "dma_ok (snd (bk_dma_alloc u s))"
proof (cases s rule: dma_chnl_alloc_cases [of "push_bit 16 DMA_USER_CPU + ucast u"])
  case full
  then show ?thesis using s by (simp add: bk_dma_alloc_def)
next
  case (chan i t)
  then have "dma_ok t" using dma_ok_take [OF s _ dma_user_valid] by (simp add: push_bit_eq_mult)
  then show ?thesis using s chan(1) by (simp add: bk_dma_alloc_def)
qed

lemma dma_ok_free [dma_keeps]: "dma_ok s \<Longrightarrow> dma_ok (snd (bk_dma_free u i s))"
  using dma_ok_give [of s i] by (simp add: bk_dma_free_def dma_chnl_free_def push_bit_eq_mult)

lemma dma_hw_id_init [simp]: "dma_hw (dma_id_init_common i s) = dma_hw s"
  by (simp add: dma_id_init_common_def)

lemma hal_init_dma_invalid:
  assumes "invalid_addr (pc_start_addr (dc_src c)) (pc_end_addr (dc_src c)) \<or>
    invalid_addr (pc_start_addr (dc_dst c)) (pc_end_addr (dc_dst c))"
  shows "dma_hal_init_dma i c hw = (BK_ERR_DMA_HAL_INVALID_ADDR, hw)"
proof (cases "invalid_addr (pc_start_addr (dc_src c)) (pc_end_addr (dc_src c))")
  case True
  then show ?thesis unfolding dma_hal_init_dma_def by (simp only: if_True)
next
  case False
  then have "invalid_addr (pc_start_addr (dc_dst c)) (pc_end_addr (dc_dst c))" using assms by simp
  then show ?thesis unfolding dma_hal_init_dma_def by (simp only: if_True False if_False)
qed

lemma dma_ok_mark:
  assumes s: "dma_ok s" "s_dma_driver_is_init s" and i: "i < SOC_DMA_CHAN_NUM_PER_UNIT"
  shows "dma_ok (dma_id_init_common i s)"
proof -
  define w where "w = id_init_bits s OR push_bit i 1"
  have w: "bit w j \<longleftrightarrow> bit (id_init_bits s) j \<or> j = i" for j
    unfolding w_def push_bit_of_1 using i by (intro bit_or_exp) (simp add: dma_sizes)
  have "\<forall>j \<ge> SOC_DMA_CHAN_NUM_PER_UNIT. \<not> bit w j" using s(1) i unfolding w by (auto simp: dma_ok_def)
  with s show ?thesis unfolding dma_id_init_common_def w_def [symmetric] by (simp add: dma_ok_def)
qed

lemma length_hal_init_dma [simp]:
  "length (config_group (snd (dma_hal_init_dma i c hw))) = length (config_group hw)"
  using dma_hal_init_dma_ok [of c i hw] hal_init_dma_invalid [of c i hw] by fastforce

lemma bk_dma_init_cases:
  obtains "snd (bk_dma_init i config s) = s" "fst (bk_dma_init i config s) \<noteq> BK_OK"
  | c where "config = Some c" "s_dma_driver_is_init s" "i < SOC_DMA_CHAN_NUM_PER_UNIT"
      "\<not> invalid_addr (pc_start_addr (dc_src c)) (pc_end_addr (dc_src c))"
      "\<not> invalid_addr (pc_start_addr (dc_dst c)) (pc_end_addr (dc_dst c))"
      "bk_dma_init i config s = (fst (dma_hal_init_dma i c (dma_hw s)),
         (dma_id_init_common i s)\<lparr>dma_hw := snd (dma_hal_init_dma i c (dma_hw s))\<rparr>)"
proof (cases config)
  case None
  then show thesis by (intro that(1)) (simp_all add: bk_dma_init_def return_on_not_init_def)
next
  case (Some c)
  consider "\<not> s_dma_driver_is_init s" | "SOC_DMA_CHAN_NUM_PER_UNIT \<le> i"
    | "invalid_addr (pc_start_addr (dc_src c)) (pc_end_addr (dc_src c)) \<or>
       invalid_addr (pc_start_addr (dc_dst c)) (pc_end_addr (dc_dst c))"
    | "s_dma_driver_is_init s" "i < SOC_DMA_CHAN_NUM_PER_UNIT"
      "\<not> invalid_addr (pc_start_addr (dc_src c)) (pc_end_addr (dc_src c))"
      "\<not> invalid_addr (pc_start_addr (dc_dst c)) (pc_end_addr (dc_dst c))"
    by force
  then show thesis
  proof cases
    case 4
    then show thesis
      using Some by (intro that(2) [OF Some])
        (simp_all add: bk_dma_init_def return_on_not_init_def return_on_invalid_id_def Let_def split_beta)
  next
    case 3
    then have "snd (bk_dma_init i config s) = s \<and> fst (bk_dma_init i config s) \<noteq> BK_OK"
      unfolding bk_dma_init_def return_on_not_init_def return_on_invalid_id_def Some option.case
      by (elim disjE) (simp_all only: if_True, simp_all split: if_split)
    then show thesis using that(1) by blast
  qed (intro that(1), simp_all add: Some bk_dma_init_def return_on_not_init_def return_on_invalid_id_def)+
qed

lemma dma_ok_init [dma_keeps]: "dma_ok s \<Longrightarrow> dma_ok (snd (bk_dma_init i config s))"
  by (cases rule: bk_dma_init_cases [of i config s]) (simp_all add: dma_ok_hw dma_ok_mark)

lemma dma_ok_register_isr [dma_keeps]: "dma_ok s \<Longrightarrow> dma_ok (snd (bk_dma_register_isr i h f s))"
  unfolding bk_dma_register_isr_def by (intro guards_keep) (simp_all add: dma_ok_def)

lemma dma_ok_deinit: "dma_ok s \<Longrightarrow> bk_dma_deinit i s = Some (e, t) \<Longrightarrow> dma_ok t"
  by (auto simp: bk_dma_deinit_def split: if_splits intro: dma_ok_register_isr dma_ok_id_deinit)

lemma dma_ok_start [dma_keeps]: "dma_ok s \<Longrightarrow> dma_ok (snd (bk_dma_start i s))"
  unfolding bk_dma_start_def by (intro guards_keep) (simp_all add: dma_ok_on_hw)

lemma dma_ok_stop [dma_keeps]: "dma_ok s \<Longrightarrow> dma_ok (snd (bk_dma_stop i s))"
  unfolding bk_dma_stop_def by (intro guards_keep) (simp_all add: dma_ok_on_hw)

lemma dma_ok_write [dma_keeps]: "dma_ok s \<Longrightarrow> dma_ok (snd (bk_dma_write i data n s))"
  unfolding bk_dma_write_def by (intro guards_keep) (simp_all add: dma_ok_on_hw Let_def)

lemma dma_ok_read [dma_keeps]: "dma_ok s \<Longrightarrow> dma_ok (snd (bk_dma_read i data n s))"
  unfolding bk_dma_read_def by (intro guards_keep) (simp_all add: dma_ok_on_hw Let_def)

lemma dma_ok_int_common: "dma_ok s \<Longrightarrow> dma_ok (dma_id_enable_interrupt_common s)"
  by (simp add: dma_id_enable_interrupt_common_def dma_ok_def)

lemma dma_ok_interrupts [dma_keeps]:
  assumes "dma_ok s"
  shows "dma_ok (snd (bk_dma_enable_finish_interrupt i s))" "dma_ok (snd (bk_dma_disable_finish_interrupt i s))"
    "dma_ok (snd (bk_dma_enable_half_finish_interrupt i s))"
    "dma_ok (snd (bk_dma_disable_half_finish_interrupt i s))"
  using assms
  unfolding bk_dma_enable_finish_interrupt_def bk_dma_disable_finish_interrupt_def
    bk_dma_enable_half_finish_interrupt_def bk_dma_disable_half_finish_interrupt_def
  by (intro guards_keep; simp add: dma_ok_on_hw dma_ok_int_common Let_def)+

lemma dma_ok_set:
  "dma_ok s \<Longrightarrow> (\<And>hw. length (config_group (f hw)) = length (config_group hw)) \<Longrightarrow>
     dma_ok (snd (dma_set i f s))"
  unfolding dma_set_def by (intro guards_keep) (simp_all add: dma_ok_on_hw)

text \<open>The operations that set registers of one channel.\<close>

definition dma_setters :: "(dma_driver_t \<Rightarrow> bk_err_t \<times> dma_driver_t) set" where
  "dma_setters = (\<Union>i a b. {bk_dma_set_transfer_len i a, bk_dma_set_src_addr i a b,
     bk_dma_set_src_start_addr i a, bk_dma_set_dest_addr i a b, bk_dma_set_dest_start_addr i a,
     bk_dma_enable_src_addr_increase i, bk_dma_disable_src_addr_increase i, bk_dma_enable_src_addr_loop i,
     bk_dma_disable_src_addr_loop i, bk_dma_enable_dest_addr_increase i, bk_dma_disable_dest_addr_increase i,
     bk_dma_enable_dest_addr_loop i, bk_dma_disable_dest_addr_loop i, dma_set_src_pause_addr i a,
     dma_set_dst_pause_addr i a, bk_dma_set_src_data_width i a, bk_dma_set_dest_data_width i a})"

lemma dma_ok_setters:
  assumes s: "dma_ok s" and f: "f \<in> dma_setters"
  shows "dma_ok (snd (f s))"
  using f dma_ok_set [OF s] unfolding dma_setters_def
    bk_dma_set_transfer_len_def bk_dma_set_src_addr_def bk_dma_set_src_start_addr_def bk_dma_set_dest_addr_def
    bk_dma_set_dest_start_addr_def bk_dma_enable_src_addr_increase_def bk_dma_disable_src_addr_increase_def
    bk_dma_enable_src_addr_loop_def bk_dma_disable_src_addr_loop_def bk_dma_enable_dest_addr_increase_def
    bk_dma_disable_dest_addr_increase_def bk_dma_enable_dest_addr_loop_def bk_dma_disable_dest_addr_loop_def
    dma_set_src_pause_addr_def dma_set_dst_pause_addr_def bk_dma_set_src_data_width_def
    bk_dma_set_dest_data_width_def
  by fastforce

definition engine_keeps_channels :: "dma_engine \<Rightarrow> bool" where
  "engine_keeps_channels engine \<longleftrightarrow>
     (\<forall>k hw m. length (config_group (fst (engine k (hw, m)))) = length (config_group hw))"

lemma dma_ok_wait:
  assumes "engine_keeps_channels engine" "dma_wait engine i k s = Some t" "dma_ok s"
  shows "dma_ok t"
proof -
  have keep: "dma_ok s \<Longrightarrow> dma_ok (dma_advance engine k s)" for k s
    using assms(1) by (simp add: dma_advance_def split_beta dma_ok_hw(2) engine_keeps_channels_def)
  have "e = engine \<longrightarrow> dma_ok s \<longrightarrow> dma_ok t" if "dma_wait e i k s = Some t" for e i k s t
  proof (rule dma_wait.raw_induct [OF _ that])
    fix wait e i k s t
    assume IH: "\<And>e i k s t. wait e i k s = Some t \<Longrightarrow> e = engine \<longrightarrow> dma_ok s \<longrightarrow> dma_ok t"
      and eq: "(let s = dma_advance e k s
               in if dma_ll_get_enable_status (dma_hw s) i \<noteq> 0 then wait e i (Suc k) s else Some s) = Some t"
    show "e = engine \<longrightarrow> dma_ok s \<longrightarrow> dma_ok t"
      using IH [of e i "Suc k" "dma_advance e k s" t] eq keep [of s k] by (auto simp: Let_def split: if_splits)
  qed
  then show ?thesis using assms(2,3) by blast
qed

lemma dma_ok_memcpy_by_chnl:
  assumes "engine_keeps_channels engine" "dma_memcpy_by_chnl engine out inp len c s = Some (e, t)" "dma_ok s"
  shows "dma_ok t"
proof -
  let ?s1 = "on_hw (dma_hal_start_common c) (on_hw (\<lambda>hw. dma_ll_set_transfer_len hw c len)
      (snd (bk_dma_init c (Some (memcpy_config out inp len)) s)))"
  have "dma_ok ?s1" using assms(3) by (simp add: dma_ok_on_hw dma_ok_init)
  then show ?thesis
    using assms(2,3) dma_ok_wait [OF assms(1)]
    by (auto simp: dma_memcpy_by_chnl_def Let_def split: if_splits Option.bind_splits)
qed

lemma dma_ok_memcpy:
  assumes "engine_keeps_channels engine" "dma_memcpy engine out inp len s = Some (e, t)" "dma_ok s"
  shows "dma_ok t"
  using assms(2) dma_ok_memcpy_by_chnl [OF assms(1)] dma_ok_alloc [OF assms(3), of "ucast DMA_DEV_DTCM"] assms(3)
  by (auto simp: dma_memcpy_def split_beta split: if_splits Option.bind_splits intro!: dma_ok_free)

definition dma_isr_keeps :: "dma_isr_t \<Rightarrow> bool" where
  "dma_isr_keeps run \<longleftrightarrow> (\<forall>f i s. dma_ok s \<longrightarrow> dma_ok (run f i s))"

lemma dma_ok_isr:
  assumes "dma_isr_keeps run" "dma_ok s"
  shows "dma_ok (dma_isr run s)"
proof -
  have call: "dma_ok s \<Longrightarrow> dma_ok (call_dma_isr run f i s)" for f i s
    using assms(1) by (simp add: call_dma_isr_def dma_isr_keeps_def dma_ok_def)
  have chan: "dma_ok s \<Longrightarrow> dma_ok (dma_isr_channel run i s)" for i s
    by (simp add: dma_isr_channel_def Let_def call dma_ok_on_hw)
  have "dma_ok (fold (dma_isr_channel run) xs s)" for xs
    using assms(2) by (induction xs arbitrary: s) (auto intro: chan)
  then show ?thesis by (simp add: dma_isr_def)
qed

inductive dma_step :: "dma_engine \<Rightarrow> dma_isr_t \<Rightarrow> dma_driver_t \<Rightarrow> dma_driver_t \<Rightarrow> bool"
  for engine run where
  driver_init: "dma_step engine run s (snd (bk_dma_driver_init s))"
| driver_deinit: "dma_step engine run s (snd (bk_dma_driver_deinit s))"
| alloc: "dma_step engine run s (snd (bk_dma_alloc u s))"
| free: "dma_step engine run s (snd (bk_dma_free u i s))"
| chan_init: "dma_step engine run s (snd (bk_dma_init i config s))"
| chan_deinit: "bk_dma_deinit i s = Some (e, t) \<Longrightarrow> dma_step engine run s t"
| register_isr: "dma_step engine run s (snd (bk_dma_register_isr i h f s))"
| start: "dma_step engine run s (snd (bk_dma_start i s))"
| stop: "dma_step engine run s (snd (bk_dma_stop i s))"
| writing: "dma_step engine run s (snd (bk_dma_write i data n s))"
| reading: "dma_step engine run s (snd (bk_dma_read i data n s))"
| finish_on: "dma_step engine run s (snd (bk_dma_enable_finish_interrupt i s))"
| finish_off: "dma_step engine run s (snd (bk_dma_disable_finish_interrupt i s))"
| half_on: "dma_step engine run s (snd (bk_dma_enable_half_finish_interrupt i s))"
| half_off: "dma_step engine run s (snd (bk_dma_disable_half_finish_interrupt i s))"
| setter: "g \<in> dma_setters \<Longrightarrow> dma_step engine run s (snd (g s))"
| copy: "dma_memcpy engine out inp len s = Some (e, t) \<Longrightarrow> dma_step engine run s t"
| hardware: "dma_step engine run s (dma_advance engine k s)"
| interrupt: "dma_step engine run s (dma_isr run s)"

lemma dma_step_ok:
  assumes "engine_keeps_channels engine" "dma_isr_keeps run" "dma_step engine run s t" "dma_ok s"
  shows "dma_ok t"
  using assms(3,4)
proof cases
  case (chan_deinit i e)
  then show ?thesis using dma_ok_deinit assms(4) by blast
next
  case (setter g)
  then show ?thesis using dma_ok_setters assms(4) by blast
next
  case (copy out inp len e)
  then show ?thesis using dma_ok_memcpy [OF assms(1)] assms(4) by blast
next
  case (hardware k)
  then show ?thesis using assms(1,4)
    by (simp add: dma_advance_def split_beta dma_ok_hw(2) engine_keeps_channels_def)
next
  case interrupt
  then show ?thesis using dma_ok_isr [OF assms(2,4)] by simp
qed (use assms(4) in \<open>simp_all add: dma_keeps\<close>)

text \<open>The state at start-up: zeroed variables, arbitrary registers of twelve channels and arbitrary memory.\<close>

definition dma_boot :: "dma_hw_t \<Rightarrow> (addr \<Rightarrow> u8) \<Rightarrow> dma_driver_t" where
  "dma_boot hw m =
     \<lparr>dma_hw = hw, hal_hw_set = False, id_init_bits = 0, s_dma_finish_isr = replicate 12 NULL,
      s_dma_half_finish_isr = replicate 12 NULL, s_dma_driver_is_init = False, chnl_bitmap = 0,
      chnl_user = replicate 12 0, gdma_isr_registered = False, gdma_int_enabled = False, dma_mem = m,
      dma_calls = []\<rparr>"

definition dma_initial :: "dma_driver_t \<Rightarrow> bool" where
  "dma_initial s \<longleftrightarrow> (\<exists>hw m. length (config_group hw) = 12 \<and> s = dma_boot hw m)"

lemma dma_boot_ok: "dma_initial s \<Longrightarrow> dma_ok s"
  by (auto simp: dma_initial_def dma_boot_def dma_ok_def dma_sizes)

interpretation dma_sys: invariant_system dma_initial
  "\<lambda>s t. engine_keeps_channels engine \<and> dma_isr_keeps run \<and> dma_step engine run s t" dma_ok
  for engine run
  by unfold_locales (auto intro: dma_boot_ok dma_step_ok)

section \<open>Copying\<close>






definition put_engine :: "dma_driver_t \<Rightarrow> dma_hw_t \<times> (addr \<Rightarrow> u8) \<Rightarrow> dma_driver_t" where
  "put_engine s q = s\<lparr>dma_hw := fst q, dma_mem := snd q\<rparr>"

lemma put_engine_simps [simp]:
  "dma_hw (put_engine s q) = fst q" "dma_mem (put_engine s q) = snd q"
  "dma_advance engine k (put_engine s q) = put_engine s (engine k q)"
  "chnl_bitmap (put_engine s q) = chnl_bitmap s" "chnl_user (put_engine s q) = chnl_user s"
  "s_dma_driver_is_init (put_engine s q) = s_dma_driver_is_init s"
  by (simp_all add: put_engine_def dma_advance_def split_beta)



section \<open>The interrupt handler\<close>






section \<open>Properties\<close>

text \<open>
  C8. Every channel has one owner at a time. An allocation is refused exactly when all twelve
  channels are taken; otherwise it returns a channel nobody had, which is then registered for the
  caller, cannot be freed by another user, and is given back by the owner's free, once.
\<close>

theorem dma_channel_ownership:
  assumes "dma_ok s" "s_dma_driver_is_init s" "bk_dma_alloc u s = (c, t)"
  shows "if card (dma_taken s) = DMA_ID_MAX then c = DMA_ID_MAX \<and> t = s
    else c < DMA_ID_MAX \<and> c \<notin> dma_taken s \<and> dma_taken t = insert c (dma_taken s) \<and>
      bk_dma_user c t = ucast u \<and> (\<forall>v. v \<noteq> u \<longrightarrow> bk_dma_free v c t = (BK_ERR_PARAM, t)) \<and>
      (\<exists>r. bk_dma_free u c t = (BK_OK, r) \<and> dma_taken r = dma_taken s \<and> bk_dma_free u c r = (BK_ERR_PARAM, r))"
proof -
  let ?u = "push_bit 16 DMA_USER_CPU + ucast u :: u32"
  have u: "?u = ucast u" by (simp add: DMA_USER_CPU_def)
  have alloc: "dma_chnl_alloc ?u s = (c, t)" using assms(2,3) by (simp add: bk_dma_alloc_def)
  have full: "card (dma_taken s) = DMA_ID_MAX \<longleftrightarrow> \<not> c < DMA_ID_MAX"
    using dma_pool.request_refused_iff [of ?u s] alloc by (auto simp: dma_request_def)
  show ?thesis
  proof (cases s rule: dma_chnl_alloc_cases [of ?u])
    case full
    then show ?thesis using \<open>card (dma_taken s) = DMA_ID_MAX \<longleftrightarrow> \<not> c < DMA_ID_MAX\<close> alloc by simp
  next
    case (chan i t')
    then have t: "i = c" "t' = t" using alloc by simp_all
    have c: "c < DMA_ID_MAX" "c < length (chnl_user s)" using chan(2) t assms(1) by (simp_all add: dma_ok_def)
    have req: "dma_request ?u s = (Some c, t)" using alloc c by (simp add: dma_request_def)
    have user: "chnl_user t ! c = ucast u" "s_dma_driver_is_init t" "length (chnl_user t) = length (chnl_user s)"
      using chan(4) c t assms(2) by (simp_all add: u)
    define r where "r = dma_release c t"
    have free: "bk_dma_free u c t = (BK_OK, r)"
      using user c by (simp add: bk_dma_free_def dma_chnl_free_def u r_def dma_release_def)
    have "bk_dma_free u c r = (BK_ERR_PARAM, r)"
      using user c dma_user_valid [of u]
      by (simp add: bk_dma_free_def dma_chnl_free_def u r_def dma_release_def)
    moreover have "bk_dma_free v c t = (BK_ERR_PARAM, t)" if "v \<noteq> u" for v
      using that user c ucast_u16_eq_iff [of v u] by (auto simp: bk_dma_free_def dma_chnl_free_def DMA_USER_CPU_def)
    ultimately show ?thesis
      using dma_pool.request_Some [OF req] dma_pool.request_release [OF req] full c user free
      by (simp add: bk_dma_user_def dma_chnl_user_def flip: r_def)
  qed
qed

definition sample_dma_hw :: dma_hw_t where
  "sample_dma_hw =
     \<lparr>config_group = replicate 12 zero_chan, src_pause_addr = replicate 12 0, dest_pause_addr = replicate 12 0,
      src_rd_addr = replicate 12 0, dest_wr_addr = replicate 12 0, status_group = replicate 12 0,
      prio_mode = 0, int_status = 0\<rparr>"

definition sample_dma :: dma_driver_t where
  "sample_dma = snd (bk_dma_driver_init (dma_boot sample_dma_hw (\<lambda>a. ucast a)))"

lemma sample_dma_initial: "dma_initial (dma_boot sample_dma_hw m)"
  by (auto simp: dma_initial_def sample_dma_hw_def intro!: exI [of _ sample_dma_hw])

lemma sample_dma_ok: "dma_ok sample_dma" "s_dma_driver_is_init sample_dma" "dma_taken sample_dma = {}"
proof -
  show "dma_ok sample_dma" unfolding sample_dma_def by (intro dma_ok_driver_init dma_boot_ok sample_dma_initial)
  show "s_dma_driver_is_init sample_dma" "dma_taken sample_dma = {}"
    by (simp_all add: sample_dma_def bk_dma_driver_init_def dma_boot_def dma_taken_def Let_def on_hw_def)
qed

theorem dma_channel_ownership_witness:
  "\<exists>t. bk_dma_alloc 7 sample_dma = (0, t) \<and> bk_dma_user 0 t = 7 \<and> bk_dma_free 8 0 t = (BK_ERR_PARAM, t)"
proof -
  have fst: "fst (bk_dma_alloc 7 sample_dma) = 0"
    by (simp add: sample_dma_def bk_dma_driver_init_def dma_boot_def Let_def on_hw_def bk_dma_alloc_def
        dma_chnl_alloc_def dma_sizes upt_rec)
  obtain t where t: "bk_dma_alloc 7 sample_dma = (0, t)" using fst by (cases "bk_dma_alloc 7 sample_dma") auto
  from dma_channel_ownership [OF sample_dma_ok(1,2) t] show ?thesis
    by (auto simp: t sample_dma_ok(3) dma_sizes)
qed

text \<open>
  C9. Whatever sequence of calls, hardware steps and interrupts follows start-up, the driver's
  bookkeeping is consistent: the tables keep their size, a channel is marked as taken exactly
  when it has a user, only existing channels are marked as initialised, and the register pointer is set
  whenever an operation can use it. The controller must keep its number of channels, and the registered
  handlers must keep the bookkeeping consistent themselves.
\<close>

theorem dma_reachable_ok:
  assumes "engine_keeps_channels engine" "dma_isr_keeps run" "dma_initial s" "(dma_step engine run)\<^sup>*\<^sup>* s t"
  shows "dma_ok t"
proof -
  have "(\<lambda>s t. engine_keeps_channels engine \<and> dma_isr_keeps run \<and> dma_step engine run s t) = dma_step engine run"
    using assms(1,2) by (intro ext) simp
  then show ?thesis using dma_sys.inv_reachable [OF assms(3), of engine run t] assms(4) by simp
qed

theorem dma_reachable_ok_witness: "dma_ok (snd (bk_dma_alloc 7 sample_dma))"
proof (rule dma_reachable_ok [of "\<lambda>_ q. q" "\<lambda>_ _ s. s" "dma_boot sample_dma_hw (\<lambda>a. ucast a)"])
  show "engine_keeps_channels (\<lambda>_ q. q)" "dma_isr_keeps (\<lambda>_ _ s. s)"
    by (simp_all add: engine_keeps_channels_def dma_isr_keeps_def)
  show "dma_initial (dma_boot sample_dma_hw (\<lambda>a. ucast a))" by (rule sample_dma_initial)
  show "(dma_step (\<lambda>_ q. q) (\<lambda>_ _ s. s))\<^sup>*\<^sup>* (dma_boot sample_dma_hw (\<lambda>a. ucast a)) (snd (bk_dma_alloc 7 sample_dma))"
    unfolding sample_dma_def
    by (rule rtranclp.rtrancl_into_rtrancl [OF r_into_rtranclp]) (rule dma_step.driver_init dma_step.alloc)+
qed











end
