(* ===== verification/Mailbox.thy ===== *)
theory Mailbox
  imports Bitfield
begin

text \<open>
  The inter-processor mailbox driver: the registers and low-level accessors of
  \<^verbatim>\<open>middleware/soc/bk7235/hal/mailbox_ll.h\<close>, the hardware layer
  \<^verbatim>\<open>soc/common/hal/mailbox_hal.c\<close>, and the driver
  \<^verbatim>\<open>middleware/driver/mailbox/mailbox_driver_base.c\<close> with the configuration table of
  the bk7235.

  The state is an extensible record, so that the layers above add their variables to it. The
  registers of a mailbox are shared with the other processor, which may read and change them at any
  time; what it does is a field of the state, a function that is applied whenever
  the driver looks at the ready bits. Received messages are handed to callbacks, whose effect is a
  parameter.
\<close>

section \<open>Registers\<close>

record s_mailbox_t =
  box0_param0 :: u32
  box0_param1 :: u32
  box0_param2 :: u32
  box0_param3 :: u32
  box1_param0 :: u32
  box1_param1 :: u32
  box1_param2 :: u32
  box1_param3 :: u32
  box_ready :: u32
  box_clear :: u32
  sender :: u32
  receiver :: u32

record mailbox_data_t =
  param0 :: u32
  param1 :: u32
  param2 :: u32
  param3 :: u32

definition MAILBOX_BOX0 :: u32 where "MAILBOX_BOX0 = 0"
definition MAILBOX_BOX1 :: u32 where "MAILBOX_BOX1 = 1"
definition MAILBOX_NONE :: u32 where "MAILBOX_NONE = 2"

lemmas box_nums = MAILBOX_BOX0_def MAILBOX_BOX1_def MAILBOX_NONE_def

abbreviation ready_bit :: "u32 \<Rightarrow> nat" where
  "ready_bit box \<equiv> (if box = 0 then 0 else 1)"

definition MAILBOX_LL_REG_BASE :: "u32 \<Rightarrow> addr" where
  "MAILBOX_LL_REG_BASE i = 0xA0000000 + 0x8000 * i"

definition mailbox_ll_set_identity :: "s_mailbox_t \<Rightarrow> u32 \<Rightarrow> s_mailbox_t" where
  "mailbox_ll_set_identity hw i =
     (if i = 0 then
        let hw = hw\<lparr>sender := set_field 0 1 1 (sender hw)\<rparr>;
            hw = hw\<lparr>receiver := set_field 0 1 0 (receiver hw)\<rparr>;
            hw = hw\<lparr>sender := set_field 1 1 0 (sender hw)\<rparr>
        in hw\<lparr>receiver := set_field 1 1 1 (receiver hw)\<rparr>
      else if i = 1 then
        let hw = hw\<lparr>sender := set_field 1 1 1 (sender hw)\<rparr>;
            hw = hw\<lparr>receiver := set_field 1 1 0 (receiver hw)\<rparr>;
            hw = hw\<lparr>sender := set_field 0 1 0 (sender hw)\<rparr>
        in hw\<lparr>receiver := set_field 0 1 1 (receiver hw)\<rparr>
      else hw)"

definition mailbox_ll_get_sender :: "s_mailbox_t \<Rightarrow> u32 \<Rightarrow> u32" where
  "mailbox_ll_get_sender hw i =
     (if i = 0 then get_field 0 1 (sender hw)
      else if i = 1 then get_field 1 1 (sender hw)
      else word_of_int BK_FAIL)"

definition mailbox_ll_get_receiver :: "s_mailbox_t \<Rightarrow> u32 \<Rightarrow> u32" where
  "mailbox_ll_get_receiver hw i =
     (if i = 0 then get_field 0 1 (receiver hw)
      else if i = 1 then get_field 1 1 (receiver hw)
      else word_of_int BK_FAIL)"

definition mailbox_ll_box0_init :: "s_mailbox_t \<Rightarrow> s_mailbox_t" where
  "mailbox_ll_box0_init hw = hw\<lparr>box0_param0 := 0, box0_param1 := 0, box0_param2 := 0, box0_param3 := 0\<rparr>"

definition mailbox_ll_box1_init :: "s_mailbox_t \<Rightarrow> s_mailbox_t" where
  "mailbox_ll_box1_init hw = hw\<lparr>box1_param0 := 0, box1_param1 := 0, box1_param2 := 0, box1_param3 := 0\<rparr>"

definition mailbox_ll_write_param0 :: "s_mailbox_t \<Rightarrow> u32 \<Rightarrow> u32 \<Rightarrow> s_mailbox_t" where
  "mailbox_ll_write_param0 hw p box = (if box = 0 then hw\<lparr>box0_param0 := p\<rparr> else hw\<lparr>box1_param0 := p\<rparr>)"

definition mailbox_ll_write_param1 :: "s_mailbox_t \<Rightarrow> u32 \<Rightarrow> u32 \<Rightarrow> s_mailbox_t" where
  "mailbox_ll_write_param1 hw p box = (if box = 0 then hw\<lparr>box0_param1 := p\<rparr> else hw\<lparr>box1_param1 := p\<rparr>)"

definition mailbox_ll_write_param2 :: "s_mailbox_t \<Rightarrow> u32 \<Rightarrow> u32 \<Rightarrow> s_mailbox_t" where
  "mailbox_ll_write_param2 hw p box = (if box = 0 then hw\<lparr>box0_param2 := p\<rparr> else hw\<lparr>box1_param2 := p\<rparr>)"

definition mailbox_ll_write_param3 :: "s_mailbox_t \<Rightarrow> u32 \<Rightarrow> u32 \<Rightarrow> s_mailbox_t" where
  "mailbox_ll_write_param3 hw p box = (if box = 0 then hw\<lparr>box0_param3 := p\<rparr> else hw\<lparr>box1_param3 := p\<rparr>)"

definition mailbox_ll_read_param0 :: "s_mailbox_t \<Rightarrow> u32 \<Rightarrow> u32" where
  "mailbox_ll_read_param0 hw box = (if box = 0 then box0_param0 hw else box1_param0 hw)"

definition mailbox_ll_read_param1 :: "s_mailbox_t \<Rightarrow> u32 \<Rightarrow> u32" where
  "mailbox_ll_read_param1 hw box = (if box = 0 then box0_param1 hw else box1_param1 hw)"

definition mailbox_ll_read_param2 :: "s_mailbox_t \<Rightarrow> u32 \<Rightarrow> u32" where
  "mailbox_ll_read_param2 hw box = (if box = 0 then box0_param2 hw else box1_param2 hw)"

definition mailbox_ll_read_param3 :: "s_mailbox_t \<Rightarrow> u32 \<Rightarrow> u32" where
  "mailbox_ll_read_param3 hw box = (if box = 0 then box0_param3 hw else box1_param3 hw)"

definition mailbox_ll_box_trigger_ready :: "s_mailbox_t \<Rightarrow> u32 \<Rightarrow> s_mailbox_t" where
  "mailbox_ll_box_trigger_ready hw box = hw\<lparr>box_ready := set_field (ready_bit box) 1 0 (box_ready hw)\<rparr>"

definition mailbox_ll_box_trigger :: "s_mailbox_t \<Rightarrow> u32 \<Rightarrow> s_mailbox_t" where
  "mailbox_ll_box_trigger hw box = hw\<lparr>box_ready := set_field (ready_bit box) 1 1 (box_ready hw)\<rparr>"

definition mailbox_ll_read_box_ready :: "s_mailbox_t \<Rightarrow> u32 \<Rightarrow> u32" where
  "mailbox_ll_read_box_ready hw box = get_field (ready_bit box) 1 (box_ready hw)"

definition mailbox_ll_box_clear :: "s_mailbox_t \<Rightarrow> u32 \<Rightarrow> s_mailbox_t" where
  "mailbox_ll_box_clear hw box = hw\<lparr>box_clear := set_field (ready_bit box) 1 1 (box_clear hw)\<rparr>"

definition mailbox_ll_box_clear_ready :: "s_mailbox_t \<Rightarrow> u32 \<Rightarrow> s_mailbox_t" where
  "mailbox_ll_box_clear_ready hw box = hw\<lparr>box_clear := set_field (ready_bit box) 1 0 (box_clear hw)\<rparr>"

definition mailbox_ll_read_box_erasure :: "s_mailbox_t \<Rightarrow> u32 \<Rightarrow> u32" where
  "mailbox_ll_read_box_erasure hw box = get_field (ready_bit box) 1 (box_clear hw)"

definition mailbox_ll_box_init :: "s_mailbox_t \<Rightarrow> s_mailbox_t" where
  "mailbox_ll_box_init hw =
     (let hw = mailbox_ll_box0_init hw;
          hw = mailbox_ll_box1_init hw;
          hw = mailbox_ll_box_trigger_ready hw MAILBOX_BOX0;
          hw = mailbox_ll_box_trigger_ready hw MAILBOX_BOX1;
          hw = mailbox_ll_box_clear_ready hw MAILBOX_BOX0
      in mailbox_ll_box_clear_ready hw MAILBOX_BOX1)"

section \<open>Driver state\<close>

datatype mailbox_endpoint_t =
  MAILBOX_CPU0 | MAILBOX_CPU1 | MAILBOX_DSP | MAILBOX_BT | MAILBOX_ENDPOINT_INVALID

text \<open>The interrupt sources that matter here; the zero of the enumeration is another source.\<close>

datatype icu_int_src_t = INT_SRC_OTHER | INT_SRC_MAILBOX0 | INT_SRC_MAILBOX1 | INT_SRC_NONE

datatype mailbox_isr_t = No_isr | mailbox_service0 | mailbox_service1

record mailbox_hal_t =
  hal_hw :: addr
  hal_id :: u32

record mailbox_config_t =
  cfg_id :: u32
  cfg_icu_src :: icu_int_src_t
  cfg_src :: mailbox_endpoint_t
  cfg_dst :: mailbox_endpoint_t

record mailbox_info_t =
  mi_hal :: mailbox_hal_t
  mi_dir :: mailbox_config_t
  mi_isr :: mailbox_isr_t
  mi_rx :: "addr list"

definition MAILBAOX_CONFIG_INFO_TABLE :: "mailbox_config_t list" where
  "MAILBAOX_CONFIG_INFO_TABLE =
     [\<lparr>cfg_id = 0, cfg_icu_src = INT_SRC_NONE, cfg_src = MAILBOX_CPU0, cfg_dst = MAILBOX_CPU1\<rparr>,
      \<lparr>cfg_id = 1, cfg_icu_src = INT_SRC_MAILBOX1, cfg_src = MAILBOX_CPU1, cfg_dst = MAILBOX_CPU0\<rparr>]"

abbreviation BK_ERR_MAILBOX_BASE :: bk_err_t where "BK_ERR_MAILBOX_BASE \<equiv> - 0x2b00"
abbreviation BK_ERR_MAILBOX_SRC_DST :: bk_err_t where "BK_ERR_MAILBOX_SRC_DST \<equiv> BK_ERR_MAILBOX_BASE - 1"
abbreviation BK_ERR_MAILBOX_ID :: bk_err_t where "BK_ERR_MAILBOX_ID \<equiv> BK_ERR_MAILBOX_BASE - 2"
abbreviation BK_ERR_MAILBOX_CALLBACK :: bk_err_t where "BK_ERR_MAILBOX_CALLBACK \<equiv> BK_ERR_MAILBOX_BASE - 4"
abbreviation BK_ERR_MAILBOX_TIMEOUT :: bk_err_t where "BK_ERR_MAILBOX_TIMEOUT \<equiv> BK_ERR_MAILBOX_BASE - 5"
abbreviation BK_ERR_MAILBOX_NOT_INIT :: bk_err_t where "BK_ERR_MAILBOX_NOT_INIT \<equiv> BK_ERR_MAILBOX_BASE - 6"
abbreviation BK_ERR_MAILBOX_REPEAT_INIT :: bk_err_t where "BK_ERR_MAILBOX_REPEAT_INIT \<equiv> BK_ERR_MAILBOX_BASE - 7"

type_synonym mb_regs = "addr \<Rightarrow> s_mailbox_t"

record mb_state =
  s_mailbox :: "mailbox_info_t list"
  s_mailbox_is_init :: bool
  regs :: mb_regs
  isr_of :: "icu_int_src_t \<Rightarrow> mailbox_isr_t"
  int_enabled :: "mailbox_endpoint_t \<Rightarrow> bool"
  peer :: "nat \<Rightarrow> mb_regs \<Rightarrow> mb_regs"
  looks :: nat

definition hw_of :: "u32 \<Rightarrow> 'a mb_state_scheme \<Rightarrow> addr" where
  "hw_of i s = hal_hw (mi_hal (s_mailbox s ! unat i))"

definition on_regs :: "addr \<Rightarrow> (s_mailbox_t \<Rightarrow> s_mailbox_t) \<Rightarrow> 'a mb_state_scheme \<Rightarrow> 'a mb_state_scheme" where
  "on_regs a f s = s\<lparr>regs := (regs s)(a := f (regs s a))\<rparr>"

definition on_info :: "nat \<Rightarrow> (mailbox_info_t \<Rightarrow> mailbox_info_t) \<Rightarrow> 'a mb_state_scheme \<Rightarrow> 'a mb_state_scheme" where
  "on_info i f s = s\<lparr>s_mailbox := (s_mailbox s)[i := f (s_mailbox s ! i)]\<rparr>"

text \<open>A look at the ready bits of a mailbox: the other processor may have moved before it.\<close>

definition look :: "'a mb_state_scheme \<Rightarrow> 'a mb_state_scheme" where
  "look s = s\<lparr>regs := peer s (looks s) (regs s), looks := Suc (looks s)\<rparr>"

definition read_box_ready :: "addr \<Rightarrow> u32 \<Rightarrow> 'a mb_state_scheme \<Rightarrow> u32 \<times> 'a mb_state_scheme" where
  "read_box_ready hw box s = (let s = look s in (mailbox_ll_read_box_ready (regs s hw) box, s))"

section \<open>The hardware layer\<close>

definition SOC_MAILBOX_NUM :: u32 where "SOC_MAILBOX_NUM = 2"

definition mailbox_hal_addr_init :: "mailbox_hal_t \<Rightarrow> bk_err_t \<times> mailbox_hal_t" where
  "mailbox_hal_addr_init hal =
     (if SOC_MAILBOX_NUM \<le> hal_id hal then (BK_FAIL, hal)
      else (BK_OK, hal\<lparr>hal_hw := MAILBOX_LL_REG_BASE (hal_id hal)\<rparr>))"

definition mailbox_hal_set_identity :: "mailbox_hal_t \<Rightarrow> 'a mb_state_scheme \<Rightarrow> 'a mb_state_scheme" where
  "mailbox_hal_set_identity hal s =
     (if SOC_MAILBOX_NUM \<le> hal_id hal then s
      else if hal_id hal \<in> {0, 1, 2, 3}
      then on_regs (hal_hw hal) (\<lambda>hw. mailbox_ll_set_identity hw (hal_id hal)) s
      else s)"

definition mailbox_hal_check_which_box_ready :: "addr \<Rightarrow> 'a mb_state_scheme \<Rightarrow> u32 \<times> 'a mb_state_scheme" where
  "mailbox_hal_check_which_box_ready hw s =
     (let (r, s) = read_box_ready hw MAILBOX_BOX0 s
      in if r = 0 then (MAILBOX_BOX0, s)
         else let (r, s) = read_box_ready hw MAILBOX_BOX1 s
              in if r = 0 then (MAILBOX_BOX1, s) else (MAILBOX_NONE, s))"

definition mailbox_hal_check_which_box_trigger :: "addr \<Rightarrow> 'a mb_state_scheme \<Rightarrow> u32 \<times> 'a mb_state_scheme" where
  "mailbox_hal_check_which_box_trigger hw s =
     (let (r, s) = read_box_ready hw MAILBOX_BOX0 s
      in if r \<noteq> 0 then (MAILBOX_BOX0, s)
         else let (r, s) = read_box_ready hw MAILBOX_BOX1 s
              in if r \<noteq> 0 then (MAILBOX_BOX1, s) else (MAILBOX_NONE, s))"

section \<open>The driver\<close>

definition mailbox_interrupt_enable :: "mailbox_endpoint_t \<Rightarrow> 'a mb_state_scheme \<Rightarrow> 'a mb_state_scheme" where
  "mailbox_interrupt_enable src s =
     (case src of
        MAILBOX_CPU0 \<Rightarrow> s\<lparr>int_enabled := (int_enabled s)(MAILBOX_CPU0 := True)\<rparr>
      | MAILBOX_CPU1 \<Rightarrow> s\<lparr>int_enabled := (int_enabled s)(MAILBOX_CPU1 := True)\<rparr>
      | _ \<Rightarrow> s)"

definition mailbox_interrupt_disable :: "mailbox_endpoint_t \<Rightarrow> 'a mb_state_scheme \<Rightarrow> 'a mb_state_scheme" where
  "mailbox_interrupt_disable src s =
     (case src of
        MAILBOX_CPU0 \<Rightarrow> s\<lparr>int_enabled := (int_enabled s)(MAILBOX_CPU0 := False)\<rparr>
      | MAILBOX_CPU1 \<Rightarrow> s\<lparr>int_enabled := (int_enabled s)(MAILBOX_CPU1 := False)\<rparr>
      | _ \<Rightarrow> s)"

definition mailbox_interrupt_service :: "mailbox_info_t \<Rightarrow> mailbox_info_t" where
  "mailbox_interrupt_service m =
     (case cfg_icu_src (mi_dir m) of
        INT_SRC_MAILBOX0 \<Rightarrow> m\<lparr>mi_isr := mailbox_service0\<rparr>
      | INT_SRC_MAILBOX1 \<Rightarrow> m\<lparr>mi_isr := mailbox_service1\<rparr>
      | _ \<Rightarrow> m)"

definition mailbox_config_entry :: "mailbox_config_t \<Rightarrow> 'a mb_state_scheme \<Rightarrow> 'a mb_state_scheme" where
  "mailbox_config_entry cfg s =
     (let i = unat (cfg_id cfg);
          s = on_info i (\<lambda>m. m\<lparr>mi_hal := (mi_hal m)\<lparr>hal_id := cfg_id cfg\<rparr>\<rparr>) s;
          s = on_info i (\<lambda>m. m\<lparr>mi_dir := cfg\<rparr>) s;
          s = on_info i mailbox_interrupt_service s;
          s = on_info i (\<lambda>m. m\<lparr>mi_hal := snd (mailbox_hal_addr_init (mi_hal m))\<rparr>) s;
          s = mailbox_hal_set_identity (mi_hal (s_mailbox s ! i)) s
      in on_regs (hal_hw (mi_hal (s_mailbox s ! i))) mailbox_ll_box_init s)"

definition mailbox_config :: "'a mb_state_scheme \<Rightarrow> 'a mb_state_scheme" where
  "mailbox_config = fold mailbox_config_entry MAILBAOX_CONFIG_INFO_TABLE"

definition mailbox_init_entry :: "nat \<Rightarrow> 'a mb_state_scheme \<Rightarrow> 'a mb_state_scheme" where
  "mailbox_init_entry i s =
     (let m = s_mailbox s ! i
      in if cfg_icu_src (mi_dir m) = INT_SRC_NONE then s
         else mailbox_interrupt_enable (cfg_src (mi_dir m))
                (s\<lparr>isr_of := (isr_of s)(cfg_icu_src (mi_dir m) := mi_isr m)\<rparr>))"

definition bk_mailbox_init :: "'a mb_state_scheme \<Rightarrow> bk_err_t \<times> 'a mb_state_scheme" where
  "bk_mailbox_init s =
     (if s_mailbox_is_init s then (BK_ERR_MAILBOX_REPEAT_INIT, s)
      else
        let s = s\<lparr>s_mailbox_is_init := True\<rparr>;
            s = mailbox_config s
        in (BK_OK, fold mailbox_init_entry [0..<length MAILBAOX_CONFIG_INFO_TABLE] s))"

definition mailbox_deinit_entry :: "nat \<Rightarrow> 'a mb_state_scheme \<Rightarrow> 'a mb_state_scheme" where
  "mailbox_deinit_entry i s =
     (let s = on_regs (hal_hw (mi_hal (s_mailbox s ! i))) mailbox_ll_box_init s;
          m = s_mailbox s ! i
      in if mi_isr m = No_isr then s
         else mailbox_interrupt_disable (cfg_src (mi_dir m))
                (s\<lparr>isr_of := (isr_of s)(cfg_icu_src (mi_dir m) := No_isr)\<rparr>))"

definition bk_mailbox_deinit :: "'a mb_state_scheme \<Rightarrow> bk_err_t \<times> 'a mb_state_scheme" where
  "bk_mailbox_deinit s =
     (if \<not> s_mailbox_is_init s then (BK_ERR_MAILBOX_NOT_INIT, s)
      else
        let s = fold mailbox_deinit_entry [0..<length MAILBAOX_CONFIG_INFO_TABLE] s
        in (BK_OK, s\<lparr>s_mailbox_is_init := False\<rparr>))"

definition bk_mailbox_set_param ::
  "u32 \<Rightarrow> u32 \<Rightarrow> u32 \<Rightarrow> u32 \<Rightarrow> mailbox_data_t \<Rightarrow> 'a mb_state_scheme \<Rightarrow> bk_err_t \<times> mailbox_data_t" where
  "bk_mailbox_set_param p0 p1 p2 p3 data s =
     (if \<not> s_mailbox_is_init s then (BK_ERR_MAILBOX_NOT_INIT, data)
      else (BK_OK, data\<lparr>param0 := p0, param1 := p1, param2 := p2, param3 := p3\<rparr>))"

text \<open>
  The search returns the identifier of the mailbox or, in the same unsigned type, an error code;
  the caller tells them apart by comparing with the number of mailboxes.
\<close>

definition mailbox_check_src_dst ::
  "mailbox_endpoint_t \<Rightarrow> mailbox_endpoint_t \<Rightarrow> 'a mb_state_scheme \<Rightarrow> u32" where
  "mailbox_check_src_dst src dst s =
     (case find (\<lambda>i. cfg_src (mi_dir (s_mailbox s ! i)) = src \<and> cfg_dst (mi_dir (s_mailbox s ! i)) = dst)
             [0..<length MAILBAOX_CONFIG_INFO_TABLE] of
        Some i \<Rightarrow> hal_id (mi_hal (s_mailbox s ! i))
      | None \<Rightarrow> word_of_int BK_ERR_MAILBOX_SRC_DST)"

definition mailbox_write_data :: "mailbox_data_t \<Rightarrow> u32 \<Rightarrow> u32 \<Rightarrow> 'a mb_state_scheme \<Rightarrow> 'a mb_state_scheme" where
  "mailbox_write_data data i box s =
     (let s = on_regs (hw_of i s) (\<lambda>hw. mailbox_ll_write_param0 hw (param0 data) box) s;
          s = on_regs (hw_of i s) (\<lambda>hw. mailbox_ll_write_param1 hw (param1 data) box) s;
          s = on_regs (hw_of i s) (\<lambda>hw. mailbox_ll_write_param2 hw (param2 data) box) s
      in on_regs (hw_of i s) (\<lambda>hw. mailbox_ll_write_param3 hw (param3 data) box) s)"

definition MAILBOX_SEND_WAIT_COUNT :: nat where "MAILBOX_SEND_WAIT_COUNT = 1000"

fun mailbox_wait_box :: "nat \<Rightarrow> addr \<Rightarrow> 'a mb_state_scheme \<Rightarrow> u32 \<times> 'a mb_state_scheme" where
  "mailbox_wait_box 0 hw s = (MAILBOX_NONE, s)"
| "mailbox_wait_box (Suc n) hw s =
     (let (box, s) = mailbox_hal_check_which_box_ready hw s
      in if box \<noteq> MAILBOX_NONE then (box, s) else mailbox_wait_box n hw s)"

text \<open>\<open>arg\<close> is the value that the optional last argument of \<^verbatim>\<open>bk_mailbox_send\<close> points to.\<close>

definition mailbox_send_box :: "mailbox_data_t \<Rightarrow> u32 \<Rightarrow> u32 \<Rightarrow> 'a mb_state_scheme \<Rightarrow> 'a mb_state_scheme" where
  "mailbox_send_box data i box s =
     (let s = on_regs (hw_of i s) (\<lambda>hw. mailbox_ll_box_clear_ready hw box) s;
          s = mailbox_write_data data i box s
      in on_regs (hw_of i s) (\<lambda>hw. mailbox_ll_box_trigger hw box) s)"

definition bk_mailbox_send ::
  "mailbox_data_t \<Rightarrow> mailbox_endpoint_t \<Rightarrow> mailbox_endpoint_t \<Rightarrow> u16 option \<Rightarrow>
     'a mb_state_scheme \<Rightarrow> bk_err_t \<times> 'a mb_state_scheme" where
  "bk_mailbox_send data src dst arg s =
     (if \<not> s_mailbox_is_init s then (BK_ERR_MAILBOX_NOT_INIT, s)
      else
        let i = mailbox_check_src_dst src dst s
        in if length MAILBAOX_CONFIG_INFO_TABLE \<le> unat i then (BK_ERR_MAILBOX_SRC_DST, s)
           else case arg of
             None \<Rightarrow>
               let (box, s) = mailbox_wait_box MAILBOX_SEND_WAIT_COUNT (hw_of i s) s
               in if box = MAILBOX_NONE then (BK_ERR_MAILBOX_TIMEOUT, s)
                  else (BK_OK, mailbox_send_box data i box s)
           | Some a \<Rightarrow>
               let box = ucast (a AND 0xFF)
               in if box \<noteq> MAILBOX_BOX0 \<and> box \<noteq> MAILBOX_BOX1 then (BK_ERR_MAILBOX_ID, s)
                  else let (r, s) = read_box_ready (hw_of i s) box s
                       in if r \<noteq> 0 then (BK_ERR_MAILBOX_TIMEOUT, s)
                          else (BK_OK, mailbox_send_box data i box s))"

definition mailbox_receive_data :: "u32 \<Rightarrow> u32 \<Rightarrow> 'a mb_state_scheme \<Rightarrow> mailbox_data_t" where
  "mailbox_receive_data i box s =
     \<lparr>param0 = mailbox_ll_read_param0 (regs s (hw_of i s)) box,
      param1 = mailbox_ll_read_param1 (regs s (hw_of i s)) box,
      param2 = mailbox_ll_read_param2 (regs s (hw_of i s)) box,
      param3 = mailbox_ll_read_param3 (regs s (hw_of i s)) box\<rparr>"

text \<open>A receive callback gets a pointer to the message, which it may change for the next one.\<close>

type_synonym 'a mailbox_callback =
  "addr \<Rightarrow> mailbox_data_t \<Rightarrow> 'a mb_state_scheme \<Rightarrow> mailbox_data_t \<times> 'a mb_state_scheme"

definition MAILBOX_CALLBACK_NUMBER :: nat where "MAILBOX_CALLBACK_NUMBER = 2"

definition mailbox_call_rx ::
  "'a mailbox_callback \<Rightarrow> u32 \<Rightarrow> nat \<Rightarrow> mailbox_data_t \<times> 'a mb_state_scheme \<Rightarrow>
     mailbox_data_t \<times> 'a mb_state_scheme" where
  "mailbox_call_rx run i num ds =
     (let (data, s) = ds; rx = mi_rx (s_mailbox s ! unat i) ! num
      in if rx \<noteq> NULL then run rx data s else (data, s))"

definition mailbox_receive_isr :: "'a mailbox_callback \<Rightarrow> u32 \<Rightarrow> 'a mb_state_scheme \<Rightarrow> 'a mb_state_scheme" where
  "mailbox_receive_isr run i s =
     (let (box, s) = mailbox_hal_check_which_box_trigger (hw_of i s) s
      in if box = MAILBOX_NONE then s
         else
           let data = mailbox_receive_data i box s;
               s = on_regs (hw_of i s) (\<lambda>hw. mailbox_ll_box_clear hw box) s
           in snd (fold (mailbox_call_rx run i) [0..<MAILBOX_CALLBACK_NUMBER] (data, s)))"

definition bk_mailbox_recv_callback_register ::
  "mailbox_endpoint_t \<Rightarrow> mailbox_endpoint_t \<Rightarrow> addr \<Rightarrow> 'a mb_state_scheme \<Rightarrow> bk_err_t \<times> 'a mb_state_scheme" where
  "bk_mailbox_recv_callback_register src dst callback s =
     (if \<not> s_mailbox_is_init s then (BK_ERR_MAILBOX_NOT_INIT, s)
      else
        let i = mailbox_check_src_dst src dst s
        in if length MAILBAOX_CONFIG_INFO_TABLE \<le> unat i then (BK_ERR_MAILBOX_SRC_DST, s)
           else case find (\<lambda>num. mi_rx (s_mailbox s ! unat i) ! num \<in> {NULL, callback})
                       [0..<MAILBOX_CALLBACK_NUMBER] of
             Some num \<Rightarrow> (BK_OK, on_info (unat i) (\<lambda>m. m\<lparr>mi_rx := (mi_rx m)[num := callback]\<rparr>) s)
           | None \<Rightarrow> (BK_ERR_MAILBOX_CALLBACK, s))"

definition bk_mailbox_recv_callback_unregister ::
  "mailbox_endpoint_t \<Rightarrow> mailbox_endpoint_t \<Rightarrow> 'a mb_state_scheme \<Rightarrow> bk_err_t \<times> 'a mb_state_scheme" where
  "bk_mailbox_recv_callback_unregister src dst s =
     (if \<not> s_mailbox_is_init s then (BK_ERR_MAILBOX_NOT_INIT, s)
      else
        let i = mailbox_check_src_dst src dst s
        in if length MAILBAOX_CONFIG_INFO_TABLE \<le> unat i then (BK_ERR_MAILBOX_SRC_DST, s)
           else case find (\<lambda>num. mi_rx (s_mailbox s ! unat i) ! num \<noteq> NULL)
                       [0..<MAILBOX_CALLBACK_NUMBER] of
             Some num \<Rightarrow> (BK_OK, on_info (unat i) (\<lambda>m. m\<lparr>mi_rx := (mi_rx m)[num := NULL]\<rparr>) s)
           | None \<Rightarrow> (BK_ERR_MAILBOX_CALLBACK, s))"

definition last_id_with :: "icu_int_src_t \<Rightarrow> 'a mb_state_scheme \<Rightarrow> u32" where
  "last_id_with irq s =
     fold (\<lambda>i r. if cfg_icu_src (mi_dir (s_mailbox s ! i)) \<noteq> irq then r
                 else cfg_id (mi_dir (s_mailbox s ! i)))
       [0..<length MAILBAOX_CONFIG_INFO_TABLE] 0"

definition mailbox_service0_isr :: "'a mailbox_callback \<Rightarrow> 'a mb_state_scheme \<Rightarrow> 'a mb_state_scheme" where
  "mailbox_service0_isr run s = mailbox_receive_isr run (last_id_with INT_SRC_MAILBOX0 s) s"

definition mailbox_service1_isr :: "'a mailbox_callback \<Rightarrow> 'a mb_state_scheme \<Rightarrow> 'a mb_state_scheme" where
  "mailbox_service1_isr run s = mailbox_receive_isr run (last_id_with INT_SRC_MAILBOX1 s) s"

section \<open>What an initialised driver looks like\<close>

definition mb_entry_ok :: "nat \<Rightarrow> mailbox_info_t \<Rightarrow> bool" where
  "mb_entry_ok i m \<longleftrightarrow>
     mi_hal m = \<lparr>hal_hw = MAILBOX_LL_REG_BASE (of_nat i), hal_id = of_nat i\<rparr> \<and>
     mi_dir m = MAILBAOX_CONFIG_INFO_TABLE ! i \<and> length (mi_rx m) = MAILBOX_CALLBACK_NUMBER"

definition mb_ok :: "'a mb_state_scheme \<Rightarrow> bool" where
  "mb_ok s \<longleftrightarrow>
     s_mailbox_is_init s \<and> length (s_mailbox s) = 2 \<and>
     mb_entry_ok 0 (s_mailbox s ! 0) \<and> mb_entry_ok 1 (s_mailbox s ! 1)"

lemma table_simps [simp]:
  "length MAILBAOX_CONFIG_INFO_TABLE = 2"
  "MAILBAOX_CONFIG_INFO_TABLE ! 0 =
     \<lparr>cfg_id = 0, cfg_icu_src = INT_SRC_NONE, cfg_src = MAILBOX_CPU0, cfg_dst = MAILBOX_CPU1\<rparr>"
  "MAILBAOX_CONFIG_INFO_TABLE ! Suc 0 =
     \<lparr>cfg_id = 1, cfg_icu_src = INT_SRC_MAILBOX1, cfg_src = MAILBOX_CPU1, cfg_dst = MAILBOX_CPU0\<rparr>"
  by (simp_all add: MAILBAOX_CONFIG_INFO_TABLE_def)

lemma mb_ok_cong:
  "s_mailbox t = s_mailbox s \<Longrightarrow> s_mailbox_is_init t = s_mailbox_is_init s \<Longrightarrow> mb_ok t = mb_ok s"
  by (simp add: mb_ok_def)

lemma on_regs_simps [simp]:
  "s_mailbox (on_regs a f s) = s_mailbox s" "s_mailbox_is_init (on_regs a f s) = s_mailbox_is_init s"
  "regs (on_regs a f s) = (regs s)(a := f (regs s a))" "hw_of i (on_regs a f s) = hw_of i s"
  "peer (on_regs a f s) = peer s" "looks (on_regs a f s) = looks s"
  "mb_state.more (on_regs a f s) = mb_state.more s"
  by (simp_all add: on_regs_def hw_of_def)

lemma look_simps [simp]:
  "s_mailbox (look s) = s_mailbox s" "s_mailbox_is_init (look s) = s_mailbox_is_init s"
  "hw_of i (look s) = hw_of i s" "peer (look s) = peer s" "mb_state.more (look s) = mb_state.more s"
  by (simp_all add: look_def hw_of_def)

lemma mb_ok_simps [simp]:
  "mb_ok (on_regs a f s) = mb_ok s" "mb_ok (look s) = mb_ok s"
  by (rule mb_ok_cong; simp)+

lemma on_regs_twice [simp]: "on_regs a f (on_regs a g s) = on_regs a (f \<circ> g) s"
  by (simp add: on_regs_def)

definition mailbox_id_of :: "mailbox_endpoint_t \<Rightarrow> mailbox_endpoint_t \<Rightarrow> u32 option" where
  "mailbox_id_of src dst =
     (if src = MAILBOX_CPU0 \<and> dst = MAILBOX_CPU1 then Some 0
      else if src = MAILBOX_CPU1 \<and> dst = MAILBOX_CPU0 then Some 1 else None)"

lemma mailbox_check_src_dst_ok:
  assumes "mb_ok s"
  shows "mailbox_check_src_dst src dst s =
    (case mailbox_id_of src dst of Some i \<Rightarrow> i | None \<Rightarrow> word_of_int BK_ERR_MAILBOX_SRC_DST)"
  using assms
  by (auto simp: mailbox_check_src_dst_def mb_ok_def mb_entry_ok_def mailbox_id_of_def upt_rec)

lemma mailbox_id_of_bound: "mailbox_id_of src dst = Some i \<Longrightarrow> i = 0 \<or> i = 1"
  by (auto simp: mailbox_id_of_def split: if_splits)

lemma hw_of_ok:
  assumes "mb_ok s" "i = 0 \<or> i = 1"
  shows "hw_of i s = MAILBOX_LL_REG_BASE i"
  using assms by (auto simp: hw_of_def mb_ok_def mb_entry_ok_def)

lemma last_id_with_ok: "mb_ok s \<Longrightarrow> last_id_with INT_SRC_MAILBOX1 s = 1"
  by (simp add: last_id_with_def mb_ok_def mb_entry_ok_def upt_rec)

text \<open>A box as a unit: its message and its ready bit.\<close>

definition box_data :: "u32 \<Rightarrow> s_mailbox_t \<Rightarrow> mailbox_data_t" where
  "box_data box hw =
     \<lparr>param0 = mailbox_ll_read_param0 hw box, param1 = mailbox_ll_read_param1 hw box,
      param2 = mailbox_ll_read_param2 hw box, param3 = mailbox_ll_read_param3 hw box\<rparr>"

definition box_full :: "u32 \<Rightarrow> s_mailbox_t \<Rightarrow> bool" where
  "box_full box hw \<longleftrightarrow> mailbox_ll_read_box_ready hw box \<noteq> 0"

definition fill_box :: "u32 \<Rightarrow> mailbox_data_t \<Rightarrow> s_mailbox_t \<Rightarrow> s_mailbox_t" where
  "fill_box box data hw =
     (let hw = mailbox_ll_box_clear_ready hw box;
          hw = mailbox_ll_write_param0 hw (param0 data) box;
          hw = mailbox_ll_write_param1 hw (param1 data) box;
          hw = mailbox_ll_write_param2 hw (param2 data) box;
          hw = mailbox_ll_write_param3 hw (param3 data) box
      in mailbox_ll_box_trigger hw box)"

lemma fill_box_simps [simp]:
  "box_data box (fill_box box data hw) = data" "box_full box (fill_box box data hw)"
  by (simp_all add: fill_box_def box_data_def box_full_def Let_def field_simps
      mailbox_ll_read_param0_def mailbox_ll_read_param1_def mailbox_ll_read_param2_def mailbox_ll_read_param3_def
      mailbox_ll_write_param0_def mailbox_ll_write_param1_def mailbox_ll_write_param2_def
      mailbox_ll_write_param3_def mailbox_ll_box_clear_ready_def mailbox_ll_box_trigger_def
      mailbox_ll_read_box_ready_def)

lemma fill_box_other [simp]:
  "(b = 0) \<noteq> (box = 0) \<Longrightarrow> box_data b (fill_box box data hw) = box_data b hw"
  "(b = 0) \<noteq> (box = 0) \<Longrightarrow> box_full b (fill_box box data hw) = box_full b hw"
  by (auto simp: fill_box_def box_data_def box_full_def Let_def field_simps
      mailbox_ll_read_param0_def mailbox_ll_read_param1_def mailbox_ll_read_param2_def mailbox_ll_read_param3_def
      mailbox_ll_write_param0_def mailbox_ll_write_param1_def mailbox_ll_write_param2_def
      mailbox_ll_write_param3_def mailbox_ll_box_clear_ready_def mailbox_ll_box_trigger_def
      mailbox_ll_read_box_ready_def)

lemma mailbox_send_box_eq:
  "mailbox_send_box data i box s = on_regs (hw_of i s) (fill_box box data) s"
  by (simp add: mailbox_send_box_def mailbox_write_data_def Let_def)
    (simp add: on_regs_def fill_box_def Let_def)

lemma bk_mailbox_send_box:
  assumes "mb_ok s" "mailbox_id_of src dst = Some i" "box = 0 \<or> box = 1"
  shows "bk_mailbox_send data src dst (Some box) s =
    (if box_full (ucast box) (regs (look s) (MAILBOX_LL_REG_BASE i)) then (BK_ERR_MAILBOX_TIMEOUT, look s)
     else (BK_OK, on_regs (MAILBOX_LL_REG_BASE i) (fill_box (ucast box) data) (look s)))"
proof -
  have i: "i = 0 \<or> i = 1" by (rule mailbox_id_of_bound [OF assms(2)])
  have init: "s_mailbox_is_init s" using assms(1) by (simp add: mb_ok_def)
  have hw: "hw_of i s = MAILBOX_LL_REG_BASE i" by (rule hw_of_ok [OF assms(1) i])
  have box: "(ucast (box AND 0xFF) :: u32) = ucast box" using assms(3) by auto
  show ?thesis
    using i assms(2,3) init
    by (auto simp: bk_mailbox_send_def mailbox_check_src_dst_ok [OF assms(1)] hw box box_nums read_box_ready_def
        box_full_def mailbox_send_box_eq Let_def)
qed

lemma bk_mailbox_send_errors:
  assumes "mb_ok s"
  shows "mailbox_id_of src dst = None \<Longrightarrow> bk_mailbox_send data src dst arg s = (BK_ERR_MAILBOX_SRC_DST, s)"
    and "mailbox_id_of src dst = Some i \<Longrightarrow> a AND 0xFF \<notin> {0, 1} \<Longrightarrow>
           bk_mailbox_send data src dst (Some a) s = (BK_ERR_MAILBOX_ID, s)"
proof -
  have init: "s_mailbox_is_init s" using assms by (simp add: mb_ok_def)
  show "bk_mailbox_send data src dst arg s = (BK_ERR_MAILBOX_SRC_DST, s)" if "mailbox_id_of src dst = None"
    using that init by (simp add: bk_mailbox_send_def mailbox_check_src_dst_ok [OF assms])
  show "bk_mailbox_send data src dst (Some a) s = (BK_ERR_MAILBOX_ID, s)"
    if "mailbox_id_of src dst = Some i" "a AND 0xFF \<notin> {0, 1}"
  proof -
    have "(ucast (a AND 0xFF) :: u32) \<noteq> 0 \<and> (ucast (a AND 0xFF) :: u32) \<noteq> 1"
      using that(2) ucast_u16_eq_iff [of "a AND 0xFF" 0] ucast_u16_eq_iff [of "a AND 0xFF" 1] by auto
    then show ?thesis
      using that(1) mailbox_id_of_bound [OF that(1)] init
      by (auto simp: bk_mailbox_send_def mailbox_check_src_dst_ok [OF assms] box_nums Let_def)
  qed
qed

text \<open>What the other processor leaves alone.\<close>

definition peer_quiet :: "addr \<Rightarrow> 'a mb_state_scheme \<Rightarrow> bool" where
  "peer_quiet a s \<longleftrightarrow> (\<forall>k r. peer s k r a = r a)"

lemma peer_quiet_simps [simp]:
  "peer_quiet a (look s) = peer_quiet a s" "peer_quiet a (on_regs b f s) = peer_quiet a s"
  "peer_quiet a s \<Longrightarrow> regs (look s) a = regs s a"
  by (simp_all add: peer_quiet_def) (simp add: look_def)

lemma mailbox_receive_isr_box:
  assumes "mb_ok s" "i = 0 \<or> i = 1" "box = 0 \<or> box = 1" "peer_quiet (MAILBOX_LL_REG_BASE i) s"
    and "box_full box (regs s (MAILBOX_LL_REG_BASE i))"
    and "box = 1 \<Longrightarrow> \<not> box_full 0 (regs s (MAILBOX_LL_REG_BASE i))"
  shows "mailbox_receive_isr run i s =
    snd (fold (mailbox_call_rx run i) [0..<MAILBOX_CALLBACK_NUMBER]
      (box_data box (regs s (MAILBOX_LL_REG_BASE i)),
       on_regs (MAILBOX_LL_REG_BASE i) (\<lambda>hw. mailbox_ll_box_clear hw box)
         (if box = 0 then look s else look (look s))))"
proof -
  have hw: "hw_of i s = MAILBOX_LL_REG_BASE i" by (rule hw_of_ok [OF assms(1,2)])
  show ?thesis
    using assms(3-6)
    by (auto simp: mailbox_receive_isr_def mailbox_hal_check_which_box_trigger_def read_box_ready_def box_nums hw
        box_full_def mailbox_receive_data_def box_data_def Let_def)
qed

lemma bk_mailbox_init_ok:
  fixes s :: "'a mb_state_scheme"
  assumes "\<not> s_mailbox_is_init s" "length (s_mailbox s) = 2" "\<forall>m \<in> set (s_mailbox s). length (mi_rx m) = 2"
  shows "fst (bk_mailbox_init s) = BK_OK" "mb_ok (snd (bk_mailbox_init s))"
proof -
  obtain m0 m1 where m: "s_mailbox s = [m0, m1]"
    using assms(2) by (metis (no_types, lifting) One_nat_def Suc_1 length_0_conv length_Suc_conv)
  have rx: "length (mi_rx m0) = 2" "length (mi_rx m1) = 2" using assms(3) m by simp_all
  have enable: "s_mailbox (mailbox_interrupt_enable e s') = s_mailbox s'"
    "s_mailbox_is_init (mailbox_interrupt_enable e s') = s_mailbox_is_init s'"
    for e and s' :: "'a mb_state_scheme"
    by (simp_all add: mailbox_interrupt_enable_def split: mailbox_endpoint_t.split)
  have identity: "s_mailbox (mailbox_hal_set_identity h s') = s_mailbox s'"
    "s_mailbox_is_init (mailbox_hal_set_identity h s') = s_mailbox_is_init s'"
    for h and s' :: "'a mb_state_scheme"
    by (simp_all add: mailbox_hal_set_identity_def)
  have entry: "s_mailbox_is_init (mailbox_init_entry i s') = s_mailbox_is_init s'"
    "s_mailbox (mailbox_init_entry i s') = s_mailbox s'" for i and s' :: "'a mb_state_scheme"
    by (simp_all add: mailbox_init_entry_def Let_def enable)
  have cfg: "s_mailbox_is_init (mailbox_config_entry c s') = s_mailbox_is_init s'"
    for c and s' :: "'a mb_state_scheme"
    by (simp add: mailbox_config_entry_def Let_def identity on_info_def)
  have c0: "s_mailbox (mailbox_config_entry \<lparr>cfg_id = 0, cfg_icu_src = INT_SRC_NONE, cfg_src = MAILBOX_CPU0,
        cfg_dst = MAILBOX_CPU1\<rparr> s') =
      [m0\<lparr>mi_hal := \<lparr>hal_hw = MAILBOX_LL_REG_BASE 0, hal_id = 0\<rparr>,
          mi_dir := MAILBAOX_CONFIG_INFO_TABLE ! 0\<rparr>, m1]"
    if "s_mailbox s' = [m0, m1]" for s' :: "'a mb_state_scheme"
    using that by (cases m0, cases "mi_hal m0")
      (simp add: mailbox_config_entry_def Let_def identity on_info_def mailbox_interrupt_service_def
        mailbox_hal_addr_init_def SOC_MAILBOX_NUM_def)
  have c1: "s_mailbox (mailbox_config_entry \<lparr>cfg_id = 1, cfg_icu_src = INT_SRC_MAILBOX1, cfg_src = MAILBOX_CPU1,
        cfg_dst = MAILBOX_CPU0\<rparr> s') =
      [m, m1\<lparr>mi_hal := \<lparr>hal_hw = MAILBOX_LL_REG_BASE 1, hal_id = 1\<rparr>,
          mi_dir := MAILBAOX_CONFIG_INFO_TABLE ! 1, mi_isr := mailbox_service1\<rparr>]"
    if "s_mailbox s' = [m, m1]" for m and s' :: "'a mb_state_scheme"
    using that by (cases m1, cases "mi_hal m1")
      (simp add: mailbox_config_entry_def Let_def identity on_info_def mailbox_interrupt_service_def
        mailbox_hal_addr_init_def SOC_MAILBOX_NUM_def word_le_nat_alt)
  show "fst (bk_mailbox_init s) = BK_OK" using assms(1) by (simp add: bk_mailbox_init_def)
  have "s_mailbox (s\<lparr>s_mailbox_is_init := True\<rparr>) = [m0, m1]" using m by simp
  from c1 [OF c0 [OF this]] assms(1) rx show "mb_ok (snd (bk_mailbox_init s))"
    by (simp add: bk_mailbox_init_def mailbox_config_def upt_rec entry mb_ok_def cfg mb_entry_ok_def
        MAILBOX_CALLBACK_NUMBER_def)
      (simp add: MAILBAOX_CONFIG_INFO_TABLE_def cfg mb_entry_ok_def MAILBOX_CALLBACK_NUMBER_def)
qed

section \<open>Properties\<close>

definition sample_regs :: s_mailbox_t where
  "sample_regs =
     \<lparr>box0_param0 = 0, box0_param1 = 0, box0_param2 = 0, box0_param3 = 0,
      box1_param0 = 0, box1_param1 = 0, box1_param2 = 0, box1_param3 = 0,
      box_ready = 0, box_clear = 0, sender = 0, receiver = 0\<rparr>"

definition zero_info :: mailbox_info_t where
  "zero_info =
     \<lparr>mi_hal = \<lparr>hal_hw = NULL, hal_id = 0\<rparr>,
      mi_dir = \<lparr>cfg_id = 0, cfg_icu_src = INT_SRC_OTHER, cfg_src = MAILBOX_CPU0, cfg_dst = MAILBOX_CPU0\<rparr>,
      mi_isr = No_isr, mi_rx = [NULL, NULL]\<rparr>"

definition mb_reset :: mb_state where
  "mb_reset =
     \<lparr>s_mailbox = [zero_info, zero_info], s_mailbox_is_init = False, regs = (\<lambda>_. sample_regs),
      isr_of = (\<lambda>_. No_isr), int_enabled = (\<lambda>_. False), peer = (\<lambda>_ r. r), looks = 0\<rparr>"

definition mb_booted :: mb_state where
  "mb_booted = snd (bk_mailbox_init mb_reset)"

lemma mb_booted_ok: "mb_ok mb_booted"
  unfolding mb_booted_def
  by (rule bk_mailbox_init_ok) (simp_all add: mb_reset_def zero_info_def)

text \<open>
  Sending to a chosen box: a pair of endpoints without a mailbox and a box number other than 0
  and 1 are refused and change nothing; when the box still holds a message the call reports a timeout
  and changes nothing but the look at the ready bits; otherwise the box holds exactly the
  message and is marked ready, and the other box, the other mailbox and the driver's variables are as before.
\<close>

theorem mailbox_send_spec:
  assumes "mb_ok s"
  shows "bk_mailbox_send data src dst (Some a) s =
    (case mailbox_id_of src dst of
       None \<Rightarrow> (BK_ERR_MAILBOX_SRC_DST, s)
     | Some i \<Rightarrow>
         if a AND 0xFF \<notin> {0, 1} then (BK_ERR_MAILBOX_ID, s)
         else if box_full (ucast (a AND 0xFF)) (regs (look s) (MAILBOX_LL_REG_BASE i))
         then (BK_ERR_MAILBOX_TIMEOUT, look s)
         else (BK_OK, on_regs (MAILBOX_LL_REG_BASE i) (fill_box (ucast (a AND 0xFF)) data) (look s))) \<and>
    (\<forall>box b hw. box_data box (fill_box box data hw) = data \<and> box_full box (fill_box box data hw) \<and>
       ((b = 0) \<noteq> (box = 0) \<longrightarrow> box_data b (fill_box box data hw) = box_data b hw \<and>
                               box_full b (fill_box box data hw) = box_full b hw))"
proof -
  have mask: "(a AND 0xFF) AND 0xFF = a AND (0xFF :: u16)" by (simp add: and.assoc)
  have "bk_mailbox_send data src dst (Some a) s = bk_mailbox_send data src dst (Some (a AND 0xFF)) s"
    unfolding bk_mailbox_send_def option.case mask ..
  then show ?thesis
    using bk_mailbox_send_errors [OF assms] bk_mailbox_send_box [OF assms, of src dst _ "a AND 0xFF"]
    by (cases "mailbox_id_of src dst") auto
qed

definition sample_message :: mailbox_data_t where
  "sample_message = \<lparr>param0 = 0x2a, param1 = 1, param2 = 2, param3 = 3\<rparr>"

lemma mb_booted_empty: "\<not> box_full box (regs (look mb_booted) (MAILBOX_LL_REG_BASE i))"
  if "box = 0 \<or> box = 1" "i = 0 \<or> i = 1"
  using that by (elim disjE) (simp_all, code_simp+)

theorem mailbox_send_spec_witness:
  "fst (bk_mailbox_send sample_message MAILBOX_CPU1 MAILBOX_CPU0 (Some 0) mb_booted) = BK_OK"
  using mailbox_send_spec [OF mb_booted_ok, of sample_message MAILBOX_CPU1 MAILBOX_CPU0 0]
    mb_booted_empty [of 0 1] by (simp add: mailbox_id_of_def)

text \<open>
  What one processor sends is what the other one receives: when the second processor takes
  the interrupt of the mailbox from CPU1 to CPU0, its receive callbacks get the message exactly as it was passed to the
  send on the first, and the box is acknowledged. The registers are shared, nothing else is. A
  message in box 1 is delivered when box 0 is empty.
\<close>

theorem mailbox_send_receive:
  fixes s :: "'a mb_state_scheme" and r :: "'b mb_state_scheme"
  assumes "mb_ok s" "mb_ok r" "box = 0 \<or> box = 1"
    and "bk_mailbox_send data MAILBOX_CPU1 MAILBOX_CPU0 (Some box) s = (BK_OK, s')"
    and "regs r = regs s'" "peer_quiet (MAILBOX_LL_REG_BASE 1) r"
    and "box = 1 \<longrightarrow> \<not> box_full 0 (regs s' (MAILBOX_LL_REG_BASE 1))"
  shows "mailbox_service1_isr run r =
    snd (fold (mailbox_call_rx run 1) [0..<MAILBOX_CALLBACK_NUMBER]
      (data, on_regs (MAILBOX_LL_REG_BASE 1) (\<lambda>hw. mailbox_ll_box_clear hw (ucast box))
               (if box = 0 then look r else look (look r))))"
proof -
  have "mailbox_id_of MAILBOX_CPU1 MAILBOX_CPU0 = Some 1" by (simp add: mailbox_id_of_def)
  from bk_mailbox_send_box [OF assms(1) this assms(3), of data] assms(4)
  have s': "s' = on_regs (MAILBOX_LL_REG_BASE 1) (fill_box (ucast box) data) (look s)"
    by (simp split: if_splits)
  have box: "(ucast box :: u32) = 0 \<or> (ucast box :: u32) = 1" "(ucast box :: u32) = 0 \<longleftrightarrow> box = 0"
    using assms(3) by auto
  have at: "regs r (MAILBOX_LL_REG_BASE 1) =
      fill_box (ucast box) data (regs (look s) (MAILBOX_LL_REG_BASE 1))"
    by (simp add: assms(5) s')
  have full: "box_full (ucast box) (regs r (MAILBOX_LL_REG_BASE 1))" by (simp add: at)
  have other: "(ucast box :: u32) = 1 \<Longrightarrow> \<not> box_full 0 (regs r (MAILBOX_LL_REG_BASE 1))"
    using assms(3,5,7) by auto
  have one: "(1 :: u32) = 0 \<or> (1 :: u32) = 1" by simp
  from mailbox_receive_isr_box [OF assms(2) one box(1) assms(6) full other, of run]
  show ?thesis by (simp add: mailbox_service1_isr_def last_id_with_ok [OF assms(2)] at box(2))
qed

definition mb_listener :: "mb_regs \<Rightarrow> mb_state" where
  "mb_listener r = on_info 1 (\<lambda>m. m\<lparr>mi_rx := [0x77, NULL]\<rparr>) (mb_booted\<lparr>regs := r\<rparr>)"

lemma peer_mb_init [simp]: "peer (snd (bk_mailbox_init s)) = peer s"
proof -
  have cfg: "peer (mailbox_config_entry c s) = peer s" for c and s :: "'a mb_state_scheme"
    by (simp add: mailbox_config_entry_def Let_def on_info_def mailbox_hal_set_identity_def)
  have entry: "peer (mailbox_init_entry i s) = peer s" for i and s :: "'a mb_state_scheme"
    by (simp add: mailbox_init_entry_def Let_def mailbox_interrupt_enable_def split: mailbox_endpoint_t.split)
  show ?thesis
    by (simp add: bk_mailbox_init_def mailbox_config_def MAILBAOX_CONFIG_INFO_TABLE_def upt_rec cfg entry)
qed

lemma mb_listener_ok:
  "mb_ok (mb_listener r)" "peer_quiet a (mb_listener r)" "regs (mb_listener r) = r"
  "mi_rx (s_mailbox (mb_listener r) ! 1) = [0x77, NULL]"
  using mb_booted_ok
  by (simp_all add: mb_listener_def on_info_def mb_ok_def mb_entry_ok_def MAILBOX_CALLBACK_NUMBER_def peer_quiet_def
      mb_booted_def) (simp add: mb_reset_def)

theorem mailbox_send_receive_witness:
  "let s' = snd (bk_mailbox_send sample_message MAILBOX_CPU1 MAILBOX_CPU0 (Some 0) mb_booted);
       run = (\<lambda>f d s. (d, s\<lparr>looks := (if f = 0x77 \<and> d = sample_message then 99 else 0)\<rparr>))
   in looks (mailbox_service1_isr run (mb_listener (regs s'))) = 99"
proof -
  define s' where "s' = snd (bk_mailbox_send sample_message MAILBOX_CPU1 MAILBOX_CPU0 (Some 0) mb_booted)"
  have s': "bk_mailbox_send sample_message MAILBOX_CPU1 MAILBOX_CPU0 (Some 0) mb_booted = (BK_OK, s')"
    using bk_mailbox_send_box [OF mb_booted_ok, of MAILBOX_CPU1 MAILBOX_CPU0 1 0 sample_message] mb_booted_empty [of 0 1]
    by (simp add: mailbox_id_of_def s'_def)
  from mailbox_send_receive [OF mb_booted_ok mb_listener_ok(1) _ s' mb_listener_ok(3) mb_listener_ok(2)]
  show ?thesis
    unfolding Let_def s'_def [symmetric]
    using mb_listener_ok(4) by (simp add: MAILBOX_CALLBACK_NUMBER_def upt_rec mailbox_call_rx_def)
qed

lemma mailbox_wait_box_spec:
  "mailbox_wait_box n hw s = (box, t) \<Longrightarrow>
     looks t \<le> looks s + 2 * n \<and> s_mailbox t = s_mailbox s \<and> s_mailbox_is_init t = s_mailbox_is_init s \<and>
     (if box = MAILBOX_NONE then looks t = looks s + 2 * n
      else (box = 0 \<or> box = 1) \<and> \<not> box_full box (regs t hw))"
proof (induction n arbitrary: s)
  case (Suc n)
  have looks: "looks (look s) = Suc (looks s)" for s :: "'a mb_state_scheme" by (simp add: look_def)
  consider (first) "\<not> box_full 0 (regs (look s) hw)" "mailbox_wait_box (Suc n) hw s = (0, look s)"
    | (second) "\<not> box_full 1 (regs (look (look s)) hw)" "mailbox_wait_box (Suc n) hw s = (1, look (look s))"
    | (none) "mailbox_wait_box (Suc n) hw s = mailbox_wait_box n hw (look (look s))"
    by (cases "box_full 0 (regs (look s) hw)"; cases "box_full 1 (regs (look (look s)) hw)")
      (simp_all add: mailbox_hal_check_which_box_ready_def read_box_ready_def box_nums box_full_def Let_def)
  then show ?case
  proof cases
    case none
    with Suc.IH [of "look (look s)"] Suc.prems show ?thesis by (auto simp: looks)
  qed (use Suc.prems in \<open>auto simp: looks box_nums\<close>)
qed simp

text \<open>
  A send without a chosen box gives up after 1000 tries, that is after at most 2000 looks at
  the ready bits: it reports a timeout only when both boxes were seen full every time, and otherwise puts the message
  into a box that was empty when it was looked at last.
\<close>

theorem mailbox_send_bounded:
  assumes "mb_ok s" "mailbox_id_of src dst = Some i" "bk_mailbox_send data src dst None s = (e, t)"
  shows "looks t \<le> looks s + 2000 \<and> (e = BK_OK \<or> e = BK_ERR_MAILBOX_TIMEOUT) \<and>
    (e = BK_ERR_MAILBOX_TIMEOUT \<longrightarrow> looks t = looks s + 2000) \<and>
    (e = BK_OK \<longrightarrow> (\<exists>box u. (box = 0 \<or> box = 1) \<and> \<not> box_full box (regs u (MAILBOX_LL_REG_BASE i)) \<and>
       t = on_regs (MAILBOX_LL_REG_BASE i) (fill_box box data) u))"
proof -
  have i: "i = 0 \<or> i = 1" by (rule mailbox_id_of_bound [OF assms(2)])
  have hw: "hw_of i s = MAILBOX_LL_REG_BASE i" by (rule hw_of_ok [OF assms(1) i])
  have init: "s_mailbox_is_init s" using assms(1) by (simp add: mb_ok_def)
  obtain box u where wait: "mailbox_wait_box MAILBOX_SEND_WAIT_COUNT (hw_of i s) s = (box, u)"
    by (cases "mailbox_wait_box MAILBOX_SEND_WAIT_COUNT (hw_of i s) s")
  note spec = mailbox_wait_box_spec [OF wait, unfolded hw MAILBOX_SEND_WAIT_COUNT_def]
  have "hw_of i u = MAILBOX_LL_REG_BASE i" using spec hw by (simp add: hw_of_def)
  then have "bk_mailbox_send data src dst None s =
      (if box = MAILBOX_NONE then (BK_ERR_MAILBOX_TIMEOUT, u)
       else (BK_OK, on_regs (MAILBOX_LL_REG_BASE i) (fill_box box data) u))"
    using i assms(2) init
    by (auto simp: bk_mailbox_send_def mailbox_check_src_dst_ok [OF assms(1)] wait Let_def mailbox_send_box_eq)
  with assms(3) spec show ?thesis by (auto split: if_splits)
qed

theorem mailbox_send_bounded_witness:
  "looks (snd (bk_mailbox_send sample_message MAILBOX_CPU0 MAILBOX_CPU1 None mb_booted)) \<le> looks mb_booted + 2000"
  using mailbox_send_bounded [OF mb_booted_ok, of MAILBOX_CPU0 MAILBOX_CPU1 0 sample_message]
  by (cases "bk_mailbox_send sample_message MAILBOX_CPU0 MAILBOX_CPU1 None mb_booted")
    (simp add: mailbox_id_of_def)

end
