(* ===== verification/Mailbox_Channel.thy ===== *)
theory Mailbox_Channel
  imports Mailbox
begin

text \<open>
  The logical channels over the mailbox, \<^verbatim>\<open>middleware/driver/mailbox/mailbox_channel.c\<close>:
  eight logical channels share one physical command channel (box 0); a command occupies it until
  the other processor acknowledges it through box 1, then the busy logical channel with the smallest
  number is served next.

  The state extends the driver's by the channel control blocks. The callbacks of a channel are
  code addresses; their effect is given by a record of functions. The message header is kept as the
  first word of a message, with its bit fields. The two constants that tell the processors apart,
  \<^verbatim>\<open>SRC_CPU\<close> and \<^verbatim>\<open>DST_CPU\<close>, are fields of the state, so that both processors run the same model.
\<close>

section \<open>Data\<close>

definition CHNL_STATE_BUSY :: u8 where "CHNL_STATE_BUSY = 1"
definition CHNL_STATE_ILDE :: u8 where "CHNL_STATE_ILDE = 0"
definition CHNL_CTRL_ACK_BOX :: u32 where "CHNL_CTRL_ACK_BOX = 1"
definition CHNL_CTRL_SYNC_TX :: u32 where "CHNL_CTRL_SYNC_TX = 2"
definition CHNL_STATE_COM_FAIL :: u32 where "CHNL_STATE_COM_FAIL = 1"
definition MB_PHY_CMD_CHNL :: u16 where "MB_PHY_CMD_CHNL = 0"
definition MB_PHY_ACK_CHNL :: u16 where "MB_PHY_ACK_CHNL = 1"
definition MB_LOG_CHNL_NUM :: u8 where "MB_LOG_CHNL_NUM = 8"

lemmas chnl_consts = CHNL_STATE_BUSY_def CHNL_STATE_ILDE_def CHNL_CTRL_ACK_BOX_def CHNL_CTRL_SYNC_TX_def
  CHNL_STATE_COM_FAIL_def MB_PHY_CMD_CHNL_def MB_PHY_ACK_CHNL_def MB_LOG_CHNL_NUM_def

abbreviation set_state :: "u32 \<Rightarrow> u32 \<Rightarrow> u32" where "set_state \<equiv> set_field 8 4"
abbreviation set_ctrl :: "u32 \<Rightarrow> u32 \<Rightarrow> u32" where "set_ctrl \<equiv> set_field 12 4"
abbreviation set_tx_seq :: "u32 \<Rightarrow> u32 \<Rightarrow> u32" where "set_tx_seq \<equiv> set_field 16 8"
abbreviation set_logical_chnl :: "u32 \<Rightarrow> u32 \<Rightarrow> u32" where "set_logical_chnl \<equiv> set_field 24 8"

definition on_hdr :: "(u32 \<Rightarrow> u32) \<Rightarrow> mailbox_data_t \<Rightarrow> mailbox_data_t" where
  "on_hdr f m = m\<lparr>param0 := f (param0 m)\<rparr>"

record mb_phy_chnl_cb_t =
  phy_tx_state :: u8
  phy_tx_seq :: u8
  phy_tx_log_chnl_id :: u8
  phy_rx_fault_cnt :: u32
  phy_tx_fault_cnt :: u32

record mb_log_chnl_cb_t =
  log_chnl_id :: u8
  log_tx_state :: u8
  log_in_used :: u8
  log_rx_isr :: addr
  log_tx_isr :: addr
  log_tx_cmpl_isr :: addr
  log_isr_param :: addr
  log_tx_buff :: mailbox_data_t

record mb_chnl_state = mb_state +
  phy_chnl_cb :: mb_phy_chnl_cb_t
  log_chnl_cb :: "mb_log_chnl_cb_t list"
  mb_chnnl_init_ok :: u8
  SRC_CPU :: mailbox_endpoint_t
  DST_CPU :: mailbox_endpoint_t

text \<open>
  The code behind the callback addresses. Each gets the parameter the channel was opened with; the
  receive callback turns the command buffer into the acknowledgement.
\<close>

record 's chnl_code =
  run_tx_isr :: "addr \<Rightarrow> addr \<Rightarrow> 's \<Rightarrow> 's"
  run_tx_cmpl_isr :: "addr \<Rightarrow> addr \<Rightarrow> mailbox_data_t \<Rightarrow> 's \<Rightarrow> 's"
  run_rx_isr :: "addr \<Rightarrow> addr \<Rightarrow> mailbox_data_t \<Rightarrow> 's \<Rightarrow> mailbox_data_t \<times> 's"

type_synonym 'a code = "'a mb_chnl_state_scheme chnl_code"

definition on_phy ::
  "(mb_phy_chnl_cb_t \<Rightarrow> mb_phy_chnl_cb_t) \<Rightarrow> 'a mb_chnl_state_scheme \<Rightarrow> 'a mb_chnl_state_scheme" where
  "on_phy f s = s\<lparr>phy_chnl_cb := f (phy_chnl_cb s)\<rparr>"

definition log_cb :: "u8 \<Rightarrow> 'a mb_chnl_state_scheme \<Rightarrow> mb_log_chnl_cb_t" where
  "log_cb c s = log_chnl_cb s ! unat c"

definition on_log ::
  "u8 \<Rightarrow> (mb_log_chnl_cb_t \<Rightarrow> mb_log_chnl_cb_t) \<Rightarrow> 'a mb_chnl_state_scheme \<Rightarrow> 'a mb_chnl_state_scheme" where
  "on_log c f s = s\<lparr>log_chnl_cb := (log_chnl_cb s)[unat c := f (log_cb c s)]\<rparr>"

section \<open>The physical channel\<close>

definition mb_phy_chnl_tx_cmd ::
  "'a code \<Rightarrow> u8 \<Rightarrow> 'a mb_chnl_state_scheme \<Rightarrow> u8 \<times> 'a mb_chnl_state_scheme" where
  "mb_phy_chnl_tx_cmd code log_chnl s =
     (if MB_LOG_CHNL_NUM \<le> log_chnl then (1, s)
      else
        let s = on_phy (\<lambda>p. p\<lparr>phy_tx_seq := phy_tx_seq p + 1\<rparr>) s;
            s = on_phy (\<lambda>p. p\<lparr>phy_tx_log_chnl_id := log_chnl\<rparr>) s;
            s = on_log log_chnl (\<lambda>c. c\<lparr>log_tx_buff := on_hdr (set_logical_chnl (ucast log_chnl)) (log_tx_buff c)\<rparr>) s;
            s = on_log log_chnl (\<lambda>c. c\<lparr>log_tx_buff :=
                  on_hdr (set_tx_seq (ucast (phy_tx_seq (phy_chnl_cb s)))) (log_tx_buff c)\<rparr>) s;
            s = on_log log_chnl (\<lambda>c. c\<lparr>log_tx_buff := on_hdr (set_ctrl 0) (log_tx_buff c)\<rparr>) s;
            s = on_log log_chnl (\<lambda>c. c\<lparr>log_tx_buff := on_hdr (set_state 0) (log_tx_buff c)\<rparr>) s;
            (ret_code, s) = bk_mailbox_send (log_tx_buff (log_cb log_chnl s)) (SRC_CPU s) (DST_CPU s)
                              (Some MB_PHY_CMD_CHNL) s
        in if ret_code \<noteq> BK_OK
           then (2, on_phy (\<lambda>p. p\<lparr>phy_tx_fault_cnt := phy_tx_fault_cnt p + 1\<rparr>) s)
           else
             let s = on_log log_chnl (\<lambda>c. c\<lparr>log_tx_state := CHNL_STATE_ILDE\<rparr>) s;
                 c = log_cb log_chnl s
             in (0, if log_tx_isr c \<noteq> NULL then run_tx_isr code (log_tx_isr c) (log_isr_param c) s else s))"


definition phy_idle :: "'a mb_chnl_state_scheme \<Rightarrow> 'a mb_chnl_state_scheme" where
  "phy_idle = on_phy (\<lambda>p. p\<lparr>phy_tx_state := CHNL_STATE_ILDE\<rparr>)"




definition mb_phy_chnl_start_tx ::
  "'a code \<Rightarrow> u8 \<Rightarrow> 'a mb_chnl_state_scheme \<Rightarrow> 'a mb_chnl_state_scheme" where
  "mb_phy_chnl_start_tx code log_chnl s =
     (if phy_tx_state (phy_chnl_cb s) = CHNL_STATE_ILDE
      then let s = on_phy (\<lambda>p. p\<lparr>phy_tx_state := CHNL_STATE_BUSY\<rparr>) s;
               (ret_code, s) = mb_phy_chnl_tx_cmd code log_chnl s
           in if ret_code \<noteq> 0 then phy_idle s else s
      else s)"

text \<open>The polling loop of a synchronous send; \<^const>\<open>None\<close> when it never ends.\<close>

partial_function (option) mb_send_poll ::
  "mailbox_data_t \<Rightarrow> 'a mb_chnl_state_scheme \<Rightarrow> (bk_err_t \<times> 'a mb_chnl_state_scheme) option" where
  "mb_send_poll cmd s =
     (let (ret_code, s) = bk_mailbox_send cmd (SRC_CPU s) (DST_CPU s) (Some MB_PHY_CMD_CHNL) s
      in if ret_code \<noteq> BK_ERR_MAILBOX_TIMEOUT then Some (ret_code, s) else mb_send_poll cmd s)"

definition sync_cmd :: "u8 \<Rightarrow> mailbox_data_t \<Rightarrow> mailbox_data_t" where
  "sync_cmd log_chnl cmd =
     (let cmd = on_hdr (set_logical_chnl (ucast log_chnl)) cmd;
          cmd = on_hdr (set_tx_seq 0) cmd;
          cmd = on_hdr (set_ctrl CHNL_CTRL_SYNC_TX) cmd
      in on_hdr (set_state 0) cmd)"

definition mb_phy_chnl_tx_cmd_sync ::
  "u8 \<Rightarrow> mailbox_data_t \<Rightarrow> 'a mb_chnl_state_scheme \<Rightarrow>
     (bk_err_t \<times> mailbox_data_t \<times> 'a mb_chnl_state_scheme) option" where
  "mb_phy_chnl_tx_cmd_sync log_chnl cmd s =
     map_option (\<lambda>(ret_code, s). (ret_code, sync_cmd log_chnl cmd, s)) (mb_send_poll (sync_cmd log_chnl cmd) s)"

section \<open>The logical channels\<close>

definition zero_phy :: mb_phy_chnl_cb_t where
  "zero_phy = \<lparr>phy_tx_state = 0, phy_tx_seq = 0, phy_tx_log_chnl_id = 0, phy_rx_fault_cnt = 0, phy_tx_fault_cnt = 0\<rparr>"

definition zero_log :: mb_log_chnl_cb_t where
  "zero_log =
     \<lparr>log_chnl_id = 0, log_tx_state = 0, log_in_used = 0, log_rx_isr = NULL, log_tx_isr = NULL,
      log_tx_cmpl_isr = NULL, log_isr_param = NULL,
      log_tx_buff = \<lparr>param0 = 0, param1 = 0, param2 = 0, param3 = 0\<rparr>\<rparr>"

text \<open>
  \<open>rx_isr\<close> is the address the linker gives to \<^verbatim>\<open>mb_phy_chnl_rx_isr\<close>, an argument of the two
  functions that may store it in the driver's callback table.
\<close>

definition mb_chnl_init :: "addr \<Rightarrow> 'a mb_chnl_state_scheme \<Rightarrow> bk_err_t \<times> 'a mb_chnl_state_scheme" where
  "mb_chnl_init rx_isr s =
     (if mb_chnnl_init_ok s \<noteq> 0 then (BK_OK, s)
      else
        let s = s\<lparr>phy_chnl_cb := zero_phy\<rparr>;
            s = phy_idle s;
            s = s\<lparr>log_chnl_cb := replicate (unat MB_LOG_CHNL_NUM) zero_log\<rparr>;
            s = fold (\<lambda>i s. on_log (of_nat i) (\<lambda>c. c\<lparr>log_chnl_id := of_nat i, log_tx_state := CHNL_STATE_ILDE\<rparr>) s)
                  [0..<unat MB_LOG_CHNL_NUM] s;
            (ret_code, s) = bk_mailbox_init s
        in if ret_code \<noteq> BK_OK then (ret_code, s)
           else
             let (ret_code, s) = bk_mailbox_recv_callback_register (DST_CPU s) (SRC_CPU s) rx_isr s
             in if ret_code \<noteq> BK_OK then (ret_code, s)
                else (BK_OK, s\<lparr>mb_chnnl_init_ok := 1\<rparr>))"

definition mb_chnl_open :: "addr \<Rightarrow> u8 \<Rightarrow> addr \<Rightarrow> 'a mb_chnl_state_scheme \<Rightarrow> bk_err_t \<times> 'a mb_chnl_state_scheme" where
  "mb_chnl_open rx_isr log_chnl callback_param s =
     (let (ret_code, s) = (if mb_chnnl_init_ok s = 0 then mb_chnl_init rx_isr s else (BK_OK, s))
      in if ret_code \<noteq> BK_OK then (ret_code, s)
         else if MB_LOG_CHNL_NUM \<le> log_chnl then (BK_ERR_PARAM, s)
         else if log_in_used (log_cb log_chnl s) \<noteq> 0 then (BK_ERR_OPEN, s)
         else (BK_OK, on_log log_chnl (\<lambda>c. c\<lparr>log_in_used := 1, log_isr_param := callback_param\<rparr>) s))"



definition mb_chnl_write ::
  "'a code \<Rightarrow> u8 \<Rightarrow> mailbox_data_t \<Rightarrow> 'a mb_chnl_state_scheme \<Rightarrow> bk_err_t \<times> 'a mb_chnl_state_scheme" where
  "mb_chnl_write code log_chnl cmd_buf s =
     (if MB_LOG_CHNL_NUM \<le> log_chnl then (BK_ERR_PARAM, s)
      else if log_in_used (log_cb log_chnl s) = 0 then (BK_ERR_STATE, s)
      else if log_tx_state (log_cb log_chnl s) \<noteq> CHNL_STATE_ILDE then (BK_ERR_BUSY, s)
      else
        let s = on_log log_chnl (\<lambda>c. c\<lparr>log_tx_buff := cmd_buf\<rparr>) s;
            s = on_log log_chnl (\<lambda>c. c\<lparr>log_tx_state := CHNL_STATE_BUSY\<rparr>) s
        in (BK_OK, mb_phy_chnl_start_tx code log_chnl s))"

text \<open>
  The untyped parameter of \<^verbatim>\<open>mb_chnl_ctrl\<close> is an address; \<open>buf\<close> is what it points to when the
  command sends a message. The result holds the status that is stored through the pointer, and the message
  buffer afterwards.
\<close>

definition mb_chnl_ctrl ::
  "u8 \<Rightarrow> u8 \<Rightarrow> addr \<Rightarrow> mailbox_data_t \<Rightarrow> 'a mb_chnl_state_scheme \<Rightarrow>
     (bk_err_t \<times> u8 option \<times> mailbox_data_t \<times> 'a mb_chnl_state_scheme) option" where
  "mb_chnl_ctrl log_chnl cmd param buf s =
     (if MB_LOG_CHNL_NUM \<le> log_chnl then Some (BK_ERR_PARAM, None, buf, s)
      else if log_in_used (log_cb log_chnl s) = 0 then Some (BK_ERR_STATE, None, buf, s)
      else if cmd = 0 then
        (if param = NULL then Some (BK_ERR_NULL_PARAM, None, buf, s)
         else Some (BK_OK, Some (log_tx_state (log_cb log_chnl s)), buf, s))
      else if cmd = 1 then Some (BK_OK, None, buf, on_log log_chnl (\<lambda>c. c\<lparr>log_rx_isr := param\<rparr>) s)
      else if cmd = 2 then Some (BK_OK, None, buf, on_log log_chnl (\<lambda>c. c\<lparr>log_tx_isr := param\<rparr>) s)
      else if cmd = 3 then Some (BK_OK, None, buf, on_log log_chnl (\<lambda>c. c\<lparr>log_tx_cmpl_isr := param\<rparr>) s)
      else if cmd = 4 then
        (if param = NULL then Some (BK_ERR_NULL_PARAM, None, buf, s)
         else map_option (\<lambda>(ret_code, buf, s). (ret_code, None, buf, s)) (mb_phy_chnl_tx_cmd_sync log_chnl buf s))
      else Some (BK_ERR_NOT_SUPPORT, None, buf, s))"

section \<open>Laws of the control blocks\<close>

lemma on_phy_simps [simp]:
  "phy_chnl_cb (on_phy f s) = f (phy_chnl_cb s)" "log_chnl_cb (on_phy f s) = log_chnl_cb s"
  "mb_chnnl_init_ok (on_phy f s) = mb_chnnl_init_ok s" "SRC_CPU (on_phy f s) = SRC_CPU s"
  "DST_CPU (on_phy f s) = DST_CPU s" "s_mailbox (on_phy f s) = s_mailbox s"
  "s_mailbox_is_init (on_phy f s) = s_mailbox_is_init s" "regs (on_phy f s) = regs s"
  "peer (on_phy f s) = peer s" "looks (on_phy f s) = looks s" "log_cb c (on_phy f s) = log_cb c s"
  by (simp_all add: on_phy_def log_cb_def)

lemma on_log_simps [simp]:
  "phy_chnl_cb (on_log c f s) = phy_chnl_cb s"
  "log_chnl_cb (on_log c f s) = (log_chnl_cb s)[unat c := f (log_cb c s)]"
  "mb_chnnl_init_ok (on_log c f s) = mb_chnnl_init_ok s" "SRC_CPU (on_log c f s) = SRC_CPU s"
  "DST_CPU (on_log c f s) = DST_CPU s" "s_mailbox (on_log c f s) = s_mailbox s"
  "s_mailbox_is_init (on_log c f s) = s_mailbox_is_init s" "regs (on_log c f s) = regs s"
  "peer (on_log c f s) = peer s" "looks (on_log c f s) = looks s"
  by (simp_all add: on_log_def)

lemma log_cb_on_log:
  "unat c < length (log_chnl_cb s) \<Longrightarrow> log_cb c (on_log c f s) = f (log_cb c s)"
  "d \<noteq> c \<Longrightarrow> log_cb d (on_log c f s) = log_cb d s"
  by (simp_all add: log_cb_def on_log_def word_unat_eq_iff)

lemma chnl_mb_ok_simps [simp]:
  "mb_ok (on_phy f s) = mb_ok s" "mb_ok (on_log c g s) = mb_ok s"
  by (rule mb_ok_cong; simp)+

lemma chnl_frame_simps [simp]:
  "phy_chnl_cb (look s) = phy_chnl_cb s" "log_chnl_cb (look s) = log_chnl_cb s"
  "mb_chnnl_init_ok (look s) = mb_chnnl_init_ok s" "SRC_CPU (look s) = SRC_CPU s" "DST_CPU (look s) = DST_CPU s"
  "phy_chnl_cb (on_regs a f s) = phy_chnl_cb s" "log_chnl_cb (on_regs a f s) = log_chnl_cb s"
  "mb_chnnl_init_ok (on_regs a f s) = mb_chnnl_init_ok s" "SRC_CPU (on_regs a f s) = SRC_CPU s"
  "DST_CPU (on_regs a f s) = DST_CPU s" "log_cb c (look s) = log_cb c s" "log_cb c (on_regs a f s) = log_cb c s"
  by (simp_all add: look_def on_regs_def log_cb_def)

text \<open>A send changes nothing but the registers and the count of looks at them.\<close>

lemma mailbox_wait_box_frame: "\<exists>r l. snd (mailbox_wait_box n hw s) = s\<lparr>regs := r, looks := l\<rparr>"
proof (induction n arbitrary: s)
  case 0
  show ?case by (rule exI [of _ "regs s"], rule exI [of _ "looks s"]) simp
next
  case (Suc n)
  obtain box t where t: "mailbox_hal_check_which_box_ready hw s = (box, t)"
    by (cases "mailbox_hal_check_which_box_ready hw s")
  then obtain r l where "t = s\<lparr>regs := r, looks := l\<rparr>"
    by (auto simp: mailbox_hal_check_which_box_ready_def read_box_ready_def look_def Let_def split: if_splits)
  with Suc [of t] t show ?case by (auto simp: Let_def)
qed

lemma bk_mailbox_send_frame: "\<exists>r l. snd (bk_mailbox_send data src dst arg s) = s\<lparr>regs := r, looks := l\<rparr>"
proof -
  have refl: "\<exists>r l. s = s\<lparr>regs := r, looks := l\<rparr>"
    by (rule exI [of _ "regs s"], rule exI [of _ "looks s"]) simp
  have look: "\<exists>r l. look s = s\<lparr>regs := r, looks := l\<rparr>" by (auto simp: look_def)
  have regs: "\<exists>r l. on_regs a f t = s\<lparr>regs := r, looks := l\<rparr>"
    if "\<exists>r l. t = s\<lparr>regs := r, looks := l\<rparr>" for a f t
  proof -
    from that obtain r l where "t = s\<lparr>regs := r, looks := l\<rparr>" by blast
    then have "on_regs a f t = s\<lparr>regs := r(a := f (r a)), looks := l\<rparr>" by (simp add: on_regs_def)
    then show ?thesis by blast
  qed
  show ?thesis
    using refl look regs [OF look] regs mailbox_wait_box_frame [of MAILBOX_SEND_WAIT_COUNT _ s]
    by (auto simp: bk_mailbox_send_def mailbox_send_box_eq read_box_ready_def Let_def split_beta split: option.split)
qed

lemma bk_mailbox_send_simps [simp]:
  "s_mailbox (snd (bk_mailbox_send data src dst arg s)) = s_mailbox s"
  "s_mailbox_is_init (snd (bk_mailbox_send data src dst arg s)) = s_mailbox_is_init s"
  "phy_chnl_cb (snd (bk_mailbox_send data src dst arg s)) = phy_chnl_cb s"
  "log_chnl_cb (snd (bk_mailbox_send data src dst arg s)) = log_chnl_cb s"
  "mb_chnnl_init_ok (snd (bk_mailbox_send data src dst arg s)) = mb_chnnl_init_ok s"
  "SRC_CPU (snd (bk_mailbox_send data src dst arg s)) = SRC_CPU s"
  "DST_CPU (snd (bk_mailbox_send data src dst arg s)) = DST_CPU s"
  for s :: "'a mb_chnl_state_scheme"
  using bk_mailbox_send_frame [of data src dst arg s] by auto

section \<open>The invariant\<close>

text \<open>
  A closed channel has no message and no callbacks; the channel number an acknowledgement is compared
  with is in range; no channel is open before the initialisation, and after it the driver is set up.
\<close>

definition log_ok :: "mb_log_chnl_cb_t \<Rightarrow> bool" where
  "log_ok c \<longleftrightarrow>
     log_tx_state c \<in> {CHNL_STATE_ILDE, CHNL_STATE_BUSY} \<and>
     (log_in_used c = 0 \<longrightarrow> log_tx_state c = CHNL_STATE_ILDE \<and> log_rx_isr c = NULL \<and> log_tx_isr c = NULL \<and>
        log_tx_cmpl_isr c = NULL)"

definition chnl_ok :: "'a mb_chnl_state_scheme \<Rightarrow> bool" where
  "chnl_ok s \<longleftrightarrow>
     length (log_chnl_cb s) = 8 \<and> list_all log_ok (log_chnl_cb s) \<and>
     phy_tx_log_chnl_id (phy_chnl_cb s) < MB_LOG_CHNL_NUM \<and>
     phy_tx_state (phy_chnl_cb s) \<in> {CHNL_STATE_ILDE, CHNL_STATE_BUSY} \<and>
     length (s_mailbox s) = 2 \<and> (\<forall>m \<in> set (s_mailbox s). length (mi_rx m) = 2) \<and>
     (mb_chnnl_init_ok s = 0 \<longrightarrow> list_all (\<lambda>c. log_in_used c = 0) (log_chnl_cb s)) \<and>
     (mb_chnnl_init_ok s \<noteq> 0 \<longrightarrow> mb_ok s)"

lemma log_in_range: "c < MB_LOG_CHNL_NUM \<longleftrightarrow> unat c < 8"
  by (simp add: MB_LOG_CHNL_NUM_def word_less_nat_alt)

lemma list_all_update: "list_all P xs \<Longrightarrow> P x \<Longrightarrow> list_all P (xs[i := x])"
  by (auto simp: list_all_iff dest: set_update_subset_insert [THEN subsetD])

lemma chnl_ok_log_cb:
  "chnl_ok s \<Longrightarrow> c < MB_LOG_CHNL_NUM \<Longrightarrow> log_ok (log_cb c s)"
  by (simp add: chnl_ok_def log_cb_def log_in_range list_all_length)

lemma chnl_ok_send: "chnl_ok s \<Longrightarrow> chnl_ok (snd (bk_mailbox_send data src dst arg s))"
  by (simp add: chnl_ok_def mb_ok_cong [of "snd (bk_mailbox_send data src dst arg s)" s])


lemma chnl_ok_on_log:
  assumes "chnl_ok s" "log_ok (f (log_cb c s))"
    and "mb_chnnl_init_ok s = 0 \<Longrightarrow> log_in_used (f (log_cb c s)) = 0"
  shows "chnl_ok (on_log c f s)"
  using assms by (auto simp: chnl_ok_def list_all_update)

section \<open>The operations in closed form\<close>

definition stamp :: "u8 \<Rightarrow> u8 \<Rightarrow> mailbox_data_t \<Rightarrow> mailbox_data_t" where
  "stamp log_chnl seq =
     on_hdr (\<lambda>h. set_state 0 (set_ctrl 0 (set_tx_seq (ucast seq) (set_logical_chnl (ucast log_chnl) h))))"

definition tx_prepare :: "u8 \<Rightarrow> 'a mb_chnl_state_scheme \<Rightarrow> 'a mb_chnl_state_scheme" where
  "tx_prepare log_chnl s =
     on_log log_chnl (\<lambda>c. c\<lparr>log_tx_buff := stamp log_chnl (phy_tx_seq (phy_chnl_cb s) + 1) (log_tx_buff c)\<rparr>)
       (on_phy (\<lambda>p. p\<lparr>phy_tx_seq := phy_tx_seq p + 1, phy_tx_log_chnl_id := log_chnl\<rparr>) s)"

definition tx_done :: "'a code \<Rightarrow> u8 \<Rightarrow> 'a mb_chnl_state_scheme \<Rightarrow> 'a mb_chnl_state_scheme" where
  "tx_done code log_chnl s =
     (let s = on_log log_chnl (\<lambda>c. c\<lparr>log_tx_state := CHNL_STATE_ILDE\<rparr>) s;
          c = log_cb log_chnl s
      in if log_tx_isr c \<noteq> NULL then run_tx_isr code (log_tx_isr c) (log_isr_param c) s else s)"

definition tx_fault :: "'a mb_chnl_state_scheme \<Rightarrow> 'a mb_chnl_state_scheme" where
  "tx_fault = on_phy (\<lambda>p. p\<lparr>phy_tx_fault_cnt := phy_tx_fault_cnt p + 1\<rparr>)"

lemma tx_prepare_simps [simp]:
  "SRC_CPU (tx_prepare c s) = SRC_CPU s" "DST_CPU (tx_prepare c s) = DST_CPU s" "regs (tx_prepare c s) = regs s"
  "peer (tx_prepare c s) = peer s" "looks (tx_prepare c s) = looks s" "mb_ok (tx_prepare c s) = mb_ok s"
  by (simp_all add: tx_prepare_def)

lemma on_phy_twice: "on_phy f (on_phy g s) = on_phy (f \<circ> g) s"
  by (simp add: on_phy_def)

lemma on_log_twice: "unat c < length (log_chnl_cb s) \<Longrightarrow> on_log c f (on_log c g s) = on_log c (f \<circ> g) s"
  by (simp add: on_log_def log_cb_def)

lemma tx_cmd_eq:
  assumes "log_chnl < MB_LOG_CHNL_NUM" "length (log_chnl_cb s) = 8"
  shows "mb_phy_chnl_tx_cmd code log_chnl s =
    (let q = tx_prepare log_chnl s;
         (e, t) = bk_mailbox_send (log_tx_buff (log_cb log_chnl q)) (SRC_CPU s) (DST_CPU s) (Some MB_PHY_CMD_CHNL) q
     in if e \<noteq> BK_OK then (2, tx_fault t) else (0, tx_done code log_chnl t))"
proof -
  have len: "unat log_chnl < length (log_chnl_cb s)" using assms by (simp add: log_in_range)
  have q: "on_log log_chnl (\<lambda>c. c\<lparr>log_tx_buff := on_hdr (set_state 0) (log_tx_buff c)\<rparr>)
      (on_log log_chnl (\<lambda>c. c\<lparr>log_tx_buff := on_hdr (set_ctrl 0) (log_tx_buff c)\<rparr>)
        (on_log log_chnl (\<lambda>c. c\<lparr>log_tx_buff := on_hdr (set_tx_seq (ucast (phy_tx_seq (phy_chnl_cb s) + 1))) (log_tx_buff c)\<rparr>)
          (on_log log_chnl (\<lambda>c. c\<lparr>log_tx_buff := on_hdr (set_logical_chnl (ucast log_chnl)) (log_tx_buff c)\<rparr>)
            (on_phy (\<lambda>p. p\<lparr>phy_tx_log_chnl_id := log_chnl\<rparr>) (on_phy (\<lambda>p. p\<lparr>phy_tx_seq := phy_tx_seq p + 1\<rparr>) s))))) =
      tx_prepare log_chnl s"
    using len by (simp add: on_log_twice on_phy_twice tx_prepare_def stamp_def on_hdr_def comp_def)
  show ?thesis
    using assms(1)
    by (simp add: mb_phy_chnl_tx_cmd_def Let_def q tx_done_def tx_fault_def split_beta not_le [symmetric])
qed

text \<open>Where the messages of a processor go: the mailbox from it to the other one.\<close>

definition out_mailbox :: "'a mb_chnl_state_scheme \<Rightarrow> u32 option" where
  "out_mailbox s = mailbox_id_of (SRC_CPU s) (DST_CPU s)"

lemma tx_cmd_cases:
  assumes "log_chnl < MB_LOG_CHNL_NUM" "length (log_chnl_cb s) = 8" "mb_ok s" "out_mailbox s = Some i"
    and "q = tx_prepare log_chnl s"
  shows "mb_phy_chnl_tx_cmd code log_chnl s =
    (if box_full 0 (regs (look q) (MAILBOX_LL_REG_BASE i)) then (2, tx_fault (look q))
     else (0, tx_done code log_chnl
            (on_regs (MAILBOX_LL_REG_BASE i) (fill_box 0 (log_tx_buff (log_cb log_chnl q))) (look q))))"
proof -
  have "mb_ok q" using assms(3,5) by simp
  from bk_mailbox_send_box [OF this, of "SRC_CPU s" "DST_CPU s" i 0] assms(4)
  show ?thesis
    by (simp add: tx_cmd_eq [OF assms(1,2)] assms(5) [symmetric] MB_PHY_CMD_CHNL_def out_mailbox_def Let_def)
qed

section \<open>Preservation\<close>


lemma chnl_ok_closed:
  "chnl_ok s \<Longrightarrow> c < MB_LOG_CHNL_NUM \<Longrightarrow> mb_chnnl_init_ok s = 0 \<Longrightarrow> log_in_used (log_cb c s) = 0"
  by (simp add: chnl_ok_def log_cb_def log_in_range list_all_length)

lemma chnl_ok_keep_log:
  assumes "chnl_ok s" "c < MB_LOG_CHNL_NUM" "log_ok (log_cb c s) \<Longrightarrow> log_ok (f (log_cb c s))"
    and "log_in_used (f (log_cb c s)) = log_in_used (log_cb c s)"
  shows "chnl_ok (on_log c f s)"
  using assms chnl_ok_log_cb chnl_ok_closed by (intro chnl_ok_on_log) auto







lemma chnl_ok_send_poll:
  assumes "mb_send_poll m s = Some (e, t)" "chnl_ok s"
  shows "chnl_ok t"
proof -
  have "chnl_ok s \<longrightarrow> chnl_ok (snd r)" if "mb_send_poll m s = Some r" for r
  proof (rule mb_send_poll.raw_induct [OF _ that])
    fix f m r and s :: "'a mb_chnl_state_scheme"
    assume IH: "\<And>m s r. f m s = Some r \<Longrightarrow> chnl_ok s \<longrightarrow> chnl_ok (snd r)"
      and "(let (e, s) = bk_mailbox_send m (SRC_CPU s) (DST_CPU s) (Some MB_PHY_CMD_CHNL) s
            in if e \<noteq> BK_ERR_MAILBOX_TIMEOUT then Some (e, s) else f m s) = Some r"
    then show "chnl_ok s \<longrightarrow> chnl_ok (snd r)"
      using chnl_ok_send [of s m "SRC_CPU s" "DST_CPU s" "Some MB_PHY_CMD_CHNL"]
      by (auto simp: split_beta split: if_splits)
  qed
  with assms show ?thesis by force
qed

lemma chnl_ok_ctrl:
  assumes "mb_chnl_ctrl log_chnl cmd param buf s = Some (e, st, buf', t)" "chnl_ok s"
  shows "chnl_ok t"
proof -
  have "chnl_ok (on_log log_chnl (\<lambda>c. c\<lparr>log_rx_isr := param\<rparr>) s)"
    "chnl_ok (on_log log_chnl (\<lambda>c. c\<lparr>log_tx_isr := param\<rparr>) s)"
    "chnl_ok (on_log log_chnl (\<lambda>c. c\<lparr>log_tx_cmpl_isr := param\<rparr>) s)"
    if "log_chnl < MB_LOG_CHNL_NUM" "log_in_used (log_cb log_chnl s) \<noteq> 0"
    using assms(2) that by (auto intro!: chnl_ok_keep_log simp: log_ok_def)
  then show ?thesis
    using assms chnl_ok_send_poll
    by (auto simp: mb_chnl_ctrl_def mb_phy_chnl_tx_cmd_sync_def not_le split: if_splits)
qed


lemma chnl_mb_init [simp]:
  "phy_chnl_cb (snd (bk_mailbox_init s)) = phy_chnl_cb s" "log_chnl_cb (snd (bk_mailbox_init s)) = log_chnl_cb s"
  "mb_chnnl_init_ok (snd (bk_mailbox_init s)) = mb_chnnl_init_ok s"
  "SRC_CPU (snd (bk_mailbox_init s)) = SRC_CPU s" "DST_CPU (snd (bk_mailbox_init s)) = DST_CPU s"
  for s :: "'a mb_chnl_state_scheme"
proof -
  note defs = mailbox_config_entry_def on_info_def mailbox_hal_set_identity_def on_regs_def mailbox_init_entry_def
    mailbox_interrupt_enable_def
  have entry: "phy_chnl_cb (f s) = phy_chnl_cb s" "log_chnl_cb (f s) = log_chnl_cb s"
    "mb_chnnl_init_ok (f s) = mb_chnnl_init_ok s" "SRC_CPU (f s) = SRC_CPU s" "DST_CPU (f s) = DST_CPU s"
    if "f = mailbox_config_entry c \<or> f = mailbox_init_entry j" for f c j and s :: "'a mb_chnl_state_scheme"
    using that by (auto simp: defs Let_def split: mailbox_endpoint_t.split)
  note entries = entry [OF disjI1 [OF refl]] entry [OF disjI2 [OF refl]]
  show "phy_chnl_cb (snd (bk_mailbox_init s)) = phy_chnl_cb s" "log_chnl_cb (snd (bk_mailbox_init s)) = log_chnl_cb s"
    "mb_chnnl_init_ok (snd (bk_mailbox_init s)) = mb_chnnl_init_ok s"
    "SRC_CPU (snd (bk_mailbox_init s)) = SRC_CPU s" "DST_CPU (snd (bk_mailbox_init s)) = DST_CPU s"
    by (simp_all add: bk_mailbox_init_def mailbox_config_def MAILBAOX_CONFIG_INFO_TABLE_def upt_rec entries)
qed

lemma chnl_register [simp]:
  "phy_chnl_cb (snd (bk_mailbox_recv_callback_register src dst f s)) = phy_chnl_cb s"
  "log_chnl_cb (snd (bk_mailbox_recv_callback_register src dst f s)) = log_chnl_cb s"
  "mb_chnnl_init_ok (snd (bk_mailbox_recv_callback_register src dst f s)) = mb_chnnl_init_ok s"
  for s :: "'a mb_chnl_state_scheme"
  by (simp_all add: bk_mailbox_recv_callback_register_def on_info_def Let_def split: option.split)

lemma mb_ok_register:
  assumes "mb_ok s"
  shows "mb_ok (snd (bk_mailbox_recv_callback_register src dst f s))"
proof -
  have "mb_ok (on_info i (\<lambda>m. m\<lparr>mi_rx := (mi_rx m)[num := f]\<rparr>) s)" if "i < 2" for i num
    using assms that by (auto simp: on_info_def mb_ok_def mb_entry_ok_def less_2_cases_iff)
  with assms show ?thesis
    by (simp add: bk_mailbox_recv_callback_register_def Let_def not_le split: option.split)
qed

lemma mb_ok_shape: "mb_ok s \<Longrightarrow> length (s_mailbox s) = 2 \<and> (\<forall>m \<in> set (s_mailbox s). length (mi_rx m) = 2)"
  by (auto simp: mb_ok_def mb_entry_ok_def MAILBOX_CALLBACK_NUMBER_def in_set_conv_nth less_2_cases_iff)

text \<open>The channels after the reset at the start of the initialisation.\<close>

definition fresh_logs :: "mb_log_chnl_cb_t list" where
  "fresh_logs = map (\<lambda>i. zero_log\<lparr>log_chnl_id := of_nat i\<rparr>) [0..<8]"

definition chnl_cleared :: "'a mb_chnl_state_scheme \<Rightarrow> 'a mb_chnl_state_scheme" where
  "chnl_cleared s = s\<lparr>phy_chnl_cb := zero_phy, log_chnl_cb := fresh_logs\<rparr>"

lemma upt_8: "[0..<8] = [0, 1, 2, 3, 4, 5, 6, 7 :: nat]"
  by (simp add: upt_rec)

lemma replicate_8: "replicate 8 x = [x, x, x, x, x, x, x, x]"
  by (simp add: numeral_eq_Suc)

lemma fresh_logs_ok: "length fresh_logs = 8" "list_all log_ok fresh_logs" "list_all (\<lambda>c. log_in_used c = 0) fresh_logs"
  by (simp_all add: fresh_logs_def list_all_iff log_ok_def zero_log_def chnl_consts)

lemma mb_chnl_init_eq:
  "mb_chnl_init rx_isr s =
     (if mb_chnnl_init_ok s \<noteq> 0 then (BK_OK, s)
      else
        let (e, t) = bk_mailbox_init (chnl_cleared s)
        in if e \<noteq> BK_OK then (e, t)
           else let (e, u) = bk_mailbox_recv_callback_register (DST_CPU t) (SRC_CPU t) rx_isr t
                in if e \<noteq> BK_OK then (e, u) else (BK_OK, u\<lparr>mb_chnnl_init_ok := 1\<rparr>))"
proof -
  have "phy_idle (s\<lparr>phy_chnl_cb := zero_phy\<rparr>) = s\<lparr>phy_chnl_cb := zero_phy\<rparr>"
    by (simp add: phy_idle_def on_phy_def zero_phy_def CHNL_STATE_ILDE_def)
  moreover have "fold (\<lambda>i s. on_log (of_nat i) (\<lambda>c. c\<lparr>log_chnl_id := of_nat i, log_tx_state := CHNL_STATE_ILDE\<rparr>) s)
      [0..<8] (t\<lparr>log_chnl_cb := replicate 8 zero_log\<rparr>) = t\<lparr>log_chnl_cb := fresh_logs\<rparr>"
    for t :: "'a mb_chnl_state_scheme"
    by (simp add: upt_8 replicate_8 on_log_def log_cb_def fresh_logs_def zero_log_def CHNL_STATE_ILDE_def)
  ultimately show ?thesis
    by (simp add: mb_chnl_init_def MB_LOG_CHNL_NUM_def Let_def split_beta chnl_cleared_def)
qed

lemma chnl_ok_init:
  assumes "chnl_ok s"
  shows "chnl_ok (snd (mb_chnl_init rx_isr s))"
proof (cases "mb_chnnl_init_ok s = 0")
  case True
  let ?s = "chnl_cleared s"
  let ?t = "snd (bk_mailbox_init ?s)"
  let ?u = "snd (bk_mailbox_recv_callback_register (DST_CPU ?t) (SRC_CPU ?t) rx_isr ?t)"
  have shape: "length (s_mailbox ?s) = 2" "\<forall>m \<in> set (s_mailbox ?s). length (mi_rx m) = 2"
    using assms by (simp_all add: chnl_ok_def chnl_cleared_def)
  have ctl: "phy_chnl_cb ?s = zero_phy" "log_chnl_cb ?s = fresh_logs" "mb_chnnl_init_ok ?s = 0"
    using True by (simp_all add: chnl_cleared_def)
  have cleared: "chnl_ok ?s"
    using shape ctl fresh_logs_ok by (simp add: chnl_ok_def zero_phy_def chnl_consts)
  show ?thesis
  proof (cases "s_mailbox_is_init ?s")
    case True
    then have "?t = ?s" "fst (bk_mailbox_init ?s) \<noteq> BK_OK"
      by (simp_all add: bk_mailbox_init_def)
    then show ?thesis using cleared assms by (simp add: mb_chnl_init_eq split_beta Let_def)
  next
    case False
    note init = bk_mailbox_init_ok [OF False shape]
    have ok: "mb_ok ?u" by (rule mb_ok_register [OF init(2)])
    have u: "chnl_ok ?u" "chnl_ok (?u\<lparr>mb_chnnl_init_ok := 1\<rparr>)"
      using ctl fresh_logs_ok ok mb_ok_shape [OF ok] mb_ok_cong [of "?u\<lparr>mb_chnnl_init_ok := 1\<rparr>" ?u]
      by (simp_all add: chnl_ok_def zero_phy_def chnl_consts)
    then show ?thesis using init(1) assms by (simp add: mb_chnl_init_eq split_beta Let_def)
  qed
qed (use assms in \<open>simp add: mb_chnl_init_def\<close>)

lemma mb_chnl_init_done: "fst (mb_chnl_init rx_isr s) = BK_OK \<Longrightarrow> mb_chnnl_init_ok (snd (mb_chnl_init rx_isr s)) \<noteq> 0"
  by (auto simp: mb_chnl_init_eq Let_def split_beta split: if_splits)

lemma chnl_ok_open:
  assumes "chnl_ok s"
  shows "chnl_ok (snd (mb_chnl_open rx_isr log_chnl p s))"
proof -
  have opened: "chnl_ok (on_log log_chnl (\<lambda>c. c\<lparr>log_in_used := 1, log_isr_param := p\<rparr>) t)"
    if "chnl_ok t" "mb_chnnl_init_ok t \<noteq> 0" "log_chnl < MB_LOG_CHNL_NUM" for t
    using that chnl_ok_log_cb [OF that(1,3)] by (intro chnl_ok_on_log) (auto simp: log_ok_def)
  show ?thesis
    using assms chnl_ok_init [OF assms] mb_chnl_init_done [of rx_isr s]
    by (auto simp: mb_chnl_open_def Let_def split_beta not_le opened)
qed

section \<open>The reachable states\<close>


definition chnl_initial :: "'a mb_chnl_state_scheme \<Rightarrow> bool" where
  "chnl_initial s \<longleftrightarrow>
     phy_chnl_cb s = zero_phy \<and> log_chnl_cb s = replicate 8 zero_log \<and> mb_chnnl_init_ok s = 0 \<and>
     length (s_mailbox s) = 2 \<and> (\<forall>m \<in> set (s_mailbox s). length (mi_rx m) = 2)"

lemma chnl_initial_ok: "chnl_initial s \<Longrightarrow> chnl_ok s"
  by (simp add: chnl_initial_def chnl_ok_def replicate_8 zero_phy_def zero_log_def log_ok_def chnl_consts)



section \<open>Headers\<close>



lemma on_hdr_on_hdr [simp]: "on_hdr f (on_hdr g m) = on_hdr (f \<circ> g) m"
  by (simp add: on_hdr_def)

lemma param0_on_hdr [simp]: "param0 (on_hdr f m) = f (param0 m)"
  by (simp add: on_hdr_def)





section \<open>Properties\<close>


definition chnl_boot :: "mailbox_endpoint_t \<Rightarrow> mailbox_endpoint_t \<Rightarrow> mb_chnl_state" where
  "chnl_boot src dst =
     \<lparr>s_mailbox = [zero_info, zero_info], s_mailbox_is_init = False, regs = (\<lambda>_. sample_regs),
      isr_of = (\<lambda>_. No_isr), int_enabled = (\<lambda>_. False), peer = (\<lambda>_ r. r), looks = 0,
      phy_chnl_cb = zero_phy, log_chnl_cb = replicate 8 zero_log, mb_chnnl_init_ok = 0, SRC_CPU = src, DST_CPU = dst\<rparr>"

text \<open>Callbacks that use the channels: the completion callback writes the next message.\<close>

definition idle_code :: "'a code" where
  "idle_code = \<lparr>run_tx_isr = (\<lambda>_ _ s. s), run_tx_cmpl_isr = (\<lambda>_ _ _ s. s), run_rx_isr = (\<lambda>_ _ m s. (m, s))\<rparr>"


lemma idle_code_simps [simp]:
  "run_tx_isr idle_code f p s = s" "run_tx_cmpl_isr idle_code f p m s = s" "run_rx_isr idle_code f p m s = (m, s)"
  by (simp_all add: idle_code_def)



lemma chnl_boot_initial: "chnl_initial (chnl_boot src dst)"
  by (simp add: chnl_initial_def chnl_boot_def zero_info_def)








text \<open>A processor with channel 2 open and one callback of it set.\<close>

definition chnl_end :: "mailbox_endpoint_t \<Rightarrow> mailbox_endpoint_t \<Rightarrow> u8 \<Rightarrow> mb_chnl_state" where
  "chnl_end src dst cmd =
     (case mb_chnl_ctrl 2 cmd 0x55 sample_message (snd (mb_chnl_open 0x100 2 0x66 (chnl_boot src dst))) of
        Some (_, _, _, s) \<Rightarrow> s | None \<Rightarrow> chnl_boot src dst)"

lemma chnl_end_ok: "chnl_ok (chnl_end src dst cmd)"
proof -
  have "chnl_ok (snd (mb_chnl_open 0x100 2 0x66 (chnl_boot src dst)))"
    by (intro chnl_ok_open chnl_initial_ok chnl_boot_initial)
  then show ?thesis
    using chnl_initial_ok [OF chnl_boot_initial] chnl_ok_ctrl
    by (fastforce simp: chnl_end_def split: option.split)
qed

lemma chnl_sender:
  "out_mailbox (chnl_end MAILBOX_CPU0 MAILBOX_CPU1 3) = Some 0"
  "log_in_used (log_cb 2 (chnl_end MAILBOX_CPU0 MAILBOX_CPU1 3)) \<noteq> 0"
  "log_tx_state (log_cb 2 (chnl_end MAILBOX_CPU0 MAILBOX_CPU1 3)) = CHNL_STATE_ILDE"
  "phy_tx_state (phy_chnl_cb (chnl_end MAILBOX_CPU0 MAILBOX_CPU1 3)) = CHNL_STATE_ILDE"
  "log_tx_isr (log_cb 2 (chnl_end MAILBOX_CPU0 MAILBOX_CPU1 3)) = NULL"
  "log_tx_cmpl_isr (log_cb 2 (chnl_end MAILBOX_CPU0 MAILBOX_CPU1 3)) \<noteq> NULL"
  "\<not> box_full 0 (regs (look (chnl_end MAILBOX_CPU0 MAILBOX_CPU1 3)) (MAILBOX_LL_REG_BASE 0))"
  by code_simp+











lemma chnl_sender_init: "mb_chnnl_init_ok (chnl_end MAILBOX_CPU0 MAILBOX_CPU1 3) \<noteq> 0"
  by code_simp







section \<open>Synchronous sends\<close>

definition box_busy :: "u32 \<Rightarrow> 'a mb_chnl_state_scheme \<Rightarrow> nat \<Rightarrow> bool" where
  "box_busy i s n \<longleftrightarrow> box_full 0 (regs ((look ^^ Suc n) s) (MAILBOX_LL_REG_BASE i))"

lemma box_busy_look: "box_busy i (look s) n = box_busy i s (Suc n)"
  by (simp add: box_busy_def funpow_swap1)

lemma send_poll_step:
  assumes "mb_ok s" "out_mailbox s = Some i"
  shows "mb_send_poll m s =
    (if box_busy i s 0 then mb_send_poll m (look s)
     else Some (BK_OK, on_regs (MAILBOX_LL_REG_BASE i) (fill_box 0 m) (look s)))"
  using bk_mailbox_send_box [OF assms(1), of "SRC_CPU s" "DST_CPU s" i 0 m] assms(2)
  by (subst mb_send_poll.simps) (simp add: MB_PHY_CMD_CHNL_def out_mailbox_def box_busy_def)

lemma out_mailbox_look [simp]: "out_mailbox (look s) = out_mailbox s"
  by (simp add: out_mailbox_def)

lemma send_poll_returns:
  assumes "mb_ok s" "out_mailbox s = Some i" "\<forall>k < n. box_busy i s k" "\<not> box_busy i s n"
  shows "mb_send_poll m s = Some (BK_OK, on_regs (MAILBOX_LL_REG_BASE i) (fill_box 0 m) ((look ^^ Suc n) s))"
  using assms
proof (induction n arbitrary: s)
  case 0
  then show ?case by (simp add: send_poll_step)
next
  case (Suc n)
  have "mb_send_poll m (look s) =
      Some (BK_OK, on_regs (MAILBOX_LL_REG_BASE i) (fill_box 0 m) ((look ^^ Suc n) (look s)))"
    using Suc.prems by (intro Suc.IH) (simp_all add: box_busy_look)
  moreover have "(look ^^ Suc n) (look s) = (look ^^ Suc (Suc n)) s" by (simp only: funpow_Suc_right comp_apply)
  ultimately show ?case using Suc.prems by (simp only: send_poll_step [OF Suc.prems(1,2)]) simp
qed

lemma send_poll_waits:
  assumes "mb_send_poll m s = Some r" "mb_ok s" "out_mailbox s = Some i"
  shows "\<exists>n. \<not> box_busy i s n"
proof -
  have "mb_ok s \<and> out_mailbox s = Some i \<longrightarrow> (\<exists>n. \<not> box_busy i s n)"
  proof (rule mb_send_poll.raw_induct [OF _ assms(1)])
    fix f m r and s :: "'a mb_chnl_state_scheme"
    assume IH: "\<And>m s r. f m s = Some r \<Longrightarrow> mb_ok s \<and> out_mailbox s = Some i \<longrightarrow> (\<exists>n. \<not> box_busy i s n)"
      and step: "(let (e, s) = bk_mailbox_send m (SRC_CPU s) (DST_CPU s) (Some MB_PHY_CMD_CHNL) s
            in if e \<noteq> BK_ERR_MAILBOX_TIMEOUT then Some (e, s) else f m s) = Some r"
    show "mb_ok s \<and> out_mailbox s = Some i \<longrightarrow> (\<exists>n. \<not> box_busy i s n)"
    proof (intro impI, cases "box_busy i s 0")
      assume ok: "mb_ok s \<and> out_mailbox s = Some i" and busy: "box_busy i s 0"
      then have "f m (look s) = Some r"
        using step bk_mailbox_send_box [of s "SRC_CPU s" "DST_CPU s" i 0 m]
        by (simp add: MB_PHY_CMD_CHNL_def out_mailbox_def box_busy_def)
      from IH [OF this] ok obtain n where "\<not> box_busy i (look s) n" by auto
      then show "\<exists>n. \<not> box_busy i s n" by (auto simp: box_busy_look)
    qed auto
  qed
  with assms(2,3) show ?thesis by simp
qed

text \<open>
  C18. A synchronous send polls the command box without a bound. It returns exactly when the other
  processor has the box empty at some look; then it returns BK_OK, at the first such look, with the message, marked
  as synchronous, in the box. When the box stays full it never returns.
\<close>

theorem chnl_sync_send:
  assumes "mb_ok s" "out_mailbox s = Some i"
  shows "mb_phy_chnl_tx_cmd_sync c m s =
    (if \<exists>n. \<not> box_busy i s n
     then Some (BK_OK, sync_cmd c m,
            on_regs (MAILBOX_LL_REG_BASE i) (fill_box 0 (sync_cmd c m)) ((look ^^ Suc (LEAST n. \<not> box_busy i s n)) s))
     else None)"
proof (cases "\<exists>n. \<not> box_busy i s n")
  case True
  define n where "n = (LEAST n. \<not> box_busy i s n)"
  have "\<not> box_busy i s n" "\<forall>k < n. box_busy i s k"
    unfolding n_def using LeastI_ex [OF True] not_less_Least by blast+
  from send_poll_returns [OF assms this(2,1)] True show ?thesis
    by (simp only: mb_phy_chnl_tx_cmd_sync_def n_def [symmetric]) simp
next
  case False
  with send_poll_waits [OF _ assms] have "mb_send_poll (sync_cmd c m) s = None" by (cases "mb_send_poll (sync_cmd c m) s") auto
  with False show ?thesis by (simp add: mb_phy_chnl_tx_cmd_sync_def)
qed

theorem chnl_sync_send_witness:
  "\<exists>t. mb_phy_chnl_tx_cmd_sync 2 sample_message (chnl_end MAILBOX_CPU0 MAILBOX_CPU1 3) =
     Some (BK_OK, sync_cmd 2 sample_message, t)"
proof -
  let ?s = "chnl_end MAILBOX_CPU0 MAILBOX_CPU1 3"
  have "mb_ok ?s" using chnl_end_ok [of MAILBOX_CPU0 MAILBOX_CPU1 3] chnl_sender_init by (simp add: chnl_ok_def)
  from chnl_sync_send [OF this chnl_sender(1)]
  have "mb_phy_chnl_tx_cmd_sync 2 sample_message ?s =
      (if \<exists>n. \<not> box_busy 0 ?s n then Some (BK_OK, sync_cmd 2 sample_message,
         on_regs (MAILBOX_LL_REG_BASE 0) (fill_box 0 (sync_cmd 2 sample_message)) ((look ^^ Suc (LEAST n. \<not> box_busy 0 ?s n)) ?s))
       else None)" .
  moreover have "\<not> box_busy 0 ?s 0" using chnl_sender(7) by (simp add: box_busy_def)
  then have "\<exists>n. \<not> box_busy 0 ?s n" ..
  ultimately show ?thesis by simp
qed

section \<open>Failed sends\<close>

text \<open>
  A write while the physical channel is idle but the command box is still full, as a synchronous
  send leaves it, reports BK_OK although nothing was sent: the registers are as the look found them, the
  channel stays busy with the message in its buffer, and the physical channel is idle, so that no
  acknowledgement is awaited that would send it. In that state every further write on the channel is
  refused as busy; only the acknowledgement of a later command of another channel can send the message.
\<close>

theorem chnl_write_stuck:
  assumes "chnl_ok s" "out_mailbox s = Some i" "c < MB_LOG_CHNL_NUM"
    and "log_in_used (log_cb c s) \<noteq> 0" "log_tx_state (log_cb c s) = CHNL_STATE_ILDE"
    and "phy_tx_state (phy_chnl_cb s) = CHNL_STATE_ILDE" "box_full 0 (regs (look s) (MAILBOX_LL_REG_BASE i))"
  shows "\<exists>t. mb_chnl_write code c m s = (BK_OK, t) \<and> regs t = regs (look s) \<and>
    log_tx_state (log_cb c t) = CHNL_STATE_BUSY \<and> phy_tx_state (phy_chnl_cb t) = CHNL_STATE_ILDE \<and>
    (\<forall>m'. mb_chnl_write code c m' t = (BK_ERR_BUSY, t))"
proof -
  have len: "unat c < length (log_chnl_cb s)" using assms(1,3) by (simp add: chnl_ok_def log_in_range)
  define u where "u = on_phy (\<lambda>p. p\<lparr>phy_tx_state := CHNL_STATE_BUSY\<rparr>)
    (on_log c (\<lambda>c. c\<lparr>log_tx_state := CHNL_STATE_BUSY\<rparr>) (on_log c (\<lambda>c. c\<lparr>log_tx_buff := m\<rparr>) s))"
  define t where "t = phy_idle (tx_fault (look (tx_prepare c u)))"
  have u: "mb_ok u" "length (log_chnl_cb u) = 8" "out_mailbox u = Some i" "unat c < length (log_chnl_cb u)"
    "log_cb c u = (log_cb c s)\<lparr>log_tx_state := CHNL_STATE_BUSY, log_tx_buff := m\<rparr>" "regs (look u) = regs (look s)"
    using assms(1,2,4) chnl_ok_closed [OF assms(1,3)] len
    by (auto simp: u_def out_mailbox_def log_cb_on_log look_def chnl_ok_def)
  have look: "regs (look (tx_prepare c u)) = regs (look s)" using u(6) by (simp add: look_def)
  have "mb_chnl_write code c m s = (BK_OK, t)"
    using assms(3-7)
    by (simp add: mb_chnl_write_def mb_phy_chnl_start_tx_def u_def [symmetric] t_def not_le [symmetric] Let_def
        tx_cmd_cases [OF assms(3) u(2,1,3) refl] look)
  moreover have cb: "log_cb c t = log_cb c (tx_prepare c u)" by (simp add: t_def phy_idle_def tx_fault_def)
  moreover have state: "log_tx_state (log_cb c t) = CHNL_STATE_BUSY" "log_in_used (log_cb c t) \<noteq> 0"
    using u(4,5) assms(4) by (simp_all add: cb tx_prepare_def log_cb_on_log)
  moreover have "mb_chnl_write code c m' t = (BK_ERR_BUSY, t)" for m'
    using state assms(3) by (simp add: mb_chnl_write_def not_le [symmetric] chnl_consts)
  ultimately show ?thesis using look by (simp add: t_def phy_idle_def tx_fault_def)
qed

definition chnl_blocked :: mb_chnl_state where
  "chnl_blocked =
     on_regs (MAILBOX_LL_REG_BASE 0) (fill_box 0 (sync_cmd 2 sample_message)) (chnl_end MAILBOX_CPU0 MAILBOX_CPU1 3)"

lemma chnl_blocked_facts:
  "chnl_ok chnl_blocked" "out_mailbox chnl_blocked = Some 0" "log_in_used (log_cb 2 chnl_blocked) \<noteq> 0"
  "log_tx_state (log_cb 2 chnl_blocked) = CHNL_STATE_ILDE" "phy_tx_state (phy_chnl_cb chnl_blocked) = CHNL_STATE_ILDE"
  using chnl_sender chnl_end_ok [of MAILBOX_CPU0 MAILBOX_CPU1 3]
  by (simp_all add: chnl_blocked_def out_mailbox_def chnl_ok_def)

lemma peer_chnl_end: "peer (chnl_end MAILBOX_CPU0 MAILBOX_CPU1 3) k r = r"
proof -
  have "peer (snd (mb_chnl_open a c p s)) = peer s" for a c p and s :: mb_chnl_state
    by (auto simp: mb_chnl_open_def mb_chnl_init_eq Let_def split_beta chnl_cleared_def
        bk_mailbox_recv_callback_register_def on_info_def split: option.split)
  then show ?thesis
    by (auto simp: chnl_end_def mb_chnl_ctrl_def chnl_boot_def split: option.split if_splits)
qed

theorem chnl_write_stuck_witness:
  "\<exists>t. mb_chnl_write idle_code 2 sample_message chnl_blocked = (BK_OK, t) \<and>
     mb_chnl_write idle_code 2 sample_message t = (BK_ERR_BUSY, t)"
proof -
  have c: "(2 :: u8) < MB_LOG_CHNL_NUM" by (simp add: MB_LOG_CHNL_NUM_def)
  have "box_full 0 (regs (look chnl_blocked) (MAILBOX_LL_REG_BASE 0))"
    by (simp add: look_def chnl_blocked_def peer_chnl_end)
  from chnl_write_stuck [OF chnl_blocked_facts(1,2) c chnl_blocked_facts(3-5) this, of idle_code sample_message]
  show ?thesis by blast
qed

text \<open>
  When the mailbox driver was initialised by someone else before the channels, opening a channel
  fails with the driver's error for a repeated initialisation, and leaves a state in which the next
  attempt fails in the same way, as long as the driver stays initialised.
\<close>

theorem chnl_open_after_driver_init:
  assumes "s_mailbox_is_init s" "mb_chnnl_init_ok s = 0"
  shows "mb_chnl_open rx_isr c p s = (BK_ERR_MAILBOX_REPEAT_INIT, chnl_cleared s) \<and>
    s_mailbox_is_init (chnl_cleared s) \<and> mb_chnnl_init_ok (chnl_cleared s) = 0"
  using assms by (simp add: mb_chnl_open_def mb_chnl_init_eq bk_mailbox_init_def chnl_cleared_def)

theorem chnl_open_after_driver_init_witness:
  "fst (mb_chnl_open 0x100 2 NULL (snd (bk_mailbox_init (chnl_boot MAILBOX_CPU0 MAILBOX_CPU1)))) =
     BK_ERR_MAILBOX_REPEAT_INIT"
proof -
  let ?s = "snd (bk_mailbox_init (chnl_boot MAILBOX_CPU0 MAILBOX_CPU1))"
  have "mb_ok ?s" by (rule bk_mailbox_init_ok) (simp_all add: chnl_boot_def zero_info_def)
  then have "s_mailbox_is_init ?s" by (simp add: mb_ok_def)
  moreover have "mb_chnnl_init_ok ?s = 0" by (simp add: chnl_boot_def)
  ultimately show ?thesis using chnl_open_after_driver_init [of ?s "0x100" 2 NULL] by simp
qed

end
