(* ===== verification/Uart_Hw.thy ===== *)
theory Uart_Hw
  imports Bitfield
begin

text \<open>
  The UART block of the bk7235: its registers (\<^verbatim>\<open>soc/bk7235/soc/uart_struct.h\<close>), the low-level accessors of
  \<^verbatim>\<open>soc/bk7235/hal/uart_ll.h\<close> and the hardware layer \<^verbatim>\<open>soc/common/hal/uart_hal.c\<close>.

  Three of the registers change on their own: the status of the two hardware FIFOs, the port through which their bytes
  pass, and the interrupt status. Of each of these the model has the values its successive reads give, as a function of the
  number of reads so far, and the list of the values written to it. The hardware is therefore arbitrary: nothing
  is assumed about when bytes arrive or when there is room to send.
\<close>

section \<open>Registers\<close>

record uart_hw_t =
  u_config :: u32
  fifo_config :: u32
  fifo_status :: "nat \<Rightarrow> u32"
  fifo_status_reads :: nat
  fifo_port :: "nat \<Rightarrow> u32"
  fifo_port_reads :: nat
  fifo_port_writes :: "u32 list"
  int_enable :: u32
  int_status :: "nat \<Rightarrow> u32"
  int_status_reads :: nat
  int_status_writes :: "u32 list"
  flow_ctrl_config :: u32
  wake_config :: u32

abbreviation (input) UART_ID_0 :: u32 where "UART_ID_0 \<equiv> 0"
abbreviation (input) UART_ID_1 :: u32 where "UART_ID_1 \<equiv> 1"
abbreviation (input) UART_ID_2 :: u32 where "UART_ID_2 \<equiv> 2"
abbreviation (input) UART_ID_MAX :: u32 where "UART_ID_MAX \<equiv> 3"

abbreviation (input) UART_CLOCK_FREQ_120M :: u32 where "UART_CLOCK_FREQ_120M \<equiv> 120000000"
abbreviation (input) UART_CLOCK :: u32 where "UART_CLOCK \<equiv> 26000000"

abbreviation (input) CONFIG_KFIFO_SIZE :: u32 where "CONFIG_KFIFO_SIZE \<equiv> 128"

datatype uart_src_clk_t = UART_SCLK_DCO | UART_SCLK_XTAL_26M | UART_SCLK_APLL

datatype uart_parity_t = UART_PARITY_NONE | UART_PARITY_ODD | UART_PARITY_EVEN

datatype uart_flow_control_t = UART_FLOWCTRL_DISABLE | UART_FLOWCTRL_CTS_RTS

text \<open>The data bits, stop bits and detection times are enumerations from zero, passed on to the registers as numbers.\<close>

abbreviation (input) UART_DATA_8_BITS :: u32 where "UART_DATA_8_BITS \<equiv> 3"
abbreviation (input) UART_STOP_BITS_1 :: u32 where "UART_STOP_BITS_1 \<equiv> 0"
abbreviation (input) UART_RX_STOP_DETECT_TIME_32_BITS :: u32 where "UART_RX_STOP_DETECT_TIME_32_BITS \<equiv> 0"

record uart_config_t =
  baud_rate :: u32
  data_bits :: u32
  parity :: uart_parity_t
  stop_bits :: u32
  flow_ctrl :: uart_flow_control_t
  src_clk :: uart_src_clk_t

section \<open>Low-level accessors\<close>

abbreviation (input) GPIO_NUM :: u32 where "GPIO_NUM \<equiv> 48"

definition uart_ll_get_tx_pin :: "u32 \<Rightarrow> u32" where
  "uart_ll_get_tx_pin i = (if i = UART_ID_0 then 11 else if i = UART_ID_1 then 0 else GPIO_NUM)"

definition uart_ll_get_rx_pin :: "u32 \<Rightarrow> u32" where
  "uart_ll_get_rx_pin i = (if i = UART_ID_0 then 10 else if i = UART_ID_1 then 1 else GPIO_NUM)"

definition uart_ll_get_cts_pin :: "u32 \<Rightarrow> u32" where
  "uart_ll_get_cts_pin i = (if i = UART_ID_0 then 12 else GPIO_NUM)"

definition uart_ll_get_rts_pin :: "u32 \<Rightarrow> u32" where
  "uart_ll_get_rts_pin i = (if i = UART_ID_0 then 13 else GPIO_NUM)"

abbreviation (input) BK_ERR_UART_BASE :: bk_err_t where "BK_ERR_UART_BASE \<equiv> - 0x2400"

definition uart_ll_reg_base_select :: "u32 \<Rightarrow> addr" where
  "uart_ll_reg_base_select i =
     (if i = UART_ID_0 then 0x44820000 else if i = UART_ID_1 then 0x45830000 else word_of_int BK_ERR_UART_BASE)"

definition uart_ll_to_reg_parity :: "uart_parity_t \<Rightarrow> u32" where
  "uart_ll_to_reg_parity p = (case p of UART_PARITY_ODD \<Rightarrow> 0 | UART_PARITY_EVEN \<Rightarrow> 1 | UART_PARITY_NONE \<Rightarrow> 0)"

definition uart_ll_set_tx_enable :: "u32 \<Rightarrow> uart_hw_t \<Rightarrow> uart_hw_t" where
  "uart_ll_set_tx_enable v hw = hw\<lparr>u_config := set_field 0 1 (v AND 1) (u_config hw)\<rparr>"

definition uart_ll_enable_tx :: "uart_hw_t \<Rightarrow> uart_hw_t" where
  "uart_ll_enable_tx hw = uart_ll_set_tx_enable 1 hw"

definition uart_ll_disable_tx :: "uart_hw_t \<Rightarrow> uart_hw_t" where
  "uart_ll_disable_tx hw = uart_ll_set_tx_enable 0 hw"

definition uart_ll_set_rx_enable :: "u32 \<Rightarrow> uart_hw_t \<Rightarrow> uart_hw_t" where
  "uart_ll_set_rx_enable v hw = hw\<lparr>u_config := set_field 1 1 (v AND 1) (u_config hw)\<rparr>"

definition uart_ll_enable_rx :: "uart_hw_t \<Rightarrow> uart_hw_t" where
  "uart_ll_enable_rx hw = uart_ll_set_rx_enable 1 hw"

definition uart_ll_set_frame_mode :: "u32 \<Rightarrow> uart_hw_t \<Rightarrow> uart_hw_t" where
  "uart_ll_set_frame_mode mode hw = hw\<lparr>u_config := set_field 2 1 mode (u_config hw)\<rparr>"

definition uart_ll_set_mode_uart :: "uart_hw_t \<Rightarrow> uart_hw_t" where
  "uart_ll_set_mode_uart hw = hw\<lparr>u_config := set_field 2 1 0 (u_config hw)\<rparr>"

definition uart_ll_set_mode_irda :: "uart_hw_t \<Rightarrow> uart_hw_t" where
  "uart_ll_set_mode_irda hw = hw\<lparr>u_config := set_field 2 1 1 (u_config hw)\<rparr>"

definition uart_ll_disable_rx :: "uart_hw_t \<Rightarrow> uart_hw_t" where
  "uart_ll_disable_rx hw = uart_ll_set_rx_enable 0 hw"

definition uart_ll_set_data_bits :: "u32 \<Rightarrow> uart_hw_t \<Rightarrow> uart_hw_t" where
  "uart_ll_set_data_bits v hw = hw\<lparr>u_config := set_field 3 2 (v AND 3) (u_config hw)\<rparr>"

definition uart_ll_enable_parity :: "uart_hw_t \<Rightarrow> uart_hw_t" where
  "uart_ll_enable_parity hw = hw\<lparr>u_config := set_field 5 1 1 (u_config hw)\<rparr>"

definition uart_ll_disable_parity :: "uart_hw_t \<Rightarrow> uart_hw_t" where
  "uart_ll_disable_parity hw = hw\<lparr>u_config := set_field 5 1 0 (u_config hw)\<rparr>"

definition uart_ll_set_parity :: "uart_parity_t \<Rightarrow> uart_hw_t \<Rightarrow> uart_hw_t" where
  "uart_ll_set_parity p hw = hw\<lparr>u_config := set_field 6 1 (uart_ll_to_reg_parity p) (u_config hw)\<rparr>"

definition uart_ll_set_stop_bits :: "u32 \<Rightarrow> uart_hw_t \<Rightarrow> uart_hw_t" where
  "uart_ll_set_stop_bits v hw = hw\<lparr>u_config := set_field 7 1 v (u_config hw)\<rparr>"

definition uart_ll_set_clk_div :: "u32 \<Rightarrow> uart_hw_t \<Rightarrow> uart_hw_t" where
  "uart_ll_set_clk_div v hw = hw\<lparr>u_config := set_field 8 13 (v AND 0x1fff) (u_config hw)\<rparr>"

definition uart_ll_set_tx_fifo_threshold :: "u32 \<Rightarrow> uart_hw_t \<Rightarrow> uart_hw_t" where
  "uart_ll_set_tx_fifo_threshold v hw = hw\<lparr>fifo_config := set_field 0 8 (v AND 0xff) (fifo_config hw)\<rparr>"

definition uart_ll_set_rx_fifo_threshold :: "u32 \<Rightarrow> uart_hw_t \<Rightarrow> uart_hw_t" where
  "uart_ll_set_rx_fifo_threshold v hw = hw\<lparr>fifo_config := set_field 8 8 (v AND 0xff) (fifo_config hw)\<rparr>"

definition uart_ll_set_rx_stop_detect_time :: "u32 \<Rightarrow> uart_hw_t \<Rightarrow> uart_hw_t" where
  "uart_ll_set_rx_stop_detect_time v hw = hw\<lparr>fifo_config := set_field 16 2 (v AND 3) (fifo_config hw)\<rparr>"

definition uart_ll_reset_config_to_default :: "uart_hw_t \<Rightarrow> uart_hw_t" where
  "uart_ll_reset_config_to_default hw = hw\<lparr>u_config := 0, fifo_config := 0\<rparr>"

text \<open>Reads of the registers that the hardware changes.\<close>

definition read_fifo_status :: "uart_hw_t \<Rightarrow> u32 \<times> uart_hw_t" where
  "read_fifo_status hw = (fifo_status hw (fifo_status_reads hw), hw\<lparr>fifo_status_reads := fifo_status_reads hw + 1\<rparr>)"

definition read_fifo_port :: "uart_hw_t \<Rightarrow> u32 \<times> uart_hw_t" where
  "read_fifo_port hw = (fifo_port hw (fifo_port_reads hw), hw\<lparr>fifo_port_reads := fifo_port_reads hw + 1\<rparr>)"

definition read_int_status :: "uart_hw_t \<Rightarrow> u32 \<times> uart_hw_t" where
  "read_int_status hw = (int_status hw (int_status_reads hw), hw\<lparr>int_status_reads := int_status_reads hw + 1\<rparr>)"

definition uart_ll_get_tx_fifo_cnt :: "uart_hw_t \<Rightarrow> u32 \<times> uart_hw_t" where
  "uart_ll_get_tx_fifo_cnt hw = (let (v, hw) = read_fifo_status hw in (get_field 0 8 v, hw))"

definition uart_ll_get_rx_fifo_cnt :: "uart_hw_t \<Rightarrow> u32 \<times> uart_hw_t" where
  "uart_ll_get_rx_fifo_cnt hw = (let (v, hw) = read_fifo_status hw in (get_field 8 8 v, hw))"

definition uart_ll_is_tx_fifo_full :: "uart_hw_t \<Rightarrow> bool \<times> uart_hw_t" where
  "uart_ll_is_tx_fifo_full hw = (let (v, hw) = read_fifo_status hw in (get_field 16 1 v \<noteq> 0, hw))"

definition uart_ll_is_tx_fifo_empty :: "uart_hw_t \<Rightarrow> bool \<times> uart_hw_t" where
  "uart_ll_is_tx_fifo_empty hw = (let (v, hw) = read_fifo_status hw in (get_field 17 1 v \<noteq> 0, hw))"

definition uart_ll_is_rx_fifo_full :: "uart_hw_t \<Rightarrow> bool \<times> uart_hw_t" where
  "uart_ll_is_rx_fifo_full hw = (let (v, hw) = read_fifo_status hw in (get_field 18 1 v \<noteq> 0, hw))"

definition uart_ll_is_rx_fifo_empty :: "uart_hw_t \<Rightarrow> bool \<times> uart_hw_t" where
  "uart_ll_is_rx_fifo_empty hw = (let (v, hw) = read_fifo_status hw in (get_field 19 1 v \<noteq> 0, hw))"

definition uart_ll_is_fifo_write_ready :: "uart_hw_t \<Rightarrow> bool \<times> uart_hw_t" where
  "uart_ll_is_fifo_write_ready hw = (let (v, hw) = read_fifo_status hw in (get_field 20 1 v \<noteq> 0, hw))"

definition uart_ll_is_fifo_read_ready :: "uart_hw_t \<Rightarrow> bool \<times> uart_hw_t" where
  "uart_ll_is_fifo_read_ready hw = (let (v, hw) = read_fifo_status hw in (get_field 21 1 v \<noteq> 0, hw))"

definition uart_ll_reset_fifo_port_to_default :: "uart_hw_t \<Rightarrow> uart_hw_t" where
  "uart_ll_reset_fifo_port_to_default hw = hw\<lparr>fifo_port_writes := fifo_port_writes hw @ [0xffff]\<rparr>"

definition uart_ll_write_byte :: "u8 \<Rightarrow> uart_hw_t \<Rightarrow> uart_hw_t" where
  "uart_ll_write_byte c hw = hw\<lparr>fifo_port_writes := fifo_port_writes hw @ [ucast c AND 0xff]\<rparr>"

definition uart_ll_read_byte :: "uart_hw_t \<Rightarrow> u8 \<times> uart_hw_t" where
  "uart_ll_read_byte hw = (let (v, hw) = read_fifo_port hw in (ucast (get_field 8 8 v), hw))"

definition uart_ll_reset_int_en_to_default :: "uart_hw_t \<Rightarrow> uart_hw_t" where
  "uart_ll_reset_int_en_to_default hw = hw\<lparr>int_enable := 0\<rparr>"

definition uart_ll_enable_rx_interrupt :: "uart_hw_t \<Rightarrow> uart_hw_t" where
  "uart_ll_enable_rx_interrupt hw =
     (let hw = hw\<lparr>int_enable := set_field 1 1 1 (int_enable hw)\<rparr> in hw\<lparr>int_enable := set_field 6 1 1 (int_enable hw)\<rparr>)"

definition uart_ll_disable_rx_interrupt :: "uart_hw_t \<Rightarrow> uart_hw_t" where
  "uart_ll_disable_rx_interrupt hw =
     (let hw = hw\<lparr>int_enable := set_field 1 1 0 (int_enable hw)\<rparr> in hw\<lparr>int_enable := set_field 6 1 0 (int_enable hw)\<rparr>)"

definition uart_ll_enable_tx_interrupt :: "uart_hw_t \<Rightarrow> uart_hw_t" where
  "uart_ll_enable_tx_interrupt hw = hw\<lparr>int_enable := set_field 0 1 1 (int_enable hw)\<rparr>"

definition uart_ll_disable_tx_interrupt :: "uart_hw_t \<Rightarrow> uart_hw_t" where
  "uart_ll_disable_tx_interrupt hw = hw\<lparr>int_enable := set_field 0 1 0 (int_enable hw)\<rparr>"

definition uart_ll_get_int_enable_status :: "uart_hw_t \<Rightarrow> u32" where
  "uart_ll_get_int_enable_status hw = int_enable hw AND 0xff"

definition uart_ll_get_interrupt_status :: "uart_hw_t \<Rightarrow> u32 \<times> uart_hw_t" where
  "uart_ll_get_interrupt_status hw = (let (v, hw) = read_int_status hw in (v AND 0xff, hw))"

definition write_int_status :: "u32 \<Rightarrow> uart_hw_t \<Rightarrow> uart_hw_t" where
  "write_int_status v hw = hw\<lparr>int_status_writes := int_status_writes hw @ [v]\<rparr>"

definition uart_ll_clear_interrupt_status :: "u32 \<Rightarrow> uart_hw_t \<Rightarrow> uart_hw_t" where
  "uart_ll_clear_interrupt_status status hw = write_int_status (status AND 0xff) hw"

definition uart_ll_clear_id_interrupt_status :: "uart_hw_t \<Rightarrow> uart_hw_t" where
  "uart_ll_clear_id_interrupt_status hw = write_int_status 0xff hw"

text \<open>An assignment to a bit field reads the register, changes the field and writes the register back.\<close>

definition uart_ll_clear_id_tx_interrupt_status :: "uart_hw_t \<Rightarrow> uart_hw_t" where
  "uart_ll_clear_id_tx_interrupt_status hw =
     (let (v, hw) = read_int_status hw; hw = write_int_status (set_field 0 1 1 v) hw;
          (v, hw) = read_int_status hw
      in write_int_status (set_field 5 1 1 v) hw)"

definition uart_ll_clear_id_rx_interrupt_status :: "uart_hw_t \<Rightarrow> uart_hw_t" where
  "uart_ll_clear_id_rx_interrupt_status hw =
     (let (v, hw) = read_int_status hw; hw = write_int_status (set_field 1 1 1 v) hw;
          (v, hw) = read_int_status hw
      in write_int_status (set_field 6 1 1 v) hw)"

definition uart_ll_is_rx_interrupt_triggered :: "u32 \<Rightarrow> bool" where
  "uart_ll_is_rx_interrupt_triggered status \<longleftrightarrow> status AND (2 ^ 1 OR 2 ^ 6) \<noteq> 0"

definition uart_ll_is_rx_recv_fini_int_triggered :: "u32 \<Rightarrow> bool" where
  "uart_ll_is_rx_recv_fini_int_triggered status \<longleftrightarrow> status AND 2 ^ 6 \<noteq> 0"

definition uart_ll_is_tx_interrupt_triggered :: "u32 \<Rightarrow> bool" where
  "uart_ll_is_tx_interrupt_triggered status \<longleftrightarrow> status AND 2 ^ 0 \<noteq> 0"

definition uart_ll_is_rx_parity_err_int_triggered :: "u32 \<Rightarrow> bool" where
  "uart_ll_is_rx_parity_err_int_triggered status \<longleftrightarrow> status AND 2 ^ 3 \<noteq> 0"

definition uart_ll_reset_flow_control_to_default :: "uart_hw_t \<Rightarrow> uart_hw_t" where
  "uart_ll_reset_flow_control_to_default hw = hw\<lparr>flow_ctrl_config := 0\<rparr>"

definition uart_ll_enable_flow_control :: "uart_hw_t \<Rightarrow> uart_hw_t" where
  "uart_ll_enable_flow_control hw = hw\<lparr>flow_ctrl_config := set_field 16 1 1 (flow_ctrl_config hw)\<rparr>"

definition uart_ll_disable_flow_control :: "uart_hw_t \<Rightarrow> uart_hw_t" where
  "uart_ll_disable_flow_control hw = hw\<lparr>flow_ctrl_config := set_field 16 1 0 (flow_ctrl_config hw)\<rparr>"

definition uart_ll_is_flow_control_enabled :: "uart_hw_t \<Rightarrow> bool" where
  "uart_ll_is_flow_control_enabled hw \<longleftrightarrow> get_field 16 1 (flow_ctrl_config hw) \<noteq> 0"

definition uart_ll_set_flow_control_low_cnt :: "u32 \<Rightarrow> uart_hw_t \<Rightarrow> uart_hw_t" where
  "uart_ll_set_flow_control_low_cnt cnt hw = hw\<lparr>flow_ctrl_config := set_field 0 8 (cnt AND 0xff) (flow_ctrl_config hw)\<rparr>"

definition uart_ll_set_flow_control_high_cnt :: "u32 \<Rightarrow> uart_hw_t \<Rightarrow> uart_hw_t" where
  "uart_ll_set_flow_control_high_cnt cnt hw = hw\<lparr>flow_ctrl_config := set_field 8 8 (cnt AND 0xff) (flow_ctrl_config hw)\<rparr>"

definition uart_ll_set_rts_polarity :: "u32 \<Rightarrow> uart_hw_t \<Rightarrow> uart_hw_t" where
  "uart_ll_set_rts_polarity v hw = hw\<lparr>flow_ctrl_config := set_field 17 1 (v AND 1) (flow_ctrl_config hw)\<rparr>"

definition uart_ll_set_cts_polarity :: "u32 \<Rightarrow> uart_hw_t \<Rightarrow> uart_hw_t" where
  "uart_ll_set_cts_polarity v hw = hw\<lparr>flow_ctrl_config := set_field 18 1 (v AND 1) (flow_ctrl_config hw)\<rparr>"

definition uart_ll_reset_wake_config_to_default :: "uart_hw_t \<Rightarrow> uart_hw_t" where
  "uart_ll_reset_wake_config_to_default hw = hw\<lparr>wake_config := 0\<rparr>"

text \<open>
  Waiting until both transmitters are empty. The estimate of the time is computed in C's \<^verbatim>\<open>int\<close>, the bit field of eight
  bits being promoted to it, before the division by an unsigned rate; a product beyond the range of
  \<^verbatim>\<open>int\<close> has no value. The two loops poll the status until it says that the FIFO is empty.
\<close>

definition tx_time_product :: "u32 \<Rightarrow> u32 option" where
  "tx_time_product cnt =
     (let p = 1000000 * (uint cnt :: int) * 10 in if p < 2 ^ 31 then Some (word_of_int p) else None)"

partial_function (option) poll_until :: "(uart_hw_t \<Rightarrow> bool \<times> uart_hw_t) \<Rightarrow> uart_hw_t \<Rightarrow> uart_hw_t option" where
  "poll_until ready hw = (let (b, hw) = ready hw in if b then Some hw else poll_until ready hw)"

definition uart_ll_wait_tx_over :: "uart_hw_t \<Rightarrow> uart_hw_t \<Rightarrow> (u32 \<times> uart_hw_t \<times> uart_hw_t) option" where
  "uart_ll_wait_tx_over hw1 hw2 = do {
     let baudrate1 = UART_CLOCK div (get_field 8 13 (u_config hw1) + 1);
     let baudrate2 = UART_CLOCK div (get_field 8 13 (u_config hw2) + 1);
     let (c2, hw2) = uart_ll_get_tx_fifo_cnt hw2;
     let (c1, hw1) = uart_ll_get_tx_fifo_cnt hw1;
     p2 \<leftarrow> tx_time_product c2;
     p1 \<leftarrow> tx_time_product c1;
     hw2 \<leftarrow> poll_until uart_ll_is_tx_fifo_empty hw2;
     hw1 \<leftarrow> poll_until uart_ll_is_tx_fifo_empty hw1;
     Some (p2 div baudrate2 + p1 div baudrate1, hw1, hw2)
   }"

section \<open>Hardware layer\<close>

definition uart_hal_set_parity :: "uart_parity_t \<Rightarrow> uart_hw_t \<Rightarrow> uart_hw_t" where
  "uart_hal_set_parity p hw =
     uart_ll_set_parity p (if p = UART_PARITY_NONE then uart_ll_disable_parity hw else uart_ll_enable_parity hw)"

definition uart_hal_set_baud_rate :: "uart_src_clk_t \<Rightarrow> u32 \<Rightarrow> uart_hw_t \<Rightarrow> uart_hw_t" where
  "uart_hal_set_baud_rate sclk rate hw =
     (let clk_div = (if sclk = UART_SCLK_DCO then UART_CLOCK_FREQ_120M div rate - 1 else UART_CLOCK div rate - 1)
      in uart_ll_set_clk_div clk_div hw)"

definition uart_hal_set_hw_flow_ctrl :: "u8 \<Rightarrow> uart_hw_t \<Rightarrow> uart_hw_t" where
  "uart_hal_set_hw_flow_ctrl rx_threshold hw =
     (let hw = uart_ll_set_flow_control_low_cnt 0 hw;
          hw = uart_ll_set_flow_control_high_cnt (ucast rx_threshold) hw;
          hw = uart_ll_set_rts_polarity 1 hw
      in uart_ll_set_cts_polarity 1 hw)"

definition uart_hal_disable_hw_flow_ctrl :: "uart_hw_t \<Rightarrow> uart_hw_t" where
  "uart_hal_disable_hw_flow_ctrl hw = uart_ll_reset_flow_control_to_default (uart_ll_disable_flow_control hw)"

definition uart_hal_init_uart :: "uart_config_t \<Rightarrow> uart_hw_t \<Rightarrow> uart_hw_t" where
  "uart_hal_init_uart c hw =
     (let hw = uart_ll_reset_int_en_to_default hw;
          hw = uart_ll_reset_fifo_port_to_default hw;
          hw = uart_ll_set_mode_uart hw;
          hw = uart_ll_set_data_bits (data_bits c) hw;
          hw = uart_ll_set_stop_bits (stop_bits c) hw;
          hw = uart_hal_set_parity (parity c) hw;
          hw = uart_hal_set_baud_rate (src_clk c) (baud_rate c) hw;
          hw = uart_ll_set_tx_fifo_threshold 0x20 hw;
          hw = uart_ll_set_rx_fifo_threshold 0x40 hw;
          hw = uart_ll_set_rx_stop_detect_time UART_RX_STOP_DETECT_TIME_32_BITS hw;
          hw = uart_ll_reset_flow_control_to_default hw;
          hw = (if flow_ctrl c \<noteq> UART_FLOWCTRL_DISABLE
                then uart_ll_enable_flow_control (uart_hal_set_hw_flow_ctrl (ucast (CONFIG_KFIFO_SIZE AND 0xff)) hw)
                else hw)
      in uart_ll_reset_wake_config_to_default hw)"

definition uart_hal_start_common :: "uart_hw_t \<Rightarrow> uart_hw_t" where
  "uart_hal_start_common hw = uart_ll_enable_rx (uart_ll_enable_tx hw)"

definition uart_hal_stop_common :: "uart_hw_t \<Rightarrow> uart_hw_t" where
  "uart_hal_stop_common hw =
     (let hw = uart_ll_reset_int_en_to_default hw;
          hw = uart_ll_clear_id_interrupt_status hw;
          hw = uart_ll_disable_tx hw
      in uart_ll_disable_rx hw)"

definition uart_hal_flush_fifo :: "uart_hw_t \<Rightarrow> uart_hw_t" where
  "uart_hal_flush_fifo hw =
     (let hw = uart_ll_disable_tx hw;
          hw = uart_ll_disable_rx hw;
          hw = uart_ll_enable_tx hw
      in uart_ll_enable_rx hw)"

end
