(* ===== verification/Kfifo.thy ===== *)
theory Kfifo
  imports Prelude
begin

text \<open>
  The byte queue of \<^verbatim>\<open>components/bk_common/include/bk_fifo.h\<close>: a ring buffer with two free-running
  32-bit counters. The queue is shown to implement a list of bytes through every wrap-around of the
  counters and of the buffer, provided its size is a power of two, which the code does not enforce.
\<close>

section \<open>The code\<close>

record kfifo =
  f_in :: u32
  f_out :: u32
  f_mask :: u32
  f_size :: u32
  f_buffer :: "u8 list"

text \<open>Copies within a buffer; \<^const>\<open>None\<close> when a copy would leave it.\<close>

definition copy_from :: "u8 list \<Rightarrow> nat \<Rightarrow> nat \<Rightarrow> u8 list option" where
  "copy_from b off n = (if off + n \<le> length b then Some (take n (drop off b)) else None)"

definition copy_to :: "u8 list \<Rightarrow> nat \<Rightarrow> u8 list \<Rightarrow> u8 list option" where
  "copy_to b off xs =
     (if off + length xs \<le> length b then Some (take off b @ xs @ drop (off + length xs) b) else None)"

text \<open>
  Allocation counts blocks as everywhere in this development; \<^verbatim>\<open>os_malloc\<close> may fail like \<^verbatim>\<open>os_zalloc\<close>, and the
  buffer is cleared explicitly.
\<close>

definition kfifo_init :: "u8 list \<Rightarrow> u32 \<Rightarrow> heap \<Rightarrow> kfifo option \<times> heap" where
  "kfifo_init buffer sz h =
     (case os_zalloc h of
        (False, h) \<Rightarrow> (None, h)
      | (True, h) \<Rightarrow> (Some \<lparr>f_in = 0, f_out = 0, f_mask = sz - 1, f_size = sz, f_buffer = buffer\<rparr>, h))"

definition kfifo_alloc :: "u32 \<Rightarrow> heap \<Rightarrow> kfifo option \<times> heap" where
  "kfifo_alloc sz h =
     (case os_zalloc h of
        (False, h) \<Rightarrow> (None, h)
      | (True, h) \<Rightarrow>
          (case kfifo_init (replicate (unat sz) 0) sz h of
             (None, h) \<Rightarrow> (None, os_free h)
           | (Some fifo, h) \<Rightarrow> (Some fifo, h)))"

definition kfifo_free :: "kfifo \<Rightarrow> heap \<Rightarrow> heap" where
  "kfifo_free fifo h = os_free (os_free h)"

definition kfifo_put :: "kfifo \<Rightarrow> u8 list \<Rightarrow> u32 \<Rightarrow> (u32 \<times> kfifo) option" where
  "kfifo_put fifo buffer len =
     (let len = min len (f_size fifo - f_in fifo + f_out fifo);
          at = f_in fifo AND (f_size fifo - 1);
          l = min len (f_size fifo - at)
      in do {
        x \<leftarrow> copy_from buffer 0 (unat l);
        b \<leftarrow> copy_to (f_buffer fifo) (unat at) x;
        y \<leftarrow> copy_from buffer (unat l) (unat (len - l));
        b \<leftarrow> copy_to b 0 y;
        Some (len, fifo\<lparr>f_buffer := b, f_in := f_in fifo + len\<rparr>)
      })"

definition kfifo_get :: "kfifo \<Rightarrow> u32 \<Rightarrow> (u32 \<times> u8 list \<times> kfifo) option" where
  "kfifo_get fifo len =
     (let len = min len (f_in fifo - f_out fifo);
          at = f_out fifo AND (f_size fifo - 1);
          l = min len (f_size fifo - at)
      in do {
        x \<leftarrow> copy_from (f_buffer fifo) (unat at) (unat l);
        y \<leftarrow> copy_from (f_buffer fifo) 0 (unat (len - l));
        let fifo = fifo\<lparr>f_out := f_out fifo + len\<rparr>;
            fifo = (if f_out fifo = f_in fifo then fifo\<lparr>f_in := 0, f_out := 0\<rparr> else fifo)
        in Some (len, x @ y, fifo)
      })"

definition kfifo_data_size :: "kfifo \<Rightarrow> u32" where
  "kfifo_data_size fifo = f_in fifo - f_out fifo"

definition kfifo_unused :: "kfifo \<Rightarrow> u32" where
  "kfifo_unused fifo = (f_mask fifo + 1) - (f_in fifo - f_out fifo)"

definition kfifo_copy_out :: "kfifo \<Rightarrow> u32 \<Rightarrow> u32 \<Rightarrow> u8 list option" where
  "kfifo_copy_out fifo len off =
     (let sz = f_mask fifo + 1;
          off = off AND f_mask fifo;
          l = min len (sz - off)
      in do {
        x \<leftarrow> copy_from (f_buffer fifo) (unat off) (unat l);
        y \<leftarrow> copy_from (f_buffer fifo) 0 (unat (len - l));
        Some (x @ y)
      })"

definition kfifo_out_peek :: "kfifo \<Rightarrow> u32 \<Rightarrow> (u32 \<times> u8 list) option" where
  "kfifo_out_peek fifo len =
     (let l = f_in fifo - f_out fifo;
          len = (if l < len then l else len)
      in map_option (Pair len) (kfifo_copy_out fifo len (f_out fifo)))"

section \<open>Rings\<close>

text \<open>Reading and writing across the end of a ring, and their effect on its positions.\<close>

definition ring_read :: "u8 list \<Rightarrow> nat \<Rightarrow> nat \<Rightarrow> u8 list" where
  "ring_read b p n = map (\<lambda>t. b ! ((p + t) mod length b)) [0..<n]"

definition ring_write :: "u8 list \<Rightarrow> nat \<Rightarrow> u8 list \<Rightarrow> u8 list" where
  "ring_write b p xs =
     map (\<lambda>j. let t = (j + length b - p) mod length b in if t < length xs then xs ! t else b ! j) [0..<length b]"

lemma length_ring [simp]: "length (ring_read b p n) = n" "length (ring_write b p xs) = length b"
  by (simp_all add: ring_read_def ring_write_def)

lemma ring_read_nth: "t < n \<Longrightarrow> ring_read b p n ! t = b ! ((p + t) mod length b)"
  by (simp add: ring_read_def)

lemma ring_write_nth:
  "j < length b \<Longrightarrow> ring_write b p xs ! j =
     (if (j + length b - p) mod length b < length xs then xs ! ((j + length b - p) mod length b) else b ! j)"
  by (simp add: ring_write_def Let_def)

lemma ring_distance:
  fixes p j N :: nat
  assumes "p < N" "j < N"
  shows "(j + N - p) mod N = (if p \<le> j then j - p else j + N - p)"
proof (cases "p \<le> j")
  case True
  then have "j + N - p = (j - p) + N" by simp
  then have "(j + N - p) mod N = (j - p) mod N" by (simp only: mod_add_self2)
  with True assms show ?thesis by (simp only: if_True) simp
qed (use assms in simp)

lemma ring_offset:
  fixes p t N :: nat
  assumes "p < N" "t < N"
  shows "((p + t) mod N + N - p) mod N = t"
proof (cases "p + t < N")
  case False
  then have "(p + t) mod N = p + t - N" using assms by (simp add: mod_if)
  then show ?thesis using assms False by simp
qed (use assms in simp)

lemma ring_read_write:
  assumes "p < length b" "n + length xs \<le> length b" "q = (p + n) mod length b"
  shows "ring_read (ring_write b q xs) p (n + length xs) = ring_read b p n @ xs"
proof (rule nth_equalityI)
  let ?N = "length b"
  have N: "0 < ?N" using assms(1) by linarith
  fix i
  assume "i < length (ring_read (ring_write b q xs) p (n + length xs))"
  then have i: "i < n + length xs" "i < ?N" using assms(2) by simp_all
  define j where "j = (p + i) mod ?N"
  have j: "j < ?N" using N by (simp add: j_def)
  have "ring_read (ring_write b q xs) p (n + length xs) ! i =
      (if (j + ?N - q) mod ?N < length xs then xs ! ((j + ?N - q) mod ?N) else b ! j)"
    using i j by (simp add: ring_read_nth ring_write_nth j_def [symmetric])
  also have "\<dots> = (ring_read b p n @ xs) ! i"
  proof (cases "i < n")
    case True
    have "q < ?N" using N assms(3) by simp
    moreover have "j = (q + (i + ?N - n)) mod ?N"
    proof -
      have "(q + (i + ?N - n)) mod ?N = (p + n + (i + ?N - n)) mod ?N" using assms(3) by (simp add: mod_add_left_eq)
      also have "p + n + (i + ?N - n) = p + i + ?N" using assms(2) by linarith
      finally show ?thesis by (simp add: j_def)
    qed
    ultimately have "(j + ?N - q) mod ?N = i + ?N - n"
      using ring_offset [of q ?N "i + ?N - n"] True assms(2) by simp
    moreover have "\<not> i + ?N - n < length xs" using assms(2) by linarith
    ultimately show ?thesis using True by (simp add: ring_read_nth nth_append) (simp add: j_def)
  next
    case False
    have "q < ?N" using N assms(3) by simp
    moreover have "j = (q + (i - n)) mod ?N"
    proof -
      have "(q + (i - n)) mod ?N = (p + n + (i - n)) mod ?N" using assms(3) by (simp only: mod_add_left_eq)
      also have "p + n + (i - n) = p + i" using False by linarith
      finally show ?thesis by (simp add: j_def)
    qed
    ultimately have "(j + ?N - q) mod ?N = i - n" using ring_offset [of q ?N "i - n"] i by simp
    moreover have "i - n < length xs" using False i by linarith
    ultimately show ?thesis using False by (simp add: nth_append)
  qed
  finally show "ring_read (ring_write b q xs) p (n + length xs) ! i = (ring_read b p n @ xs) ! i" .
qed simp

lemma ring_read_drop:
  assumes "0 < length b" "k \<le> n"
  shows "ring_read b ((p + k) mod length b) (n - k) = drop k (ring_read b p n)"
proof (rule nth_equalityI)
  fix i
  assume "i < length (ring_read b ((p + k) mod length b) (n - k))"
  then show "ring_read b ((p + k) mod length b) (n - k) ! i = drop k (ring_read b p n) ! i"
    using assms by (simp add: ring_read_nth less_diff_conv mod_simps ac_simps)
qed (use assms in simp)

lemma ring_read_take: "k \<le> n \<Longrightarrow> take k (ring_read b p n) = ring_read b p k"
  by (simp add: ring_read_def take_map)

lemma copies_read:
  assumes "p < length b" "n \<le> length b" "l = min n (length b - p)"
  shows "copy_from b p l = Some (ring_read b p l)"
    and "copy_from b 0 (n - l) = Some (drop l (ring_read b p n))"
proof -
  have "take l (drop p b) = ring_read b p l"
    by (rule nth_equalityI) (use assms in \<open>auto simp: ring_read_nth\<close>)
  then show "copy_from b p l = Some (ring_read b p l)" using assms by (auto simp: copy_from_def)
  have "take (n - l) b = drop l (ring_read b p n)"
  proof (rule nth_equalityI)
    fix i
    assume "i < length (take (n - l) b)"
    then have "i < n - l" by simp
    moreover from this have "l = length b - p" using assms by linarith
    ultimately show "take (n - l) b ! i = drop l (ring_read b p n) ! i"
      using assms by (simp add: ring_read_nth)
  qed (use assms in auto)
  then show "copy_from b 0 (n - l) = Some (drop l (ring_read b p n))" using assms by (auto simp: copy_from_def)
qed

lemma copies_write:
  assumes "p < length b" "length xs \<le> length b" "l = min (length xs) (length b - p)"
  shows "\<exists>c. copy_to b p (take l xs) = Some c \<and> copy_to c 0 (drop l xs) = Some (ring_write b p xs)"
proof -
  let ?N = "length b"
  define c where "c = take p b @ take l xs @ drop (p + l) b"
  have l: "l \<le> length xs" "p + l \<le> ?N" "length xs - l \<le> p" using assms by auto
  have len: "length c = ?N" using l by (simp add: c_def)
  have c: "copy_to b p (take l xs) = Some c" using l by (simp add: copy_to_def c_def)
  have nth: "c ! j = (if p \<le> j \<and> j < p + l then xs ! (j - p) else b ! j)" if "j < ?N" for j
    using l that by (auto simp: c_def nth_append)
  have "drop l xs @ drop (length xs - l) c = ring_write b p xs"
  proof (rule nth_equalityI)
    fix j
    assume "j < length (drop l xs @ drop (length xs - l) c)"
    then have j: "j < ?N" using l len by simp
    have t: "(j + ?N - p) mod ?N = (if p \<le> j then j - p else j + ?N - p)"
      by (rule ring_distance [OF assms(1) j])
    show "(drop l xs @ drop (length xs - l) c) ! j = ring_write b p xs ! j"
    proof (cases "j < length xs - l")
      case True
      then have "l = ?N - p" using assms(3) by linarith
      then have "\<not> p \<le> j" "j + ?N - p = l + j" "l + j < length xs" using True l assms(1) by linarith+
      then show ?thesis using True l j t by (simp add: ring_write_nth nth_append)
    next
      case False
      then have "(drop l xs @ drop (length xs - l) c) ! j = c ! j" using len j l by (simp add: nth_append)
      also have "\<dots> = ring_write b p xs ! j"
      proof (cases "p \<le> j")
        case True
        then have "j < p + l \<longleftrightarrow> j - p < length xs" using assms(3) j by linarith
        with True show ?thesis by (simp add: nth [OF j] ring_write_nth [OF j] t)
      next
        case before: False
        then have "\<not> j + ?N - p < length xs" using False assms l j by linarith
        with before show ?thesis by (simp add: nth [OF j] ring_write_nth [OF j] t)
      qed
      finally show ?thesis .
    qed
  qed (use l len in simp)
  then have "copy_to c 0 (drop l xs) = Some (ring_write b p xs)" using l len by (simp add: copy_to_def)
  with c show ?thesis by blast
qed

section \<open>The queue\<close>

definition kfifo_ok :: "kfifo \<Rightarrow> bool" where
  "kfifo_ok f \<longleftrightarrow>
     (\<exists>k < 32. f_size f = 2 ^ k \<and> f_mask f = 2 ^ k - 1 \<and> length (f_buffer f) = 2 ^ k \<and> unat (f_in f - f_out f) \<le> 2 ^ k)"

definition contents :: "kfifo \<Rightarrow> u8 list" where
  "contents f = ring_read (f_buffer f) (unat (f_out f) mod length (f_buffer f)) (unat (f_in f - f_out f))"

lemma unat_2p: "k < 32 \<Longrightarrow> unat (2 ^ k :: u32) = 2 ^ k"
proof -
  assume "k < 32"
  then have "(2 :: nat) ^ k < 2 ^ LENGTH(32)" by (intro power_strict_increasing) simp_all
  then have "unat (of_nat (2 ^ k) :: u32) = 2 ^ k" by (simp only: unat_of_nat mod_less)
  then show ?thesis by simp
qed

lemma unat_and_mask: "unat (w AND (2 ^ k - 1)) = unat w mod 2 ^ k" for w :: u32
proof -
  have "w AND (2 ^ k - 1) = take_bit k w" by (simp only: take_bit_eq_mask mask_eq_exp_minus_1)
  then have "unat (w AND (2 ^ k - 1)) = take_bit k (unat w)" by (simp only: unsigned_take_bit_eq)
  then show ?thesis by (simp only: take_bit_eq_mod)
qed

lemma unat_add_mod: "k < 32 \<Longrightarrow> unat (v + w) mod 2 ^ k = (unat v + unat w) mod 2 ^ k" for v w :: u32
proof -
  assume "k < 32"
  then have "(2 :: nat) ^ k dvd 2 ^ 32" by (intro le_imp_power_dvd) simp
  then show ?thesis by (simp add: unat_word_ariths mod_mod_cancel)
qed

lemma unat_min: "unat (min v w) = min (unat v) (unat w)" for v w :: u32
  by (auto simp: min_def word_le_nat_alt)

lemma fifo_shape:
  assumes "kfifo_ok f" "N = length (f_buffer f)"
  shows "unat (f_size f) = N" "f_mask f = f_size f - 1" "unat (f_in f - f_out f) \<le> N" "0 < N"
    "unat (w AND (f_size f - 1)) = unat w mod N" "unat (v + w) mod N = (unat v + unat w) mod N"
    "unat (f_size f - f_in f + f_out f) = N - unat (f_in f - f_out f)"
    "unat (f_size f - (w AND (f_size f - 1))) = N - unat w mod N"
proof -
  obtain k where k: "k < 32" "f_size f = 2 ^ k" "f_mask f = 2 ^ k - 1" "N = 2 ^ k" "unat (f_in f - f_out f) \<le> 2 ^ k"
    using assms by (auto simp: kfifo_ok_def)
  show "unat (f_size f) = N" "f_mask f = f_size f - 1" "unat (f_in f - f_out f) \<le> N" "0 < N"
    "unat (w AND (f_size f - 1)) = unat w mod N" "unat (v + w) mod N = (unat v + unat w) mod N"
    using k by (simp_all add: unat_2p unat_and_mask unat_add_mod)
  have "f_in f - f_out f \<le> f_size f" using k by (simp add: word_le_nat_alt unat_2p)
  moreover have "f_size f - f_in f + f_out f = f_size f - (f_in f - f_out f)" by simp
  ultimately show "unat (f_size f - f_in f + f_out f) = N - unat (f_in f - f_out f)"
    using k by (simp only: unat_sub unat_2p)
  have "w AND (f_size f - 1) \<le> f_size f" using k by (simp add: word_le_nat_alt unat_2p unat_and_mask less_imp_le)
  then show "unat (f_size f - (w AND (f_size f - 1))) = N - unat w mod N"
    using k by (simp only: unat_sub unat_2p unat_and_mask)
qed

lemma in_position:
  assumes "kfifo_ok f" "N = length (f_buffer f)"
  shows "unat (f_in f) mod N = (unat (f_out f) mod N + unat (f_in f - f_out f)) mod N"
proof -
  have "f_in f = f_out f + (f_in f - f_out f)" by simp
  then have "unat (f_in f) mod N = (unat (f_out f) + unat (f_in f - f_out f)) mod N"
    using fifo_shape(6) [OF assms, of "f_out f" "f_in f - f_out f"] by simp
  then show ?thesis by (simp add: mod_add_left_eq)
qed

text \<open>The contract of a byte queue of bounded capacity, and what every sequence of calls keeps of it.\<close>

datatype fifo_op = Put "u8 list" | Get u32

fun queue_runs ::
  "('q \<Rightarrow> u8 list \<Rightarrow> u32 \<Rightarrow> (u32 \<times> 'q) option) \<Rightarrow> ('q \<Rightarrow> u32 \<Rightarrow> (u32 \<times> u8 list \<times> 'q) option) \<Rightarrow>
     fifo_op list \<Rightarrow> 'q \<Rightarrow> (u8 list \<times> u8 list \<times> 'q) option" where
  "queue_runs put get [] q = Some ([], [], q)"
| "queue_runs put get (Put xs # ops) q = do {
     (m, q) \<leftarrow> put q xs (of_nat (length xs));
     (accepted, delivered, q) \<leftarrow> queue_runs put get ops q;
     Some (take (unat m) xs @ accepted, delivered, q)
   }"
| "queue_runs put get (Get n # ops) q = do {
     (m, ys, q) \<leftarrow> get q n;
     (accepted, delivered, q) \<leftarrow> queue_runs put get ops q;
     Some (accepted, ys @ delivered, q)
   }"

locale byte_queue =
  fixes put :: "'q \<Rightarrow> u8 list \<Rightarrow> u32 \<Rightarrow> (u32 \<times> 'q) option"
    and get :: "'q \<Rightarrow> u32 \<Rightarrow> (u32 \<times> u8 list \<times> 'q) option"
    and ok :: "'q \<Rightarrow> bool"
    and held :: "'q \<Rightarrow> u8 list"
    and capacity :: "'q \<Rightarrow> nat"
  assumes put_spec: "ok q \<Longrightarrow> unat n \<le> length xs \<Longrightarrow> \<exists>m q'. put q xs n = Some (m, q') \<and> ok q' \<and>
        unat m = min (unat n) (capacity q - length (held q)) \<and> held q' = held q @ take (unat m) xs \<and>
        capacity q' = capacity q"
    and get_spec: "ok q \<Longrightarrow> \<exists>m ys q'. get q n = Some (m, ys, q') \<and> ok q' \<and>
        unat m = min (unat n) (length (held q)) \<and> ys = take (unat m) (held q) \<and> held q' = drop (unat m) (held q) \<and>
        capacity q' = capacity q"
    and held_bound: "ok q \<Longrightarrow> length (held q) \<le> capacity q"
begin

lemma runs_spec:
  assumes "ok q" "\<forall>xs. Put xs \<in> set ops \<longrightarrow> length xs < 2 ^ 32"
  shows "\<exists>accepted delivered q'. queue_runs put get ops q = Some (accepted, delivered, q') \<and> ok q' \<and>
    held q @ accepted = delivered @ held q' \<and> capacity q' = capacity q"
  using assms
proof (induction ops arbitrary: q)
  case (Cons a ops)
  show ?case
  proof (cases a)
    case (Put xs)
    have "unat (of_nat (length xs) :: u32) \<le> length xs" by (simp add: unat_of_nat)
    from put_spec [OF Cons.prems(1) this] obtain m q1 where
      1: "put q xs (of_nat (length xs)) = Some (m, q1)" "ok q1" "held q1 = held q @ take (unat m) xs" "capacity q1 = capacity q"
      by blast
    from Cons.IH [OF 1(2)] Cons.prems(2) show ?thesis using 1 Put by auto
  next
    case (Get n)
    from get_spec [OF Cons.prems(1), of n] obtain m ys q1 where
      1: "get q n = Some (m, ys, q1)" "ok q1" "ys = take (unat m) (held q)" "held q1 = drop (unat m) (held q)"
        "capacity q1 = capacity q"
      by blast
    from Cons.IH [OF 1(2)] Cons.prems(2) obtain acc del q2 where
      2: "queue_runs put get ops q1 = Some (acc, del, q2)" "ok q2" "held q1 @ acc = del @ held q2" "capacity q2 = capacity q1"
      by auto
    have "held q @ acc = (ys @ del) @ held q2" using 1(3,4) 2(3) by (metis append.assoc append_take_drop_id)
    then show ?thesis using 1 2 Get by auto
  qed
qed simp

end

lemma kfifo_put_spec:
  assumes "kfifo_ok f" "unat n \<le> length xs"
  shows "\<exists>m f'. kfifo_put f xs n = Some (m, f') \<and> kfifo_ok f' \<and>
    unat m = min (unat n) (length (f_buffer f) - length (contents f)) \<and>
    contents f' = contents f @ take (unat m) xs \<and> length (f_buffer f') = length (f_buffer f)"
proof -
  define N c p where "N = length (f_buffer f)" and "c = unat (f_in f - f_out f)" and "p = unat (f_out f) mod N"
  note shape = fifo_shape [OF assms(1) N_def]
  define m where "m = min n (f_size f - f_in f + f_out f)"
  define at where "at = f_in f AND (f_size f - 1)"
  define l where "l = min m (f_size f - at)"
  have m: "unat m = min (unat n) (N - c)" by (simp add: m_def unat_min shape(7) c_def)
  have at: "unat at = (p + c) mod N" unfolding at_def shape(5) p_def c_def by (rule in_position [OF assms(1) N_def])
  have c: "c \<le> N" using shape(3) by (simp add: c_def)
  have room: "c + unat m \<le> N" "unat m \<le> length xs" using m c assms(2) by linarith+
  have at_less: "unat at < N" using at shape(4) by simp
  have l: "unat l = min (unat m) (N - unat at)"
    by (simp add: l_def unat_min shape(8) at_def shape(5))
  have l_le: "unat l \<le> unat m" "unat (m - l) = unat m - unat l"
    using l by (simp_all add: unat_sub word_le_nat_alt)
  let ?d = "take (unat m) xs"
  have d: "length ?d = unat m" using room(2) by simp
  have at_l: "unat l = min (length ?d) (length (f_buffer f) - unat at)" using l d by (simp add: N_def)
  obtain b where b: "copy_to (f_buffer f) (unat at) (take (unat l) ?d) = Some b"
    "copy_to b 0 (drop (unat l) ?d) = Some (ring_write (f_buffer f) (unat at) ?d)"
    using copies_write [OF _ _ at_l] at_less d room by (auto simp: N_def)
  have src: "copy_from xs 0 (unat l) = Some (take (unat l) ?d)"
    "copy_from xs (unat l) (unat (m - l)) = Some (drop (unat l) ?d)"
    using room(2) l_le by (simp_all add: copy_from_def take_drop min_def)
  define f' where "f' = f\<lparr>f_buffer := ring_write (f_buffer f) (unat at) ?d, f_in := f_in f + m\<rparr>"
  have put: "kfifo_put f xs n = Some (m, f')"
    unfolding kfifo_put_def Let_def m_def [symmetric] at_def [symmetric] l_def [symmetric] f'_def
    by (simp only: src b bind.bind_lunit)
  have count: "unat (f_in f' - f_out f') = c + unat m"
  proof -
    have "f_in f' - f_out f' = (f_in f - f_out f) + m" by (simp add: f'_def)
    moreover have "c + unat m < 2 ^ 32"
      using room(1) shape(1) unsigned_less [of "f_size f", where ?'a = nat] by simp
    ultimately show ?thesis by (simp add: unat_word_ariths c_def)
  qed
  have "kfifo_ok f'" using assms(1) room(1) count by (auto simp: kfifo_ok_def f'_def N_def)
  moreover have "contents f' = contents f @ ?d"
    using ring_read_write [of p "f_buffer f" c ?d "unat at"] room(1) at shape(4) d count
    by (simp add: contents_def f'_def N_def p_def c_def)
  moreover have "length (contents f) = c" by (simp add: contents_def c_def)
  ultimately show ?thesis using put m by (auto simp: f'_def N_def)
qed

lemma kfifo_read:
  assumes "kfifo_ok f" "unat n \<le> length (contents f)" "at = f_out f AND (f_size f - 1)" "l = min n (f_size f - at)"
  shows "copy_from (f_buffer f) (unat at) (unat l) = Some (take (unat l) (take (unat n) (contents f)))"
    "copy_from (f_buffer f) 0 (unat (n - l)) = Some (drop (unat l) (take (unat n) (contents f)))"
proof -
  define N where "N = length (f_buffer f)"
  note shape = fifo_shape [OF assms(1) N_def]
  have at: "unat at = unat (f_out f) mod N" unfolding assms(3) by (rule shape(5))
  have n: "unat n \<le> N" "unat n \<le> unat (f_in f - f_out f)" using assms(2) shape(3) by (simp_all add: contents_def)
  have l: "unat l = min (unat n) (length (f_buffer f) - unat at)"
    by (simp add: assms(3,4) unat_min shape(5,8) N_def [symmetric])
  have diff: "unat (n - l) = unat n - unat l" using l by (simp add: unat_sub word_le_nat_alt)
  have take: "take (unat n) (contents f) = ring_read (f_buffer f) (unat at) (unat n)"
    unfolding contents_def at N_def [symmetric] by (rule ring_read_take [OF n(2)])
  have at_less: "unat at < length (f_buffer f)" using at shape(4) by (simp add: N_def)
  note read = copies_read [OF at_less n(1) [unfolded N_def] l]
  have "unat l \<le> unat n" using l by simp
  then show "copy_from (f_buffer f) (unat at) (unat l) = Some (take (unat l) (take (unat n) (contents f)))"
    unfolding take by (simp only: read(1) ring_read_take)
  show "copy_from (f_buffer f) 0 (unat (n - l)) = Some (drop (unat l) (take (unat n) (contents f)))"
    unfolding take diff by (rule read(2))
qed

lemma kfifo_get_spec:
  assumes "kfifo_ok f"
  shows "\<exists>m ys f'. kfifo_get f n = Some (m, ys, f') \<and> kfifo_ok f' \<and>
    unat m = min (unat n) (length (contents f)) \<and> ys = take (unat m) (contents f) \<and>
    contents f' = drop (unat m) (contents f) \<and> length (f_buffer f') = length (f_buffer f)"
proof -
  define N c where "N = length (f_buffer f)" and "c = unat (f_in f - f_out f)"
  note shape = fifo_shape [OF assms N_def]
  define m where "m = min n (f_in f - f_out f)"
  define at where "at = f_out f AND (f_size f - 1)"
  define l where "l = min m (f_size f - at)"
  have len: "length (contents f) = c" by (simp add: contents_def c_def)
  have m: "unat m = min (unat n) c" by (simp add: m_def unat_min c_def)
  have le: "unat m \<le> length (contents f)" using m len by simp
  define g where "g = f\<lparr>f_out := f_out f + m\<rparr>"
  define f' where "f' = (if f_out g = f_in g then g\<lparr>f_in := 0, f_out := 0\<rparr> else g)"
  have get: "kfifo_get f n = Some (m, take (unat m) (contents f), f')"
    unfolding kfifo_get_def Let_def m_def [symmetric] at_def [symmetric] l_def [symmetric]
      kfifo_read [OF assms le at_def l_def] bind.bind_lunit append_take_drop_id f'_def g_def ..
  have count: "unat (f_in g - f_out g) = c - unat m"
  proof -
    have "f_in g - f_out g = (f_in f - f_out f) - m" by (simp add: g_def)
    moreover have "m \<le> f_in f - f_out f" by (simp add: m_def)
    ultimately show ?thesis by (simp only: unat_sub c_def)
  qed
  have g: "kfifo_ok g" using assms count by (auto simp: kfifo_ok_def g_def c_def)
  have "contents g = drop (unat m) (contents f)"
  proof -
    have "unat (f_out g) mod N = (unat (f_out f) mod N + unat m) mod N"
      using shape(6) [of "f_out f" m] by (simp add: g_def mod_add_left_eq)
    then have "contents g = ring_read (f_buffer f) ((unat (f_out f) mod N + unat m) mod N) (c - unat m)"
      unfolding contents_def count by (simp add: g_def N_def)
    then show ?thesis
      using ring_read_drop [of "f_buffer f" "unat m" c "unat (f_out f) mod N"] m shape(4)
      by (simp add: contents_def N_def c_def)
  qed
  moreover have "kfifo_ok f'" "contents f' = contents g" "length (f_buffer f') = length (f_buffer f)"
    using g by (auto simp: f'_def kfifo_ok_def contents_def ring_read_def) (auto simp: g_def)
  ultimately show ?thesis using get m len by auto
qed

lemma kfifo_held_bound: "kfifo_ok f \<Longrightarrow> length (contents f) \<le> length (f_buffer f)"
  by (auto simp: kfifo_ok_def contents_def)

interpretation kf: byte_queue kfifo_put kfifo_get kfifo_ok contents "\<lambda>f. length (f_buffer f)"
  using kfifo_put_spec kfifo_get_spec kfifo_held_bound by unfold_locales blast+

lemma kfifo_alloc_cases:
  "kfifo_alloc sz h = (r, h') \<Longrightarrow>
     (r = None \<longrightarrow> live h' = live h) \<and>
     (\<forall>f. r = Some f \<longrightarrow> live h' = live h + 2 \<and> live (kfifo_free f h') = live h \<and>
        f = \<lparr>f_in = 0, f_out = 0, f_mask = sz - 1, f_size = sz, f_buffer = replicate (unat sz) 0\<rparr>)"
  by (auto simp: kfifo_alloc_def kfifo_init_def kfifo_free_def os_zalloc_live
      dest!: os_zalloc_live split: prod.splits bool.splits)

section \<open>Properties\<close>

text \<open>
  C13. The ring buffer implements a bounded list of bytes, whatever the values of its 32-bit counters:
  a put appends as many of the given bytes as there is room for and reports their number, a get takes that many from the
  front as are there and asked for, and a look ahead returns the same bytes without taking them. The sizes reported
  are those of the list and of the room left, and no copy leaves the buffer.
\<close>

theorem kfifo_refines:
  assumes "kfifo_ok f" "unat n \<le> length xs"
  shows "(\<exists>m f'. kfifo_put f xs n = Some (m, f') \<and> kfifo_ok f' \<and>
      unat m = min (unat n) (unat (f_size f) - length (contents f)) \<and> contents f' = contents f @ take (unat m) xs) \<and>
    (\<exists>m f'. kfifo_get f n = Some (m, take (unat m) (contents f), f') \<and> kfifo_ok f' \<and>
      unat m = min (unat n) (length (contents f)) \<and> contents f' = drop (unat m) (contents f) \<and>
      kfifo_out_peek f n = Some (m, take (unat m) (contents f))) \<and>
    unat (kfifo_data_size f) = length (contents f) \<and> unat (kfifo_unused f) = unat (f_size f) - length (contents f)"
proof (intro conjI)
  note shape = fifo_shape [OF assms(1) refl]
  show "\<exists>m f'. kfifo_put f xs n = Some (m, f') \<and> kfifo_ok f' \<and>
      unat m = min (unat n) (unat (f_size f) - length (contents f)) \<and> contents f' = contents f @ take (unat m) xs"
    using kfifo_put_spec [OF assms] unfolding shape(1) by blast
  obtain m f' where get: "kfifo_get f n = Some (m, take (unat m) (contents f), f')" "kfifo_ok f'"
    "unat m = min (unat n) (length (contents f))" "contents f' = drop (unat m) (contents f)"
    using kfifo_get_spec [OF assms(1), of n] by blast
  let ?m = "if f_in f - f_out f < n then f_in f - f_out f else n"
  have "unat ?m = unat m" using get(3) by (auto simp: contents_def word_less_nat_alt)
  then have m: "?m = m" by (simp only: word_unat_eq_iff)
  have le: "unat m \<le> length (contents f)" using get(3) by simp
  have size: "f_size f - 1 + 1 = f_size f" by simp
  have "kfifo_out_peek f n = Some (m, take (unat m) (contents f))"
    unfolding kfifo_out_peek_def kfifo_copy_out_def Let_def m shape(2) size kfifo_read [OF assms(1) le refl refl]
      bind.bind_lunit append_take_drop_id by simp
  with get show "\<exists>m f'. kfifo_get f n = Some (m, take (unat m) (contents f), f') \<and> kfifo_ok f' \<and>
      unat m = min (unat n) (length (contents f)) \<and> contents f' = drop (unat m) (contents f) \<and>
      kfifo_out_peek f n = Some (m, take (unat m) (contents f))" by blast
  show "unat (kfifo_data_size f) = length (contents f)" by (simp add: kfifo_data_size_def contents_def)
  have "f_size f - (f_in f - f_out f) = f_size f - f_in f + f_out f" by simp
  then show "unat (kfifo_unused f) = unat (f_size f) - length (contents f)"
    using shape(7) by (simp only: kfifo_unused_def shape(1,2) size contents_def length_ring)
qed

text \<open>A queue of four bytes whose counters are about to wrap around.\<close>

definition sample_fifo :: kfifo where
  "sample_fifo = \<lparr>f_in = 1, f_out = - 2, f_mask = 3, f_size = 4, f_buffer = [12, 13, 10, 11]\<rparr>"

lemma sample_fifo_ok: "kfifo_ok sample_fifo"
proof -
  have "(2 :: nat) < 32" by simp
  then show ?thesis unfolding kfifo_ok_def by (intro exI [of _ 2]) (simp add: sample_fifo_def)
qed

lemma sample_fifo_contents: "contents sample_fifo = [10, 11, 12]"
proof -
  have "unat (f_out sample_fifo) = 4294967294" "unat (f_in sample_fifo - f_out sample_fifo) = 3"
    by (simp_all add: sample_fifo_def)
  moreover have "[0..<3] = [0, 1, 2 :: nat]" by (simp add: upt_rec)
  ultimately show ?thesis by (simp add: contents_def ring_read_def) (simp add: sample_fifo_def)
qed

theorem kfifo_refines_witness:
  "\<exists>m f'. kfifo_put sample_fifo [1, 2] 2 = Some (m, f') \<and> contents f' = [10, 11, 12, 1]"
proof -
  have "unat (2 :: u32) \<le> length [1, 2 :: u8]" by simp
  from kfifo_refines [OF sample_fifo_ok this, unfolded sample_fifo_contents]
  show ?thesis by (auto simp: sample_fifo_def)
qed

text \<open>
  Through any sequence of puts and gets the queue loses, repeats and reorders nothing: the bytes held
  at the start and those accepted since are the bytes delivered followed by the bytes held at the end. Every call
  of the sequence returns.
\<close>

theorem kfifo_stream:
  assumes "kfifo_ok f" "\<forall>xs. Put xs \<in> set ops \<longrightarrow> length xs < 2 ^ 32"
  shows "\<exists>accepted delivered f'. queue_runs kfifo_put kfifo_get ops f = Some (accepted, delivered, f') \<and> kfifo_ok f' \<and>
    contents f @ accepted = delivered @ contents f'"
  using kf.runs_spec [OF assms] by blast

theorem kfifo_stream_witness:
  "\<exists>accepted delivered f'. queue_runs kfifo_put kfifo_get [Put [1, 2], Get 3, Put [3, 4, 5]] sample_fifo =
     Some (accepted, delivered, f') \<and> [10, 11, 12] @ accepted = delivered @ contents f'"
  using kfifo_stream [OF sample_fifo_ok, of "[Put [1, 2], Get 3, Put [3, 4, 5]]"]
  by (auto simp: sample_fifo_contents)


end
