(* ===== verification/Rtos_Sem.thy ===== *)
theory Rtos_Sem
  imports Prelude
begin

text \<open>
  Semaphores of the RTOS port \<^verbatim>\<open>components/bk_os/liteos_m_mst/rtos_pub.c\<close>. The kernel below it, LiteOS-M, is not
  part of the repository: its calls are fields of a record that the port takes as an argument, and what the
  code relies on of them is the predicate \<^verbatim>\<open>los_sem_laws\<close>.

  A semaphore handle is the count of the semaphore it points to, or nothing when it is
  \<^verbatim>\<open>NULL\<close>. A call that waits is evaluated at the moment its wait ends; \<^const>\<open>None\<close> means that it never ends.
\<close>

abbreviation (input) kNoErr :: int where "kNoErr \<equiv> 0"
abbreviation (input) kGeneralErr :: int where "kGeneralErr \<equiv> - 1"
abbreviation (input) kInProgressErr :: int where "kInProgressErr \<equiv> 1"
abbreviation (input) kUnknownErr :: int where "kUnknownErr \<equiv> - 6700"
abbreviation (input) kParamErr :: int where "kParamErr \<equiv> - 6705"
abbreviation (input) kTimeoutErr :: int where "kTimeoutErr \<equiv> - 6722"

abbreviation (input) BEKEN_WAIT_FOREVER :: u32 where "BEKEN_WAIT_FOREVER \<equiv> 0xFFFFFFFF"
abbreviation (input) LOS_WAIT_FOREVER :: u32 where "LOS_WAIT_FOREVER \<equiv> 0xFFFFFFFF"
abbreviation (input) LOS_NO_WAIT :: u32 where "LOS_NO_WAIT \<equiv> 0"

datatype los_ret =
  LOS_OK | LOS_ERRNO_SEM_TIMEOUT | LOS_ERRNO_SEM_INVALID | LOS_ERRNO_SEM_PEND_INTERR | LOS_ERRNO_OTHER

text \<open>
  The kernel: a wait of some ticks on a count, a post to a count, and the length of a tick.
\<close>

record los_sem =
  LOS_SemPend :: "u32 \<Rightarrow> nat \<Rightarrow> (los_ret \<times> nat) option"
  LOS_SemPost :: "nat \<Rightarrow> los_ret \<times> nat"
  ms_to_tick_ratio :: u32

text \<open>
  Binary semaphores as LiteOS-M documents them. A wait takes a count that is there; on an empty semaphore it ends
  with a timeout after its ticks, with another error at once when the number of ticks is zero, and not at all when
  it is unlimited. A post raises an empty semaphore to one and fails on a full one.
\<close>

definition los_sem_laws :: "los_sem \<Rightarrow> bool" where
  "los_sem_laws K \<longleftrightarrow>
     0 < ms_to_tick_ratio K \<and>
     (\<forall>t n. LOS_SemPend K t (Suc n) = Some (LOS_OK, n)) \<and>
     (\<forall>t. t \<noteq> LOS_NO_WAIT \<longrightarrow> t \<noteq> LOS_WAIT_FOREVER \<longrightarrow> LOS_SemPend K t 0 = Some (LOS_ERRNO_SEM_TIMEOUT, 0)) \<and>
     LOS_SemPend K LOS_NO_WAIT 0 = Some (LOS_ERRNO_OTHER, 0) \<and>
     LOS_SemPend K LOS_WAIT_FOREVER 0 = None \<and>
     LOS_SemPost K 0 = (LOS_OK, 1) \<and>
     (\<forall>n. LOS_SemPost K (Suc n) = (LOS_ERRNO_OTHER, Suc n))"

text \<open>
  The port. Whether the code runs in an interrupt (\<^verbatim>\<open>OS_INT_ACTIVE\<close>) and whether the kernel can create a
  semaphore, a binary or a counting one, are arguments; a failed creation runs into an assertion.
\<close>

definition rtos_init_semaphore_ex :: "bool \<Rightarrow> (bool \<Rightarrow> bool) \<Rightarrow> int \<Rightarrow> nat \<Rightarrow> (int \<times> nat option) option" where
  "rtos_init_semaphore_ex int_active created max_count init_count =
     (if int_active then Some (kGeneralErr, None)
      else do {
        bk_assert (created (1 = max_count));
        Some (kNoErr, Some (init_count mod 2 ^ 16))
      })"

definition rtos_init_semaphore :: "bool \<Rightarrow> (bool \<Rightarrow> bool) \<Rightarrow> int \<Rightarrow> (int \<times> nat option) option" where
  "rtos_init_semaphore int_active created max_count = rtos_init_semaphore_ex int_active created max_count 0"

definition rtos_get_semaphore :: "los_sem \<Rightarrow> bool \<Rightarrow> nat option \<Rightarrow> u32 \<Rightarrow> (int \<times> nat option) option" where
  "rtos_get_semaphore K int_active semaphore timeout_ms =
     (let timeout = (if timeout_ms = BEKEN_WAIT_FOREVER then LOS_WAIT_FOREVER else timeout_ms div ms_to_tick_ratio K)
      in case semaphore of
           None \<Rightarrow> Some (kParamErr, None)
         | Some n \<Rightarrow>
             if int_active \<and> timeout \<noteq> LOS_NO_WAIT then Some (kUnknownErr, Some n)
             else do {
               (uwRet, n) \<leftarrow> LOS_SemPend K timeout n;
               Some (case uwRet of
                   LOS_OK \<Rightarrow> kNoErr
                 | LOS_ERRNO_SEM_TIMEOUT \<Rightarrow> kTimeoutErr
                 | LOS_ERRNO_SEM_INVALID \<Rightarrow> kParamErr
                 | LOS_ERRNO_SEM_PEND_INTERR \<Rightarrow> kInProgressErr
                 | LOS_ERRNO_OTHER \<Rightarrow> kGeneralErr, Some n)
             })"

definition rtos_get_semaphore_count :: "bool \<Rightarrow> nat option \<Rightarrow> nat" where
  "rtos_get_semaphore_count int_active semaphore =
     (if int_active then 0 else case semaphore of None \<Rightarrow> 0 | Some n \<Rightarrow> n)"

definition rtos_set_semaphore :: "los_sem \<Rightarrow> nat option \<Rightarrow> int \<times> nat option" where
  "rtos_set_semaphore K semaphore =
     (case semaphore of
        None \<Rightarrow> (kParamErr, None)
      | Some n \<Rightarrow>
          let (uwRet, n) = LOS_SemPost K n
          in (case uwRet of LOS_OK \<Rightarrow> kNoErr | LOS_ERRNO_SEM_INVALID \<Rightarrow> kParamErr | _ \<Rightarrow> kGeneralErr, Some n))"

definition rtos_deinit_semaphore :: "bool \<Rightarrow> los_ret \<Rightarrow> nat option \<Rightarrow> int \<times> nat option" where
  "rtos_deinit_semaphore int_active uwRet semaphore =
     (if int_active then (kGeneralErr, semaphore)
      else case semaphore of
        None \<Rightarrow> (kParamErr, None)
      | Some _ \<Rightarrow>
          (case uwRet of LOS_OK \<Rightarrow> kNoErr | LOS_ERRNO_SEM_INVALID \<Rightarrow> kParamErr | _ \<Rightarrow> kGeneralErr, None))"

section \<open>A wait under the laws of the kernel\<close>

lemma wait_ticks_bounded:
  assumes "timeout_ms \<noteq> BEKEN_WAIT_FOREVER"
  shows "timeout_ms div k \<noteq> LOS_WAIT_FOREVER"
proof -
  have "unat (timeout_ms div k) \<le> unat timeout_ms" by (simp add: unat_div div_le_dividend)
  moreover have "unat timeout_ms \<noteq> unat BEKEN_WAIT_FOREVER" using assms by (simp only: word_unat_eq_iff simp_thms)
  moreover have "unat timeout_ms \<le> unat BEKEN_WAIT_FOREVER" using unsigned_less [of timeout_ms, where ?'a = nat] by simp
  ultimately show ?thesis by auto
qed

text \<open>A count is taken, whatever the timeout; an empty semaphore gives one of three results.\<close>

lemma get_semaphore_Suc:
  "los_sem_laws K \<Longrightarrow> rtos_get_semaphore K False (Some (Suc n)) t = Some (kNoErr, Some n)"
  by (simp add: rtos_get_semaphore_def los_sem_laws_def)

lemma get_semaphore_empty:
  assumes "los_sem_laws K"
  shows "rtos_get_semaphore K False (Some 0) t =
    (if t = BEKEN_WAIT_FOREVER then None
     else if t div ms_to_tick_ratio K = 0 then Some (kGeneralErr, Some 0) else Some (kTimeoutErr, Some 0))"
  using assms wait_ticks_bounded [of t "ms_to_tick_ratio K"] by (simp add: rtos_get_semaphore_def los_sem_laws_def)

lemma set_semaphore_empty: "los_sem_laws K \<Longrightarrow> rtos_set_semaphore K (Some 0) = (kNoErr, Some 1)"
  by (simp add: rtos_set_semaphore_def los_sem_laws_def)

lemma set_semaphore_full: "los_sem_laws K \<Longrightarrow> rtos_set_semaphore K (Some (Suc n)) = (kGeneralErr, Some (Suc n))"
  by (simp add: rtos_set_semaphore_def los_sem_laws_def)

text \<open>A kernel that obeys the laws, with ticks of two milliseconds.\<close>

definition sample_los :: los_sem where
  "sample_los =
     \<lparr>LOS_SemPend = (\<lambda>t n. if n \<noteq> 0 then Some (LOS_OK, n - 1)
         else if t = LOS_NO_WAIT then Some (LOS_ERRNO_OTHER, 0)
         else if t = LOS_WAIT_FOREVER then None else Some (LOS_ERRNO_SEM_TIMEOUT, 0)),
       LOS_SemPost = (\<lambda>n. if n = 0 then (LOS_OK, 1) else (LOS_ERRNO_OTHER, n)),
       ms_to_tick_ratio = 2\<rparr>"

lemma sample_los_laws: "los_sem_laws sample_los"
  by (simp add: los_sem_laws_def sample_los_def)

end
