(* ===== verification/Uart.thy ===== *)
theory Uart
  imports Uart_Hw Kfifo Rtos_Sem
begin

text \<open>
  The UART driver \<^verbatim>\<open>middleware/driver/uart/uart_driver.c\<close> in the configuration of the bk7235
  (\<^verbatim>\<open>CONFIG_SYSTEM_CTRL\<close> set, statistics and flow control of the first port off), with the clock selection of
  \<^verbatim>\<open>sys_hal.c\<close> that it uses and the console port of \<^verbatim>\<open>components/bk_system/printf_base.c\<close>, which it starts.

  The state holds the driver's variables, the registers by their base address, and the heap. Requests to
  other drivers (power, interrupt lines, pins, vectors) are entries of a trace, in their order. Log output is not
  modelled. A function that would follow a null pointer or leave a table, run into an assertion or
  poll for ever has the result \<^const>\<open>None\<close>.
\<close>

section \<open>State\<close>

record uart_driver_t =
  drv_hw :: addr
  drv_id :: u8
  id_init_bits :: u8
  id_sw_fifo_enable_bits :: u8

record uart_sema_t =
  rx_blocked :: bool
  rx_int_sema :: "nat option"

record uart_callback_t =
  uart_callback :: addr
  uart_param :: addr

datatype uart_clk = CLK_PWR_ID_UART1 | CLK_PWR_ID_UART2 | CLK_PWR_ID_UART3
datatype uart_int = UART0_INTERRUPT_CTRL_BIT | UART1_INTERRUPT_CTRL_BIT | UART2_INTERRUPT_CTRL_BIT
datatype uart_src = INT_SRC_UART1 | INT_SRC_UART2 | INT_SRC_UART3
datatype uart_pin =
  GPIO_DEV_UART1_TXD | GPIO_DEV_UART1_RXD | GPIO_DEV_UART2_TXD | GPIO_DEV_UART2_RXD | GPIO_DEV_UART3_TXD | GPIO_DEV_UART3_RXD

text \<open>The handlers \<^verbatim>\<open>uart0_isr\<close>, \<^verbatim>\<open>uart1_isr\<close> and \<^verbatim>\<open>uart2_isr\<close> differ in the port they serve.\<close>

datatype uart_call =
  Dev_clk_pwr_up uart_clk bool
| Int_enable uart_int
| Int_disable uart_int
| Gpio_dev_map u32 uart_pin
| Gpio_dev_unmap u32
| Gpio_pull_up u32
| Int_isr_register uart_src u32

record uart_sys =
  uart_regs :: "addr \<Rightarrow> uart_hw_t"
  s_uart :: "u32 \<Rightarrow> uart_driver_t"
  s_uart_driver_is_init :: bool
  s_uart_rx_isr :: "u32 \<Rightarrow> uart_callback_t"
  s_uart_tx_isr :: "u32 \<Rightarrow> uart_callback_t"
  s_uart_rx_kfifo :: "u32 \<Rightarrow> kfifo option"
  s_uart_sema :: "u32 \<Rightarrow> uart_sema_t"
  s_last_uart_rx_isr :: uart_callback_t
  cpu_clk_div_mode1 :: u32
  s_printf_init :: bool
  s_print_port :: u8
  s_printf_lock :: bool
  s_printf_enable :: u8
  uart_heap :: heap
  sem_created :: "nat \<Rightarrow> bool"
  mux_created :: "nat \<Rightarrow> bool"
  objects_requested :: nat
  objects_live :: int
  uart_calls :: "uart_call list"

abbreviation (input) SOC_UART_ID_NUM_PER_UNIT :: u32 where "SOC_UART_ID_NUM_PER_UNIT \<equiv> 2"

abbreviation (input) BK_ERR_UART_NOT_INIT :: bk_err_t where "BK_ERR_UART_NOT_INIT \<equiv> BK_ERR_UART_BASE - 1"
abbreviation (input) BK_ERR_UART_INVALID_ID :: bk_err_t where "BK_ERR_UART_INVALID_ID \<equiv> BK_ERR_UART_BASE - 2"
abbreviation (input) BK_ERR_UART_RX_TIMEOUT :: bk_err_t where "BK_ERR_UART_RX_TIMEOUT \<equiv> BK_ERR_UART_BASE - 4"
abbreviation (input) BK_ERR_UART_BAUD_RATE_NOT_SUPPORT :: bk_err_t where
  "BK_ERR_UART_BAUD_RATE_NOT_SUPPORT \<equiv> BK_ERR_UART_BASE - 5"
abbreviation (input) BK_ERR_UART_ID_NOT_INIT :: bk_err_t where "BK_ERR_UART_ID_NOT_INIT \<equiv> BK_ERR_UART_BASE - 6"

text \<open>The registers of a port, reached through its entry of the driver table.\<close>

definition hw_of :: "u32 \<Rightarrow> uart_sys \<Rightarrow> uart_hw_t" where
  "hw_of i s = uart_regs s (drv_hw (s_uart s i))"

definition set_hw :: "u32 \<Rightarrow> uart_hw_t \<Rightarrow> uart_sys \<Rightarrow> uart_sys" where
  "set_hw i hw s = s\<lparr>uart_regs := (uart_regs s)(drv_hw (s_uart s i) := hw)\<rparr>"

definition upd_hw :: "u32 \<Rightarrow> (uart_hw_t \<Rightarrow> uart_hw_t) \<Rightarrow> uart_sys \<Rightarrow> uart_sys" where
  "upd_hw i f s = set_hw i (f (hw_of i s)) s"

definition hw_at :: "u32 \<Rightarrow> uart_sys \<Rightarrow> uart_hw_t option" where
  "hw_at i s = (if i < SOC_UART_ID_NUM_PER_UNIT \<and> drv_hw (s_uart s i) \<noteq> NULL then Some (hw_of i s) else None)"

definition log_call :: "uart_call \<Rightarrow> uart_sys \<Rightarrow> uart_sys" where
  "log_call c s = s\<lparr>uart_calls := uart_calls s @ [c]\<rparr>"

definition upd_drv :: "u32 \<Rightarrow> (uart_driver_t \<Rightarrow> uart_driver_t) \<Rightarrow> uart_sys \<Rightarrow> uart_sys" where
  "upd_drv i f s = s\<lparr>s_uart := (s_uart s)(i := f (s_uart s i))\<rparr>"

definition upd_sema :: "u32 \<Rightarrow> (uart_sema_t \<Rightarrow> uart_sema_t) \<Rightarrow> uart_sys \<Rightarrow> uart_sys" where
  "upd_sema i f s = s\<lparr>s_uart_sema := (s_uart_sema s)(i := f (s_uart_sema s i))\<rparr>"

text \<open>The checks at the head of most functions, \<^verbatim>\<open>UART_RETURN_ON_NOT_INIT\<close> and \<^verbatim>\<open>UART_RETURN_ON_INVALID_ID\<close>.\<close>

definition uart_checks :: "u32 \<Rightarrow> uart_sys \<Rightarrow> bk_err_t" where
  "uart_checks i s =
     (if \<not> s_uart_driver_is_init s then BK_ERR_UART_NOT_INIT
      else if SOC_UART_ID_NUM_PER_UNIT \<le> i then BK_ERR_UART_INVALID_ID
      else BK_OK)"

definition uart_checked :: "u32 \<Rightarrow> (uart_sys \<Rightarrow> uart_sys) \<Rightarrow> uart_sys \<Rightarrow> bk_err_t \<times> uart_sys" where
  "uart_checked i f s = (let e = uart_checks i s in if e = BK_OK then (BK_OK, f s) else (e, s))"

definition uart_id_not_init :: "u32 \<Rightarrow> uart_sys \<Rightarrow> bool" where
  "uart_id_not_init i s \<longleftrightarrow> id_init_bits (s_uart s i) AND 2 ^ unat i = 0"

definition baud_rate_not_support :: "u32 \<Rightarrow> bool" where
  "baud_rate_not_support rate \<longleftrightarrow> rate < UART_CLOCK div (0x1fff + 1) \<or> UART_CLOCK div (4 + 1) < rate"

section \<open>Power, clocks and pins\<close>

definition uart_clock_enable :: "u32 \<Rightarrow> uart_sys \<Rightarrow> uart_sys" where
  "uart_clock_enable i s =
     (if i = UART_ID_0 then log_call (Dev_clk_pwr_up CLK_PWR_ID_UART1 True) s
      else if i = UART_ID_1 then log_call (Dev_clk_pwr_up CLK_PWR_ID_UART2 True) s
      else if i = UART_ID_2 then log_call (Dev_clk_pwr_up CLK_PWR_ID_UART3 True) s
      else s)"

definition uart_clock_disable :: "u32 \<Rightarrow> uart_sys \<Rightarrow> uart_sys" where
  "uart_clock_disable i s =
     (if i = UART_ID_0 then log_call (Dev_clk_pwr_up CLK_PWR_ID_UART1 False) s
      else if i = UART_ID_1 then log_call (Dev_clk_pwr_up CLK_PWR_ID_UART2 False) s
      else if i = UART_ID_2 then log_call (Dev_clk_pwr_up CLK_PWR_ID_UART3 False) s
      else s)"

definition uart_interrupt_enable :: "u32 \<Rightarrow> uart_sys \<Rightarrow> uart_sys" where
  "uart_interrupt_enable i s =
     (if i = UART_ID_0 then log_call (Int_enable UART0_INTERRUPT_CTRL_BIT) s
      else if i = UART_ID_1 then log_call (Int_enable UART1_INTERRUPT_CTRL_BIT) s
      else if i = UART_ID_2 then log_call (Int_enable UART2_INTERRUPT_CTRL_BIT) s
      else s)"

definition uart_interrupt_disable :: "u32 \<Rightarrow> uart_sys \<Rightarrow> uart_sys" where
  "uart_interrupt_disable i s =
     (if i = UART_ID_0 then log_call (Int_disable UART0_INTERRUPT_CTRL_BIT) s
      else if i = UART_ID_1 then log_call (Int_disable UART1_INTERRUPT_CTRL_BIT) s
      else if i = UART_ID_2 then log_call (Int_disable UART2_INTERRUPT_CTRL_BIT) s
      else s)"

definition uart_init_pins :: "u32 \<Rightarrow> uart_pin \<Rightarrow> uart_pin \<Rightarrow> uart_sys \<Rightarrow> uart_sys" where
  "uart_init_pins i tx rx s =
     (let s = log_call (Gpio_dev_map (uart_ll_get_tx_pin i) tx) s;
          s = log_call (Gpio_dev_map (uart_ll_get_rx_pin i) rx) s;
          s = log_call (Gpio_pull_up (uart_ll_get_tx_pin i)) s
      in log_call (Gpio_pull_up (uart_ll_get_rx_pin i)) s)"

definition uart_init_gpio :: "u32 \<Rightarrow> uart_sys \<Rightarrow> uart_sys" where
  "uart_init_gpio i s =
     (if i = UART_ID_0 then uart_init_pins i GPIO_DEV_UART1_TXD GPIO_DEV_UART1_RXD s
      else if i = UART_ID_1 then uart_init_pins i GPIO_DEV_UART2_TXD GPIO_DEV_UART2_RXD s
      else if i = UART_ID_2 then uart_init_pins i GPIO_DEV_UART3_TXD GPIO_DEV_UART3_RXD s
      else s)"

definition uart_deinit_tx_gpio :: "u32 \<Rightarrow> uart_sys \<Rightarrow> uart_sys" where
  "uart_deinit_tx_gpio i s =
     (if i < UART_ID_MAX then log_call (Gpio_pull_up (uart_ll_get_tx_pin i)) (log_call (Gpio_dev_unmap (uart_ll_get_tx_pin i)) s)
      else s)"

definition uart_deinit_rx_gpio :: "u32 \<Rightarrow> uart_sys \<Rightarrow> uart_sys" where
  "uart_deinit_rx_gpio i s =
     (if i < UART_ID_MAX then log_call (Gpio_pull_up (uart_ll_get_rx_pin i)) (log_call (Gpio_dev_unmap (uart_ll_get_rx_pin i)) s)
      else s)"

definition sys_hal_uart_select_clock :: "u32 \<Rightarrow> uart_src_clk_t \<Rightarrow> uart_sys \<Rightarrow> uart_sys" where
  "sys_hal_uart_select_clock i mode s =
     (let v = (if mode = UART_SCLK_APLL then 1 else 0)
      in if i = UART_ID_0 then s\<lparr>cpu_clk_div_mode1 := set_field 10 1 v (cpu_clk_div_mode1 s)\<rparr>
         else if i = UART_ID_1 then s\<lparr>cpu_clk_div_mode1 := set_field 13 1 v (cpu_clk_div_mode1 s)\<rparr>
         else if i = UART_ID_2 then s\<lparr>cpu_clk_div_mode1 := set_field 16 1 v (cpu_clk_div_mode1 s)\<rparr>
         else s)"

definition sys_hal_uart_select_clock_get :: "u32 \<Rightarrow> uart_sys \<Rightarrow> uart_src_clk_t" where
  "sys_hal_uart_select_clock_get i s =
     (let r = (if i = UART_ID_0 then get_field 10 1 (cpu_clk_div_mode1 s)
               else if i = UART_ID_1 then get_field 13 1 (cpu_clk_div_mode1 s)
               else if i = UART_ID_2 then get_field 13 1 (cpu_clk_div_mode1 s)
               else 0)
      in if r = 0 then UART_SCLK_XTAL_26M else UART_SCLK_APLL)"

section \<open>Starting and stopping a port\<close>

definition uart_id_init_kfifo :: "u32 \<Rightarrow> uart_sys \<Rightarrow> bk_err_t \<times> uart_sys" where
  "uart_id_init_kfifo i s =
     (case s_uart_rx_kfifo s i of
        Some _ \<Rightarrow> (BK_OK, s)
      | None \<Rightarrow>
          let (f, h) = kfifo_alloc CONFIG_KFIFO_SIZE (uart_heap s);
              s = s\<lparr>s_uart_rx_kfifo := (s_uart_rx_kfifo s)(i := f), uart_heap := h\<rparr>
          in (if f = None then BK_ERR_NULL_PARAM else BK_OK, s))"

definition uart_id_deinit_kfifo :: "u32 \<Rightarrow> uart_sys \<Rightarrow> uart_sys" where
  "uart_id_deinit_kfifo i s =
     (let s = (case s_uart_rx_kfifo s i of None \<Rightarrow> s | Some f \<Rightarrow> s\<lparr>uart_heap := kfifo_free f (uart_heap s)\<rparr>)
      in s\<lparr>s_uart_rx_kfifo := (s_uart_rx_kfifo s)(i := None)\<rparr>)"

definition uart_init_sema :: "u32 \<Rightarrow> uart_sys \<Rightarrow> (int \<times> uart_sys) option" where
  "uart_init_sema i s = do {
     (ret, h) \<leftarrow> rtos_init_semaphore False (\<lambda>_. sem_created s (objects_requested s)) 1;
     bk_assert (ret = kNoErr);
     let s = upd_sema i (\<lambda>q. q\<lparr>rx_int_sema := h\<rparr>) s;
     Some (ret, s\<lparr>objects_requested := objects_requested s + 1, objects_live := objects_live s + 1\<rparr>)
   }"

definition uart_id_init_common :: "u32 \<Rightarrow> uart_sys \<Rightarrow> (bk_err_t \<times> uart_sys) option" where
  "uart_id_init_common i s = do {
     let s = uart_clock_enable i s;
     let s = sys_hal_uart_select_clock i UART_SCLK_XTAL_26M s;
     let s = uart_init_gpio i s;
     let (ret, s) = uart_id_init_kfifo i s;
     let s = upd_sema i (\<lambda>q. q\<lparr>rx_blocked := False\<rparr>) s;
     (ret, s) \<leftarrow> (if rx_int_sema (s_uart_sema s i) = None then uart_init_sema i s else Some (ret, s));
     let s = upd_drv i (\<lambda>d. d\<lparr>id_init_bits := id_init_bits d OR 2 ^ unat i\<rparr>) s;
     let s = upd_drv i (\<lambda>d. d\<lparr>id_sw_fifo_enable_bits := id_sw_fifo_enable_bits d OR 2 ^ unat i\<rparr>) s;
     Some (ret, s)
   }"

definition uart_deinit_sema :: "u32 \<Rightarrow> uart_sys \<Rightarrow> uart_sys" where
  "uart_deinit_sema i s =
     (let q = rx_int_sema (s_uart_sema s i);
          s = (if q = None then s else s\<lparr>objects_live := objects_live s - 1\<rparr>)
      in upd_sema i (\<lambda>p. p\<lparr>rx_int_sema := snd (rtos_deinit_semaphore False LOS_OK q)\<rparr>) s)"

definition uart_id_deinit_common :: "u32 \<Rightarrow> uart_sys \<Rightarrow> uart_sys" where
  "uart_id_deinit_common i s =
     (let s = upd_drv i (\<lambda>d. d\<lparr>id_init_bits := id_init_bits d AND NOT (2 ^ unat i)\<rparr>) s;
          s = upd_hw i uart_hal_stop_common s;
          s = upd_hw i uart_ll_reset_config_to_default s;
          s = uart_interrupt_disable i s;
          s = uart_clock_disable i s;
          s = uart_id_deinit_kfifo i s
      in uart_deinit_sema i s)"

definition uart_id_is_sw_fifo_enabled :: "u32 \<Rightarrow> uart_sys \<Rightarrow> bool" where
  "uart_id_is_sw_fifo_enabled i s \<longleftrightarrow> id_sw_fifo_enable_bits (s_uart s i) AND 2 ^ unat i \<noteq> 0"

definition bk_uart_init :: "u32 \<Rightarrow> uart_config_t option \<Rightarrow> uart_sys \<Rightarrow> (bk_err_t \<times> uart_sys) option" where
  "bk_uart_init i config s =
     (if \<not> s_uart_driver_is_init s then Some (BK_ERR_UART_NOT_INIT, s)
      else case config of
        None \<Rightarrow> Some (BK_ERR_NULL_PARAM, s)
      | Some c \<Rightarrow>
          if SOC_UART_ID_NUM_PER_UNIT \<le> i then Some (BK_ERR_UART_INVALID_ID, s)
          else if baud_rate_not_support (baud_rate c) then Some (BK_ERR_UART_BAUD_RATE_NOT_SUPPORT, s)
          else do {
            (_, s) \<leftarrow> uart_id_init_common i s;
            let s = sys_hal_uart_select_clock i (if src_clk c = UART_SCLK_APLL then UART_SCLK_APLL else UART_SCLK_XTAL_26M) s;
            let s = upd_hw i (uart_hal_init_uart c) s;
            Some (BK_OK, upd_hw i uart_hal_start_common s)
          })"

definition bk_uart_deinit :: "u32 \<Rightarrow> uart_sys \<Rightarrow> bk_err_t \<times> uart_sys" where
  "bk_uart_deinit i s = uart_checked i (uart_id_deinit_common i) s"

definition bk_uart_is_in_used :: "u32 \<Rightarrow> uart_sys \<Rightarrow> u8 option" where
  "bk_uart_is_in_used i s =
     (if i < SOC_UART_ID_NUM_PER_UNIT then Some (id_init_bits (s_uart s i) AND 2 ^ unat i) else None)"

section \<open>The console port\<close>

text \<open>
  \<^verbatim>\<open>printf_lock_init\<close> creates a mutex; a failed creation runs into an assertion. The module log levels it resets are
  not modelled.
\<close>

definition printf_is_init :: "uart_sys \<Rightarrow> bool" where
  "printf_is_init s = s_printf_init s"

definition bk_get_printf_port :: "uart_sys \<Rightarrow> u32" where
  "bk_get_printf_port s = ucast (s_print_port s)"

definition printf_lock_init :: "uart_sys \<Rightarrow> (bk_err_t \<times> uart_sys) option" where
  "printf_lock_init s = do {
     bk_assert (mux_created s (objects_requested s));
     Some (BK_OK, s\<lparr>s_printf_lock := True, objects_requested := objects_requested s + 1, objects_live := objects_live s + 1\<rparr>)
   }"

definition printf_lock_deinit :: "uart_sys \<Rightarrow> bk_err_t \<times> uart_sys" where
  "printf_lock_deinit s =
     (let s = (if s_printf_lock s then s\<lparr>objects_live := objects_live s - 1\<rparr> else s)
      in (BK_OK, s\<lparr>s_printf_lock := False\<rparr>))"

definition bk_printf_deinit :: "uart_sys \<Rightarrow> bk_err_t \<times> uart_sys" where
  "bk_printf_deinit s =
     (let s = s\<lparr>s_printf_init := False\<rparr>;
          s = snd (bk_uart_deinit (bk_get_printf_port s) s);
          s = snd (printf_lock_deinit s)
      in (BK_OK, s))"

definition printf_config :: uart_config_t where
  "printf_config = \<lparr>baud_rate = 115200, data_bits = UART_DATA_8_BITS, parity = UART_PARITY_NONE,
     stop_bits = UART_STOP_BITS_1, flow_ctrl = UART_FLOWCTRL_DISABLE, src_clk = UART_SCLK_XTAL_26M\<rparr>"

definition bk_printf_init :: "uart_sys \<Rightarrow> (bk_err_t \<times> uart_sys) option" where
  "bk_printf_init s = do {
     (ret, s) \<leftarrow> printf_lock_init s;
     if ret \<noteq> BK_OK then Some (ret, s)
     else do {
       (ret, s) \<leftarrow> bk_uart_init (bk_get_printf_port s) (Some printf_config) s;
       if ret \<noteq> BK_OK then Some (ret, snd (bk_printf_deinit s))
       else Some (BK_OK, s\<lparr>s_printf_init := True\<rparr>)
     }
   }"

definition bk_set_printf_port :: "u8 \<Rightarrow> uart_sys \<Rightarrow> uart_sys option" where
  "bk_set_printf_port port_num s =
     (if s_print_port s \<noteq> port_num \<and> ucast port_num < UART_ID_MAX then
        let s = snd (bk_printf_deinit s);
            s = s\<lparr>s_print_port := port_num\<rparr>
        in map_option snd (bk_printf_init s)
      else Some s)"

section \<open>Starting and stopping the driver\<close>

definition uart_isr_register_functions :: "u32 \<Rightarrow> uart_sys \<Rightarrow> uart_sys" where
  "uart_isr_register_functions i s =
     (if i = UART_ID_0 then log_call (Int_isr_register INT_SRC_UART1 UART_ID_0) s
      else if i = UART_ID_1 then log_call (Int_isr_register INT_SRC_UART2 UART_ID_1) s
      else if i = UART_ID_2 then log_call (Int_isr_register INT_SRC_UART3 UART_ID_2) s
      else s)"

definition uart_hal_init :: "uart_driver_t \<Rightarrow> uart_driver_t" where
  "uart_hal_init d = d\<lparr>drv_hw := uart_ll_reg_base_select (ucast (drv_id d))\<rparr>"

definition uart_driver_init_id :: "u32 \<Rightarrow> uart_sys \<Rightarrow> uart_sys" where
  "uart_driver_init_id i s =
     (let s = uart_isr_register_functions i s;
          s = upd_drv i (\<lambda>d. d\<lparr>drv_id := ucast i\<rparr>) s
      in upd_drv i uart_hal_init s)"

definition bk_uart_driver_init :: "uart_sys \<Rightarrow> (bk_err_t \<times> uart_sys) option" where
  "bk_uart_driver_init s =
     (if s_uart_driver_is_init s then Some (BK_OK, s)
      else do {
        let s = s\<lparr>s_uart := (\<lambda>_. \<lparr>drv_hw = NULL, drv_id = 0, id_init_bits = 0, id_sw_fifo_enable_bits = 0\<rparr>)\<rparr>;
        let s = s\<lparr>s_uart_rx_isr := (\<lambda>_. \<lparr>uart_callback = NULL, uart_param = NULL\<rparr>)\<rparr>;
        let s = s\<lparr>s_uart_tx_isr := (\<lambda>_. \<lparr>uart_callback = NULL, uart_param = NULL\<rparr>)\<rparr>;
        let s = uart_driver_init_id UART_ID_1 (uart_driver_init_id UART_ID_0 s);
        let s = s\<lparr>s_uart_driver_is_init := True\<rparr>;
        (_, s) \<leftarrow> bk_printf_init s;
        Some (BK_OK, s)
      })"

definition bk_uart_driver_deinit :: "uart_sys \<Rightarrow> bk_err_t \<times> uart_sys" where
  "bk_uart_driver_deinit s =
     (if \<not> s_uart_driver_is_init s then (BK_OK, s)
      else let s = uart_id_deinit_common UART_ID_1 (uart_id_deinit_common UART_ID_0 s)
           in (BK_OK, s\<lparr>s_uart_driver_is_init := False\<rparr>))"

section \<open>Sending\<close>

definition uart_write_byte :: "u32 \<Rightarrow> u8 \<Rightarrow> uart_sys \<Rightarrow> (bk_err_t \<times> uart_sys) option" where
  "uart_write_byte i c s = do {
     hw \<leftarrow> hw_at i s;
     hw \<leftarrow> poll_until uart_ll_is_fifo_write_ready hw;
     Some (BK_OK, set_hw i (uart_ll_write_byte c hw) s)
   }"

text \<open>Writing the elements \<^verbatim>\<open>0..<n\<close> of an array; \<^const>\<open>None\<close> when the array is shorter.\<close>

fun uart_write_n :: "u32 \<Rightarrow> nat \<Rightarrow> u8 list \<Rightarrow> uart_sys \<Rightarrow> uart_sys option" where
  "uart_write_n i 0 xs s = Some s"
| "uart_write_n i (Suc n) [] s = None"
| "uart_write_n i (Suc n) (x # xs) s = do {
     (_, s) \<leftarrow> uart_write_byte i x s;
     uart_write_n i n xs s
   }"

definition uart_write_byte_for_ate :: "u32 \<Rightarrow> u8 list \<Rightarrow> u8 \<Rightarrow> uart_sys \<Rightarrow> uart_sys option" where
  "uart_write_byte_for_ate i xs cnt s = uart_write_n i (unat cnt) xs s"

definition uart_write_ready :: "u32 \<Rightarrow> uart_sys \<Rightarrow> (bk_err_t \<times> uart_sys) option" where
  "uart_write_ready i s = do {
     hw \<leftarrow> hw_at i s;
     let (b, hw) = uart_ll_is_fifo_write_ready hw;
     Some (if b then BK_OK else BK_FAIL, set_hw i hw s)
   }"

text \<open>
  The loop over a string carries the character before the current one, if there is one. A string without a
  terminating NUL has no result.
\<close>

fun uart_write_chars :: "u32 \<Rightarrow> u8 option \<Rightarrow> u8 list \<Rightarrow> uart_sys \<Rightarrow> uart_sys option" where
  "uart_write_chars i before [] s = None"
| "uart_write_chars i before (c # cs) s =
     (if c = 0 then Some s
      else do {
        (_, s) \<leftarrow> (if c = 10 \<and> before \<noteq> Some 13 then uart_write_byte i 13 s else Some (BK_OK, s));
        (_, s) \<leftarrow> uart_write_byte i c s;
        uart_write_chars i (Some c) cs s
      })"

definition uart_write_string :: "u32 \<Rightarrow> u8 list \<Rightarrow> uart_sys \<Rightarrow> (bk_err_t \<times> uart_sys) option" where
  "uart_write_string i str s = map_option (Pair BK_OK) (uart_write_chars i None str s)"

definition bk_uart_write_bytes :: "u32 \<Rightarrow> u8 list \<Rightarrow> u32 \<Rightarrow> uart_sys \<Rightarrow> (bk_err_t \<times> uart_sys) option" where
  "bk_uart_write_bytes i xs sz s =
     (if uart_checks i s \<noteq> BK_OK then Some (uart_checks i s, s)
      else if uart_id_not_init i s then Some (BK_ERR_UART_ID_NOT_INIT, s)
      else map_option (Pair BK_OK) (uart_write_n i (unat sz) xs s))"

text \<open>A buffer of the console is cut at its length by a NUL before it is written.\<close>

definition bk_buf_printf_sync :: "u8 list \<Rightarrow> int \<Rightarrow> uart_sys \<Rightarrow> uart_sys option" where
  "bk_buf_printf_sync buf buf_len s =
     (if \<not> printf_is_init s then Some s
      else if s_printf_enable s = 0 then Some s
      else if buf_len \<le> 0 then Some s
      else if nat buf_len \<le> length buf then
        map_option snd (uart_write_string (bk_get_printf_port s) (buf[nat buf_len - 1 := 0]) s)
      else None)"

section \<open>Receiving\<close>

definition hw_read_byte_ex :: "uart_hw_t \<Rightarrow> u8 option \<times> uart_hw_t" where
  "hw_read_byte_ex hw =
     (let (ready, hw) = uart_ll_is_fifo_read_ready hw
      in if ready then let (c, hw) = uart_ll_read_byte hw in (Some c, hw) else (None, hw))"

definition uart_read_ready :: "u32 \<Rightarrow> uart_sys \<Rightarrow> (bk_err_t \<times> uart_sys) option" where
  "uart_read_ready i s = do {
     hw \<leftarrow> hw_at i s;
     let (b, hw) = uart_ll_is_fifo_read_ready hw;
     Some (if b then BK_OK else BK_FAIL, set_hw i hw s)
   }"

definition uart_read_byte :: "u32 \<Rightarrow> uart_sys \<Rightarrow> (int \<times> uart_sys) option" where
  "uart_read_byte i s = do {
     hw \<leftarrow> hw_at i s;
     let (c, hw) = hw_read_byte_ex hw;
     Some (case c of None \<Rightarrow> - 1 | Some c \<Rightarrow> uint c, set_hw i hw s)
   }"

text \<open>The byte stored through \<^verbatim>\<open>ch\<close>, if any, is part of the result.\<close>

definition uart_read_byte_ex :: "u32 \<Rightarrow> uart_sys \<Rightarrow> (int \<times> u8 option \<times> uart_sys) option" where
  "uart_read_byte_ex i s = do {
     hw \<leftarrow> hw_at i s;
     let (c, hw) = hw_read_byte_ex hw;
     Some (if c = None then - 1 else 0, c, set_hw i hw s)
   }"

definition uart_get_length_in_buffer :: "u32 \<Rightarrow> uart_sys \<Rightarrow> u32 option" where
  "uart_get_length_in_buffer i s =
     (if i < SOC_UART_ID_NUM_PER_UNIT then map_option kfifo_data_size (s_uart_rx_kfifo s i) else None)"

text \<open>
  Moving the bytes of the hardware FIFO to the queue. A byte that finds the queue full is read and dropped; the flow
  control setting only decides whether this is logged.
\<close>

partial_function (option) uart_frame_loop ::
  "kfifo \<Rightarrow> u32 \<Rightarrow> u32 \<Rightarrow> uart_hw_t \<Rightarrow> (u32 \<times> kfifo \<times> uart_hw_t) option" where
  "uart_frame_loop rx unused put_cnt hw =
     (let (ready, hw) = uart_ll_is_fifo_read_ready hw
      in if ready then
           let (read_val, hw) = uart_ll_read_byte hw
           in if 1 > unused then uart_frame_loop rx (kfifo_unused rx) put_cnt hw
              else do {
                (m, rx) \<leftarrow> kfifo_put rx [read_val] 1;
                uart_frame_loop rx (kfifo_unused rx) (put_cnt + m) hw
              }
         else Some (put_cnt, rx, hw))"

definition uart_id_read_fifo_frame :: "kfifo \<Rightarrow> uart_hw_t \<Rightarrow> (u32 \<times> kfifo \<times> uart_hw_t) option" where
  "uart_id_read_fifo_frame rx hw = uart_frame_loop rx (kfifo_unused rx) 0 hw"

text \<open>The two loops that read the hardware FIFO directly: until it is empty, and for a number of bytes at most.\<close>

partial_function (option) uart_drain :: "uart_hw_t \<Rightarrow> uart_hw_t option" where
  "uart_drain hw = (let (c, hw) = hw_read_byte_ex hw in if c = None then Some hw else uart_drain hw)"

fun uart_read_raw :: "nat \<Rightarrow> uart_hw_t \<Rightarrow> u8 list \<times> uart_hw_t" where
  "uart_read_raw 0 hw = ([], hw)"
| "uart_read_raw (Suc n) hw =
     (case hw_read_byte_ex hw of
        (None, hw) \<Rightarrow> ([], hw)
      | (Some c, hw) \<Rightarrow> (let (cs, hw) = uart_read_raw n hw in (c # cs, hw)))"

section \<open>Interrupts\<close>

text \<open>
  What a registered callback does is the parameter \<^verbatim>\<open>run\<close>, applied to its address, the port and its argument.
\<close>

definition call_uart_cb ::
  "(addr \<Rightarrow> u32 \<Rightarrow> addr \<Rightarrow> uart_sys \<Rightarrow> uart_sys) \<Rightarrow> uart_callback_t \<Rightarrow> u32 \<Rightarrow> uart_sys \<Rightarrow> uart_sys" where
  "call_uart_cb run cb i s = (if uart_callback cb \<noteq> NULL then run (uart_callback cb) i (uart_param cb) s else s)"

definition uart_wake_reader :: "los_sem \<Rightarrow> u32 \<Rightarrow> uart_sys \<Rightarrow> uart_sys" where
  "uart_wake_reader K i s =
     (let q = s_uart_sema s i
      in if rx_int_sema q \<noteq> None \<and> rx_blocked q then
           let s = upd_sema i (\<lambda>q. q\<lparr>rx_int_sema := snd (rtos_set_semaphore K (rx_int_sema q))\<rparr>) s
           in upd_sema i (\<lambda>q. q\<lparr>rx_blocked := False\<rparr>) s
         else s)"

definition uart_isr_rx ::
  "los_sem \<Rightarrow> (addr \<Rightarrow> u32 \<Rightarrow> addr \<Rightarrow> uart_sys \<Rightarrow> uart_sys) \<Rightarrow> u32 \<Rightarrow> uart_sys \<Rightarrow> uart_sys option" where
  "uart_isr_rx K run i s =
     (if uart_id_is_sw_fifo_enabled i s then do {
        rx \<leftarrow> s_uart_rx_kfifo s i;
        (n, rx, hw) \<leftarrow> uart_id_read_fifo_frame rx (hw_of i s);
        let s = set_hw i hw (s\<lparr>s_uart_rx_kfifo := (s_uart_rx_kfifo s)(i := Some rx)\<rparr>);
        let s = (if n > 0 then uart_wake_reader K i s else s);
        Some (call_uart_cb run (s_uart_rx_isr s i) i s)
      }
      else if uart_callback (s_uart_rx_isr s i) \<noteq> NULL then Some (call_uart_cb run (s_uart_rx_isr s i) i s)
      else map_option (\<lambda>hw. set_hw i hw s) (uart_drain (hw_of i s)))"

definition uart_isr_common ::
  "los_sem \<Rightarrow> (addr \<Rightarrow> u32 \<Rightarrow> addr \<Rightarrow> uart_sys \<Rightarrow> uart_sys) \<Rightarrow> u32 \<Rightarrow> uart_sys \<Rightarrow> uart_sys option" where
  "uart_isr_common K run i s = do {
     hw \<leftarrow> hw_at i s;
     let (int_st, hw) = uart_ll_get_interrupt_status hw;
     let status = int_st AND uart_ll_get_int_enable_status hw;
     let s = set_hw i (uart_ll_clear_interrupt_status int_st hw) s;
     s \<leftarrow> (if uart_ll_is_rx_interrupt_triggered status then uart_isr_rx K run i s else Some s);
     let s = (if uart_ll_is_tx_interrupt_triggered status then call_uart_cb run (s_uart_tx_isr s i) i s else s);
     Some (if uart_ll_is_rx_parity_err_int_triggered status then upd_hw i uart_hal_flush_fifo s else s)
   }"

definition uart0_isr ::
  "los_sem \<Rightarrow> (addr \<Rightarrow> u32 \<Rightarrow> addr \<Rightarrow> uart_sys \<Rightarrow> uart_sys) \<Rightarrow> uart_sys \<Rightarrow> uart_sys option" where
  "uart0_isr K run s = uart_isr_common K run UART_ID_0 s"

definition uart1_isr ::
  "los_sem \<Rightarrow> (addr \<Rightarrow> u32 \<Rightarrow> addr \<Rightarrow> uart_sys \<Rightarrow> uart_sys) \<Rightarrow> uart_sys \<Rightarrow> uart_sys option" where
  "uart1_isr K run s = uart_isr_common K run UART_ID_1 s"

definition uart2_isr ::
  "los_sem \<Rightarrow> (addr \<Rightarrow> u32 \<Rightarrow> addr \<Rightarrow> uart_sys \<Rightarrow> uart_sys) \<Rightarrow> uart_sys \<Rightarrow> uart_sys option" where
  "uart2_isr K run s = uart_isr_common K run UART_ID_2 s"

end
