(* ===== verification/Uart_Api.thy ===== *)
theory Uart_Api
  imports Uart
begin

text \<open>
  The rest of the functions of \<^verbatim>\<open>uart_driver.c\<close>: settings, interrupt control, callbacks, and the blocking
  read, which runs concurrently with the interrupt handler.
\<close>

section \<open>Settings\<close>

definition bk_uart_set_baud_rate :: "u32 \<Rightarrow> u32 \<Rightarrow> uart_sys \<Rightarrow> bk_err_t \<times> uart_sys" where
  "bk_uart_set_baud_rate i rate s =
     (if uart_checks i s \<noteq> BK_OK then (uart_checks i s, s)
      else if baud_rate_not_support rate then (BK_ERR_UART_BAUD_RATE_NOT_SUPPORT, s)
      else (BK_OK, upd_hw i (uart_hal_set_baud_rate (sys_hal_uart_select_clock_get i s) rate) s))"

definition bk_uart_set_data_bits :: "u32 \<Rightarrow> u32 \<Rightarrow> uart_sys \<Rightarrow> bk_err_t \<times> uart_sys" where
  "bk_uart_set_data_bits i v = uart_checked i (upd_hw i (uart_ll_set_data_bits v))"

definition bk_uart_set_stop_bits :: "u32 \<Rightarrow> u32 \<Rightarrow> uart_sys \<Rightarrow> bk_err_t \<times> uart_sys" where
  "bk_uart_set_stop_bits i v = uart_checked i (upd_hw i (uart_ll_set_stop_bits v))"

definition bk_uart_set_parity :: "u32 \<Rightarrow> uart_parity_t \<Rightarrow> uart_sys \<Rightarrow> bk_err_t \<times> uart_sys" where
  "bk_uart_set_parity i p = uart_checked i (upd_hw i (uart_hal_set_parity p))"

definition bk_uart_enable_tx_interrupt :: "u32 \<Rightarrow> uart_sys \<Rightarrow> bk_err_t \<times> uart_sys" where
  "bk_uart_enable_tx_interrupt i =
     uart_checked i (\<lambda>s. upd_hw i uart_ll_enable_tx_interrupt (uart_interrupt_enable i s))"

definition bk_uart_disable_tx_interrupt :: "u32 \<Rightarrow> uart_sys \<Rightarrow> bk_err_t \<times> uart_sys" where
  "bk_uart_disable_tx_interrupt i =
     uart_checked i (\<lambda>s. upd_hw i uart_ll_clear_id_tx_interrupt_status (upd_hw i uart_ll_disable_tx_interrupt s))"

definition bk_uart_enable_rx_interrupt :: "u32 \<Rightarrow> uart_sys \<Rightarrow> bk_err_t \<times> uart_sys" where
  "bk_uart_enable_rx_interrupt i =
     uart_checked i (\<lambda>s. upd_hw i uart_ll_enable_rx_interrupt (uart_interrupt_enable i s))"

definition bk_uart_disable_rx_interrupt :: "u32 \<Rightarrow> uart_sys \<Rightarrow> bk_err_t \<times> uart_sys" where
  "bk_uart_disable_rx_interrupt i =
     uart_checked i (\<lambda>s. upd_hw i uart_ll_clear_id_rx_interrupt_status (upd_hw i uart_ll_disable_rx_interrupt s))"

definition bk_uart_set_rx_full_threshold :: "u32 \<Rightarrow> u8 \<Rightarrow> uart_sys \<Rightarrow> bk_err_t \<times> uart_sys" where
  "bk_uart_set_rx_full_threshold i v = uart_checked i (upd_hw i (uart_ll_set_rx_fifo_threshold (ucast v)))"

definition bk_uart_set_tx_empty_threshold :: "u32 \<Rightarrow> u8 \<Rightarrow> uart_sys \<Rightarrow> bk_err_t \<times> uart_sys" where
  "bk_uart_set_tx_empty_threshold i v = uart_checked i (upd_hw i (uart_ll_set_tx_fifo_threshold (ucast v)))"

definition bk_uart_set_rx_timeout :: "u32 \<Rightarrow> u32 \<Rightarrow> uart_sys \<Rightarrow> bk_err_t \<times> uart_sys" where
  "bk_uart_set_rx_timeout i v = uart_checked i (upd_hw i (uart_ll_set_rx_stop_detect_time v))"

definition bk_uart_disable_rx :: "u32 \<Rightarrow> uart_sys \<Rightarrow> bk_err_t \<times> uart_sys" where
  "bk_uart_disable_rx i = uart_checked i (\<lambda>s. uart_deinit_rx_gpio i (upd_hw i uart_ll_disable_rx s))"

definition bk_uart_disable_tx :: "u32 \<Rightarrow> uart_sys \<Rightarrow> bk_err_t \<times> uart_sys" where
  "bk_uart_disable_tx i = uart_checked i (\<lambda>s. uart_deinit_tx_gpio i (upd_hw i uart_ll_disable_tx s))"

definition bk_uart_set_enable_rx :: "u32 \<Rightarrow> bool \<Rightarrow> uart_sys \<Rightarrow> bk_err_t \<times> uart_sys" where
  "bk_uart_set_enable_rx i b = uart_checked i (upd_hw i (uart_ll_set_rx_enable (of_bool b)))"

definition bk_uart_set_enable_tx :: "u32 \<Rightarrow> bool \<Rightarrow> uart_sys \<Rightarrow> bk_err_t \<times> uart_sys" where
  "bk_uart_set_enable_tx i b = uart_checked i (upd_hw i (uart_ll_set_tx_enable (of_bool b)))"

definition bk_uart_set_hw_flow_ctrl :: "u32 \<Rightarrow> u8 \<Rightarrow> uart_sys \<Rightarrow> bk_err_t \<times> uart_sys" where
  "bk_uart_set_hw_flow_ctrl i v =
     uart_checked i (\<lambda>s. upd_hw i uart_ll_enable_flow_control (upd_hw i (uart_hal_set_hw_flow_ctrl v) s))"

definition bk_uart_disable_hw_flow_ctrl :: "u32 \<Rightarrow> uart_sys \<Rightarrow> bk_err_t \<times> uart_sys" where
  "bk_uart_disable_hw_flow_ctrl i = uart_checked i (upd_hw i uart_hal_disable_hw_flow_ctrl)"

definition bk_uart_enable_sw_fifo :: "u32 \<Rightarrow> uart_sys \<Rightarrow> bk_err_t \<times> uart_sys" where
  "bk_uart_enable_sw_fifo i s =
     (if SOC_UART_ID_NUM_PER_UNIT \<le> i then (BK_ERR_UART_INVALID_ID, s)
      else (BK_OK, upd_drv i (\<lambda>d. d\<lparr>id_sw_fifo_enable_bits := id_sw_fifo_enable_bits d OR 2 ^ unat i\<rparr>) s))"

definition bk_uart_disable_sw_fifo :: "u32 \<Rightarrow> uart_sys \<Rightarrow> bk_err_t \<times> uart_sys" where
  "bk_uart_disable_sw_fifo i s =
     (if SOC_UART_ID_NUM_PER_UNIT \<le> i then (BK_ERR_UART_INVALID_ID, s)
      else (BK_OK, upd_drv i (\<lambda>d. d\<lparr>id_sw_fifo_enable_bits := id_sw_fifo_enable_bits d AND NOT (2 ^ unat i)\<rparr>) s))"

definition bk_uart_get_ate_detect_gpio :: u32 where
  "bk_uart_get_ate_detect_gpio = uart_ll_get_tx_pin UART_ID_0"

definition uart_wait_tx_over :: "uart_sys \<Rightarrow> (u32 \<times> uart_sys) option" where
  "uart_wait_tx_over s = do {
     let (b1, b2) = (uart_ll_reg_base_select 0, uart_ll_reg_base_select 1);
     (us, hw1, hw2) \<leftarrow> uart_ll_wait_tx_over (uart_regs s b1) (uart_regs s b2);
     Some (us, s\<lparr>uart_regs := (uart_regs s)(b1 := hw1, b2 := hw2)\<rparr>)
   }"

definition uart_get_int_enable_status :: "u32 \<Rightarrow> uart_sys \<Rightarrow> u32 option" where
  "uart_get_int_enable_status i s = map_option uart_ll_get_int_enable_status (hw_at i s)"

definition uart_get_interrupt_status :: "u32 \<Rightarrow> uart_sys \<Rightarrow> (u32 \<times> uart_sys) option" where
  "uart_get_interrupt_status i s = do {
     hw \<leftarrow> hw_at i s;
     let (v, hw) = uart_ll_get_interrupt_status hw;
     Some (v, set_hw i hw s)
   }"

definition uart_clear_interrupt_status :: "u32 \<Rightarrow> u32 \<Rightarrow> uart_sys \<Rightarrow> uart_sys option" where
  "uart_clear_interrupt_status i v s = do {
     hw \<leftarrow> hw_at i s;
     Some (set_hw i (uart_ll_clear_interrupt_status v hw) s)
   }"

section \<open>Callbacks\<close>

definition bk_uart_register_rx_isr :: "u32 \<Rightarrow> addr \<Rightarrow> addr \<Rightarrow> uart_sys \<Rightarrow> bk_err_t \<times> uart_sys" where
  "bk_uart_register_rx_isr i isr param =
     uart_checked i (\<lambda>s. s\<lparr>s_uart_rx_isr := (s_uart_rx_isr s)(i := \<lparr>uart_callback = isr, uart_param = param\<rparr>)\<rparr>)"

definition bk_uart_register_tx_isr :: "u32 \<Rightarrow> addr \<Rightarrow> addr \<Rightarrow> uart_sys \<Rightarrow> bk_err_t \<times> uart_sys" where
  "bk_uart_register_tx_isr i isr param =
     uart_checked i (\<lambda>s. s\<lparr>s_uart_tx_isr := (s_uart_tx_isr s)(i := \<lparr>uart_callback = isr, uart_param = param\<rparr>)\<rparr>)"

text \<open>Taking over the receiver reads the table before any check of the port.\<close>

definition bk_uart_take_rx_isr :: "u32 \<Rightarrow> addr \<Rightarrow> addr \<Rightarrow> uart_sys \<Rightarrow> (bk_err_t \<times> uart_sys) option" where
  "bk_uart_take_rx_isr i isr param s =
     (if SOC_UART_ID_NUM_PER_UNIT \<le> i then None
      else let s = s\<lparr>s_last_uart_rx_isr := s_uart_rx_isr s i\<rparr>;
               (e, s) = bk_uart_disable_sw_fifo i s
           in if e \<noteq> BK_OK then Some (e, s) else Some (bk_uart_register_rx_isr i isr param s))"

definition bk_uart_recover_rx_isr :: "u32 \<Rightarrow> uart_sys \<Rightarrow> bk_err_t \<times> uart_sys" where
  "bk_uart_recover_rx_isr i s =
     (let (_, s) = bk_uart_register_rx_isr i (uart_callback (s_last_uart_rx_isr s)) (uart_param (s_last_uart_rx_isr s)) s;
          s = (if i \<noteq> bk_get_printf_port s then snd (bk_uart_enable_sw_fifo i s) else s)
      in (BK_OK, s\<lparr>s_last_uart_rx_isr := \<lparr>uart_callback = NULL, uart_param = NULL\<rparr>\<rparr>))"

section \<open>The blocking read\<close>

text \<open>
  Interrupts may come wherever the code has not masked them: while it waits for the semaphore (point 0), between a wait
  that timed out and the masking after it (point 1), and before and after it looks at the size of the queue
  (points 2 and 3). What happens at these points is the parameter \<^verbatim>\<open>env\<close>. The bytes stored through
  \<^verbatim>\<open>data\<close> are part of the result.
\<close>

definition uart_read_take ::
  "(nat \<Rightarrow> uart_sys \<Rightarrow> uart_sys option) \<Rightarrow> u32 \<Rightarrow> u32 \<Rightarrow> uart_sys \<Rightarrow> (int \<times> u8 list \<times> uart_sys) option" where
  "uart_read_take env i sz s = do {
     s \<leftarrow> env 2 s;
     len \<leftarrow> map_option kfifo_data_size (s_uart_rx_kfifo s i);
     s \<leftarrow> env 3 s;
     if sz > len \<and> len = 0 then Some (0, [], s)
     else do {
       let n = (if sz > len then len else sz);
       rx \<leftarrow> s_uart_rx_kfifo s i;
       (_, ys, rx) \<leftarrow> kfifo_get rx n;
       Some (uint n, ys, s\<lparr>s_uart_rx_kfifo := (s_uart_rx_kfifo s)(i := Some rx)\<rparr>)
     }
   }"

definition uart_read_timed_out :: "los_sem \<Rightarrow> u32 \<Rightarrow> uart_sys \<Rightarrow> uart_sys option" where
  "uart_read_timed_out K i s = do {
     s \<leftarrow> (if \<not> rx_blocked (s_uart_sema s i) then do {
              (_, h) \<leftarrow> rtos_get_semaphore K False (rx_int_sema (s_uart_sema s i)) 0;
              Some (upd_sema i (\<lambda>q. q\<lparr>rx_int_sema := h\<rparr>) s)
            }
            else Some s);
     Some (upd_sema i (\<lambda>q. q\<lparr>rx_blocked := False\<rparr>) s)
   }"

definition uart_read_wait ::
  "los_sem \<Rightarrow> (nat \<Rightarrow> uart_sys \<Rightarrow> uart_sys option) \<Rightarrow> u32 \<Rightarrow> u32 \<Rightarrow> u32 \<Rightarrow> uart_sys \<Rightarrow> (int \<times> u8 list \<times> uart_sys) option" where
  "uart_read_wait K env i sz timeout_ms s = do {
     let s = upd_sema i (\<lambda>q. q\<lparr>rx_blocked := True\<rparr>) s;
     s \<leftarrow> env 0 s;
     (ret, h) \<leftarrow> rtos_get_semaphore K False (rx_int_sema (s_uart_sema s i)) timeout_ms;
     let s = upd_sema i (\<lambda>q. q\<lparr>rx_int_sema := h\<rparr>) s;
     if ret = kTimeoutErr then do {
       s \<leftarrow> env 1 s;
       s \<leftarrow> uart_read_timed_out K i s;
       Some (BK_ERR_UART_RX_TIMEOUT, [], s)
     }
     else uart_read_take env i sz s
   }"

definition bk_uart_read_bytes ::
  "los_sem \<Rightarrow> (nat \<Rightarrow> uart_sys \<Rightarrow> uart_sys option) \<Rightarrow> u32 \<Rightarrow> u32 \<Rightarrow> u32 \<Rightarrow> uart_sys \<Rightarrow> (int \<times> u8 list \<times> uart_sys) option" where
  "bk_uart_read_bytes K env i sz timeout_ms s =
     (if uart_checks i s \<noteq> BK_OK then Some (uart_checks i s, [], s)
      else if uart_id_not_init i s then Some (BK_ERR_UART_ID_NOT_INIT, [], s)
      else if uart_id_is_sw_fifo_enabled i s then do {
        len \<leftarrow> map_option kfifo_data_size (s_uart_rx_kfifo s i);
        if len = 0 then uart_read_wait K env i sz timeout_ms s else uart_read_take env i sz s
      }
      else let (ys, hw) = uart_read_raw (unat sz) (hw_of i s) in Some (int (length ys), ys, set_hw i hw s))"

end
