(* ===== verification/Uart_Rx.thy ===== *)
theory Uart_Rx
  imports Uart_Api "HOL-Library.Sublist"
begin

text \<open>
  The receive path of the UART driver end to end: the bytes the hardware hands over, the interrupt handler
  that moves them to the queue, and the reader that takes them out, with interrupts at any point of a read.
\<close>

section \<open>Frames\<close>

text \<open>
  Whether the \<^verbatim>\<open>k\<close>-th next read of the FIFO status finds a byte, and the bytes that the reads \<^verbatim>\<open>a\<close> to \<^verbatim>\<open>b\<close> of the port give.
\<close>

definition rd_ready :: "uart_hw_t \<Rightarrow> nat \<Rightarrow> bool" where
  "rd_ready hw k \<longleftrightarrow> get_field 21 1 (fifo_status hw (fifo_status_reads hw + k)) \<noteq> 0"

definition port_bytes :: "uart_hw_t \<Rightarrow> nat \<Rightarrow> nat \<Rightarrow> u8 list" where
  "port_bytes hw a b = map (\<lambda>k. ucast (get_field 8 8 (fifo_port hw k))) [a..<b]"

lemma length_port_bytes [simp]: "length (port_bytes hw a b) = b - a"
  by (simp add: port_bytes_def)

lemma port_bytes_append: "a \<le> b \<Longrightarrow> b \<le> c \<Longrightarrow> port_bytes hw a b @ port_bytes hw b c = port_bytes hw a c"
  using upt_add_eq_append [of a b "c - b"] by (simp add: port_bytes_def flip: map_append)

lemma port_bytes_Cons: "a < b \<Longrightarrow> port_bytes hw a b = ucast (get_field 8 8 (fifo_port hw a)) # port_bytes hw (Suc a) b"
  by (simp add: port_bytes_def upt_conv_Cons)

lemma port_bytes_same [simp]: "port_bytes hw a a = []"
  by (simp add: port_bytes_def)

lemma port_bytes_cong: "fifo_port hw = fifo_port hw' \<Longrightarrow> port_bytes hw a b = port_bytes hw' a b"
  by (simp add: port_bytes_def)

text \<open>The registers after a number of reads of the status and of the port.\<close>

definition skip_reads :: "nat \<Rightarrow> nat \<Rightarrow> uart_hw_t \<Rightarrow> uart_hw_t" where
  "skip_reads n m hw = hw\<lparr>fifo_status_reads := fifo_status_reads hw + n, fifo_port_reads := fifo_port_reads hw + m\<rparr>"

lemma skip_reads_simps [simp]:
  "fifo_status_reads (skip_reads n m hw) = fifo_status_reads hw + n"
  "fifo_port_reads (skip_reads n m hw) = fifo_port_reads hw + m"
  "fifo_status (skip_reads n m hw) = fifo_status hw" "fifo_port (skip_reads n m hw) = fifo_port hw"
  "int_enable (skip_reads n m hw) = int_enable hw" "int_status (skip_reads n m hw) = int_status hw"
  "skip_reads n m (skip_reads n' m' hw) = skip_reads (n' + n) (m' + m) hw"
  "port_bytes (skip_reads n m hw) = port_bytes hw"
  by (simp_all add: skip_reads_def port_bytes_def fun_eq_iff add.assoc)

lemma rd_ready_skip [simp]: "rd_ready (skip_reads n m hw) k = rd_ready hw (n + k)"
  by (simp add: rd_ready_def add.assoc)

lemma is_fifo_read_ready: "uart_ll_is_fifo_read_ready hw = (rd_ready hw 0, skip_reads 1 0 hw)"
  by (simp add: uart_ll_is_fifo_read_ready_def read_fifo_status_def rd_ready_def skip_reads_def)

lemma read_byte:
  "uart_ll_read_byte hw = (ucast (get_field 8 8 (fifo_port hw (fifo_port_reads hw))), skip_reads 0 1 hw)"
  by (simp add: uart_ll_read_byte_def read_fifo_port_def skip_reads_def)

lemmas hw_reads = is_fifo_read_ready read_byte

definition room :: "kfifo \<Rightarrow> nat" where
  "room f = length (f_buffer f) - length (contents f)"

lemma kfifo_unused_room: "kfifo_ok f \<Longrightarrow> unat (kfifo_unused f) = room f"
proof -
  assume ok: "kfifo_ok f"
  note shape = fifo_shape [OF ok refl]
  have "f_size f - 1 + 1 = f_size f" "f_size f - (f_in f - f_out f) = f_size f - f_in f + f_out f" by simp_all
  then show ?thesis
    using shape(7) by (simp only: kfifo_unused_def shape(1,2) contents_def length_ring room_def)
qed

text \<open>
  The loop over a frame of \<^verbatim>\<open>n\<close> bytes, that is when the status says for \<^verbatim>\<open>n\<close> reads that there is a byte and then
  that there is none.
\<close>

lemma frame_loop_stop:
  "\<not> rd_ready hw 0 \<Longrightarrow> uart_frame_loop rx u c hw = Some (c, rx, skip_reads 1 0 hw)"
  by (subst uart_frame_loop.simps) (simp add: hw_reads)

lemma frame_loop_full:
  assumes "rd_ready hw 0" "kfifo_ok rx" "room rx = 0"
  shows "uart_frame_loop rx (kfifo_unused rx) c hw = uart_frame_loop rx (kfifo_unused rx) c (skip_reads 1 1 hw)"
proof -
  have "kfifo_unused rx = 0" using kfifo_unused_room [OF assms(2)] assms(3) by (simp add: unat_eq_zero)
  then show ?thesis using assms(1) by (subst uart_frame_loop.simps) (simp add: hw_reads)
qed

lemma frame_loop_put:
  assumes "rd_ready hw 0" "kfifo_ok rx" "0 < room rx"
  obtains rx' where
    "uart_frame_loop rx (kfifo_unused rx) c hw = uart_frame_loop rx' (kfifo_unused rx') (c + 1) (skip_reads 1 1 hw)"
    "kfifo_ok rx'" "length (f_buffer rx') = length (f_buffer rx)"
    "contents rx' = contents rx @ port_bytes hw (fifo_port_reads hw) (fifo_port_reads hw + 1)"
proof -
  let ?x = "ucast (get_field 8 8 (fifo_port hw (fifo_port_reads hw))) :: u8"
  obtain m rx' where put: "kfifo_put rx [?x] 1 = Some (m, rx')" "kfifo_ok rx'"
      "unat m = min (unat (1 :: u32)) (room rx)" "contents rx' = contents rx @ take (unat m) [?x]"
      "length (f_buffer rx') = length (f_buffer rx)"
    using kf.put_spec [OF assms(2), of 1 "[?x]"] by (auto simp: room_def)
  have m1: "unat m = 1" using put(3) assms(3) by simp
  then have m: "m = 1" by (simp add: word_unat_eq_iff)
  have "kfifo_unused rx \<noteq> 0" using kfifo_unused_room [OF assms(2)] assms(3) by auto
  then have "\<not> kfifo_unused rx < 1" by (simp add: word_less_1)
  then have "uart_frame_loop rx (kfifo_unused rx) c hw = uart_frame_loop rx' (kfifo_unused rx') (c + 1) (skip_reads 1 1 hw)"
    using assms(1) put(1) m by (subst uart_frame_loop.simps) (simp add: hw_reads)
  moreover have "port_bytes hw (fifo_port_reads hw) (fifo_port_reads hw + 1) = [?x]"
    by (simp add: port_bytes_Cons)
  ultimately show ?thesis using that put m1 by simp
qed

lemma frame_loop_spec:
  assumes "kfifo_ok rx" "\<forall>k < n. rd_ready hw k" "\<not> rd_ready hw n"
  shows "\<exists>rx'. uart_frame_loop rx (kfifo_unused rx) c hw =
      Some (c + of_nat (min n (room rx)), rx', skip_reads (Suc n) n hw) \<and> kfifo_ok rx' \<and>
    length (f_buffer rx') = length (f_buffer rx) \<and>
    contents rx' = contents rx @ take (room rx) (port_bytes hw (fifo_port_reads hw) (fifo_port_reads hw + n))"
  using assms
proof (induction n arbitrary: rx hw c)
  case 0
  then show ?case by (simp add: frame_loop_stop)
next
  case (Suc n)
  let ?p = "fifo_port_reads hw" and ?hw = "skip_reads 1 1 hw"
  have rest: "\<forall>k < n. rd_ready ?hw k" "\<not> rd_ready ?hw n" using Suc.prems by simp_all
  have first: "rd_ready hw 0" using Suc.prems by simp
  show ?case
  proof (cases "room rx = 0")
    case True
    from Suc.IH [OF Suc.prems(1) rest] True frame_loop_full [OF first Suc.prems(1) True] show ?thesis
      by simp
  next
    case False
    then obtain rx1 where
      1: "uart_frame_loop rx (kfifo_unused rx) c hw = uart_frame_loop rx1 (kfifo_unused rx1) (c + 1) ?hw"
        "kfifo_ok rx1" "length (f_buffer rx1) = length (f_buffer rx)"
        "contents rx1 = contents rx @ port_bytes hw ?p (?p + 1)"
      using frame_loop_put [OF first Suc.prems(1)] by auto
    have room1: "room rx1 = room rx - 1" using 1(3,4) by (simp add: room_def)
    have bytes: "port_bytes hw ?p (?p + Suc n) = port_bytes hw ?p (?p + 1) @ port_bytes hw (?p + 1) (?p + 1 + n)"
      by (simp add: port_bytes_append)
    have count: "min (Suc n) (room rx) = Suc (min n (room rx - 1))" using False by simp
    have take: "take (room rx) (port_bytes hw ?p (?p + Suc n)) =
        port_bytes hw ?p (?p + 1) @ take (room rx - 1) (port_bytes hw (?p + 1) (?p + 1 + n))"
      unfolding bytes using False by simp
    from Suc.IH [OF 1(2) rest, of "c + 1"] obtain rx' where
      2: "uart_frame_loop rx1 (kfifo_unused rx1) (c + 1) ?hw =
          Some (c + 1 + of_nat (min n (room rx1)), rx', skip_reads (Suc n) n ?hw)" "kfifo_ok rx'"
        "length (f_buffer rx') = length (f_buffer rx1)"
        "contents rx' = contents rx1 @ take (room rx1) (port_bytes hw (?p + 1) (?p + 1 + n))"
      by auto
    show ?thesis
    proof (intro exI conjI)
      show "uart_frame_loop rx (kfifo_unused rx) c hw =
          Some (c + of_nat (min (Suc n) (room rx)), rx', skip_reads (Suc (Suc n)) (Suc n) hw)"
        unfolding 1(1) 2(1) count room1 by (simp add: add_ac)
      show "kfifo_ok rx'" by (rule 2(2))
      show "length (f_buffer rx') = length (f_buffer rx)" using 1(3) 2(3) by simp
      show "contents rx' = contents rx @ take (room rx) (port_bytes hw ?p (?p + Suc n))"
        unfolding 2(4) 1(4) take room1 by simp
    qed
  qed
qed

text \<open>The loop that discards a frame.\<close>

lemma drain_spec:
  "\<forall>k < n. rd_ready hw k \<Longrightarrow> \<not> rd_ready hw n \<Longrightarrow> uart_drain hw = Some (skip_reads (Suc n) n hw)"
proof (induction n arbitrary: hw)
  case 0
  then show ?case by (subst uart_drain.simps) (simp add: hw_read_byte_ex_def hw_reads)
next
  case (Suc n)
  have "uart_drain hw = uart_drain (skip_reads 1 1 hw)"
    using Suc.prems(1) by (subst uart_drain.simps) (simp add: hw_read_byte_ex_def hw_reads)
  also have "\<dots> = Some (skip_reads (Suc n) n (skip_reads 1 1 hw))" by (rule Suc.IH) (use Suc.prems in simp_all)
  finally show ?case by simp
qed

text \<open>The loop returns only when the status says at some point that there is no byte.\<close>

lemma frame_loop_ends:
  assumes "uart_frame_loop rx u c hw = Some r"
  shows "\<exists>n. \<not> rd_ready hw n"
proof (rule uart_frame_loop.raw_induct [where P = "\<lambda>rx u c hw r. \<exists>n. \<not> rd_ready hw n", OF _ assms], goal_cases)
  case (1 loop rx u c hw r)
  show ?case
  proof (cases "rd_ready hw 0")
    case True
    with 1(2) obtain rx' u' c' where "loop rx' u' c' (skip_reads 1 1 hw) = Some r"
      by (auto simp: hw_reads bind_eq_Some_conv split: if_splits)
    from 1(1) [OF this] show ?thesis by auto
  qed blast
qed

lemma frame_exists:
  assumes "\<not> rd_ready hw m"
  obtains n where "\<forall>k < n. rd_ready hw k" "\<not> rd_ready hw n"
  using exists_least_iff [of "\<lambda>n. \<not> rd_ready hw n"] assms by blast

section \<open>The receiver of a port\<close>

text \<open>
  A port that is in use: the driver is started, the port's registers, flags and queue are in place. The
  bytes held for it, and the bytes the hardware has handed over between two states.
\<close>

definition uart_live :: "u32 \<Rightarrow> uart_sys \<Rightarrow> bool" where
  "uart_live i s \<longleftrightarrow> i < SOC_UART_ID_NUM_PER_UNIT \<and> s_uart_driver_is_init s \<and> drv_hw (s_uart s i) \<noteq> NULL \<and>
     \<not> uart_id_not_init i s \<and> uart_id_is_sw_fifo_enabled i s \<and>
     (case s_uart_rx_kfifo s i of None \<Rightarrow> False | Some f \<Rightarrow> kfifo_ok f \<and> length (f_buffer f) = unat CONFIG_KFIFO_SIZE)"

definition held :: "u32 \<Rightarrow> uart_sys \<Rightarrow> u8 list" where
  "held i s = (case s_uart_rx_kfifo s i of None \<Rightarrow> [] | Some f \<Rightarrow> contents f)"

definition received :: "u32 \<Rightarrow> uart_sys \<Rightarrow> uart_sys \<Rightarrow> u8 list" where
  "received i s s' = port_bytes (hw_of i s) (fifo_port_reads (hw_of i s)) (fifo_port_reads (hw_of i s'))"

text \<open>
  What the receive path of a port depends on. A callback that leaves this alone is called quiet. The
  hardware is taken to run out of bytes again and again: a status that reports a byte at every read keeps
  the interrupt handler in its loop.
\<close>

definition rx_core ::
  "u32 \<Rightarrow> uart_sys \<Rightarrow> bool \<times> uart_driver_t \<times> kfifo option \<times> uart_sema_t \<times> (nat \<Rightarrow> u32) \<times> (nat \<Rightarrow> u32) \<times> nat" where
  "rx_core i s = (s_uart_driver_is_init s, s_uart s i, s_uart_rx_kfifo s i, s_uart_sema s i,
     fifo_status (hw_of i s), fifo_port (hw_of i s), fifo_port_reads (hw_of i s))"

definition quiet :: "u32 \<Rightarrow> (addr \<Rightarrow> u32 \<Rightarrow> addr \<Rightarrow> uart_sys \<Rightarrow> uart_sys) \<Rightarrow> bool" where
  "quiet i run \<longleftrightarrow> (\<forall>a j p s. rx_core i (run a j p s) = rx_core i s)"

definition rx_pauses :: "uart_hw_t \<Rightarrow> bool" where
  "rx_pauses hw \<longleftrightarrow> (\<forall>k. \<exists>n \<ge> k. get_field 21 1 (fifo_status hw n) = 0)"

definition wake :: "los_sem \<Rightarrow> uart_sema_t \<Rightarrow> uart_sema_t" where
  "wake K q =
     (if rx_int_sema q \<noteq> None \<and> rx_blocked q
      then q\<lparr>rx_int_sema := snd (rtos_set_semaphore K (rx_int_sema q)), rx_blocked := False\<rparr> else q)"

lemma wake_wake [simp]: "wake K (wake K q) = wake K q"
  by (simp add: wake_def)

text \<open>
  Progress of the receiver from one state to a later one, with no reader in between: the queue takes the bytes received
  as far as it has room, and the reader is woken when it has taken any.
\<close>

definition rx_progress :: "los_sem \<Rightarrow> u32 \<Rightarrow> uart_sys \<Rightarrow> uart_sys \<Rightarrow> bool" where
  "rx_progress K i s s' \<longleftrightarrow>
     uart_live i s' \<and> fifo_status (hw_of i s') = fifo_status (hw_of i s) \<and> fifo_port (hw_of i s') = fifo_port (hw_of i s) \<and>
     fifo_port_reads (hw_of i s) \<le> fifo_port_reads (hw_of i s') \<and>
     held i s' = take (unat CONFIG_KFIFO_SIZE) (held i s @ received i s s') \<and>
     s_uart_sema s' i = (if length (held i s) < length (held i s') then wake K (s_uart_sema s i) else s_uart_sema s i)"

lemma uart_live_core:
  "rx_core i s' = rx_core i s \<Longrightarrow> uart_live i s' = uart_live i s"
  by (simp add: uart_live_def rx_core_def uart_id_not_init_def uart_id_is_sw_fifo_enabled_def)

lemma held_bound: "uart_live i s \<Longrightarrow> length (held i s) \<le> unat CONFIG_KFIFO_SIZE"
  using kf.held_bound by (fastforce simp: uart_live_def held_def split: option.splits)

lemma progress_core:
  assumes "uart_live i s" "rx_core i s' = rx_core i s"
  shows "rx_progress K i s s'"
  using assms uart_live_core [OF assms(2)] held_bound [OF assms(1)]
  by (simp add: rx_progress_def rx_core_def held_def received_def)

lemma progress_mono:
  "uart_live i s \<Longrightarrow> rx_progress K i s s' \<Longrightarrow> length (held i s) \<le> length (held i s')"
  using held_bound [of i s] by (simp add: rx_progress_def)

lemma progress_trans:
  assumes "uart_live i s" "rx_progress K i s s'" "rx_progress K i s' s''"
  shows "rx_progress K i s s''"
proof -
  let ?r = "\<lambda>s. fifo_port_reads (hw_of i s)"
  have r: "?r s \<le> ?r s'" "?r s' \<le> ?r s''" and port: "fifo_port (hw_of i s') = fifo_port (hw_of i s)"
    using assms by (simp_all add: rx_progress_def)
  have split: "received i s s'' = received i s s' @ received i s' s''"
    unfolding received_def port_bytes_cong [OF port] by (rule port_bytes_append [OF r, symmetric])
  have held: "held i s' = take (unat CONFIG_KFIFO_SIZE) (held i s @ received i s s')"
    "held i s'' = take (unat CONFIG_KFIFO_SIZE) (held i s' @ received i s' s'')"
    using assms by (simp_all add: rx_progress_def)
  have "held i s'' = take (unat CONFIG_KFIFO_SIZE) (held i s @ received i s s'')"
    unfolding held(2) split held(1) by (simp add: take_add min_def)
  moreover have "uart_live i s'" using assms(2) by (simp add: rx_progress_def)
  note mono = progress_mono [OF assms(1,2)] progress_mono [OF this assms(3)]
  ultimately show ?thesis using assms mono by (auto simp: rx_progress_def)
qed

section \<open>The interrupt handler\<close>

lemma hw_of_set_hw [simp]: "hw_of i (set_hw i hw s) = hw"
  by (simp add: hw_of_def set_hw_def)

lemma set_hw_fields [simp]:
  "s_uart_driver_is_init (set_hw i hw s) = s_uart_driver_is_init s" "s_uart (set_hw i hw s) = s_uart s"
  "s_uart_rx_kfifo (set_hw i hw s) = s_uart_rx_kfifo s" "s_uart_sema (set_hw i hw s) = s_uart_sema s"
  "s_uart_rx_isr (set_hw i hw s) = s_uart_rx_isr s" "s_uart_tx_isr (set_hw i hw s) = s_uart_tx_isr s"
  by (simp_all add: set_hw_def)

lemma upd_sema_fields [simp]:
  "s_uart_driver_is_init (upd_sema i g s) = s_uart_driver_is_init s" "s_uart (upd_sema i g s) = s_uart s"
  "s_uart_rx_kfifo (upd_sema i g s) = s_uart_rx_kfifo s" "s_uart_sema (upd_sema i g s) i = g (s_uart_sema s i)"
  "hw_of i (upd_sema i g s) = hw_of i s" "uart_live j (upd_sema i g s) = uart_live j s" "held j (upd_sema i g s) = held j s"
  by (simp_all add: upd_sema_def hw_of_def uart_live_def held_def uart_id_not_init_def uart_id_is_sw_fifo_enabled_def)

lemma hw_at_live: "uart_live i s \<Longrightarrow> hw_at i s = Some (hw_of i s)"
  by (simp add: uart_live_def hw_at_def)

lemma core_set_hw:
  "fifo_status hw = fifo_status (hw_of i s) \<Longrightarrow> fifo_port hw = fifo_port (hw_of i s) \<Longrightarrow>
   fifo_port_reads hw = fifo_port_reads (hw_of i s) \<Longrightarrow> rx_core i (set_hw i hw s) = rx_core i s"
  by (simp add: rx_core_def)

lemma core_call: "quiet i run \<Longrightarrow> rx_core i (call_uart_cb run cb j s) = rx_core i s"
  by (simp add: call_uart_cb_def quiet_def)

lemma core_flush: "rx_core i (upd_hw i uart_hal_flush_fifo s) = rx_core i s"
  by (simp add: upd_hw_def core_set_hw uart_hal_flush_fifo_def uart_ll_disable_tx_def uart_ll_disable_rx_def
      uart_ll_enable_tx_def uart_ll_enable_rx_def uart_ll_set_tx_enable_def uart_ll_set_rx_enable_def)

lemma uart_wake_reader_eq: "s_uart_sema (uart_wake_reader K i s) i = wake K (s_uart_sema s i)"
  by (simp add: uart_wake_reader_def wake_def Let_def)

lemma uart_wake_reader_fields [simp]:
  "uart_live i (uart_wake_reader K i s) = uart_live i s" "held i (uart_wake_reader K i s) = held i s"
  "hw_of i (uart_wake_reader K i s) = hw_of i s"
  by (simp_all add: uart_wake_reader_def Let_def)

lemma pause_frame:
  assumes "rx_pauses hw"
  obtains n where "\<forall>k < n. rd_ready hw k" "\<not> rd_ready hw n"
proof -
  obtain m where "fifo_status_reads hw \<le> m" "get_field 21 1 (fifo_status hw m) = 0" using assms by (auto simp: rx_pauses_def)
  then have "\<not> rd_ready hw (m - fifo_status_reads hw)" by (simp add: rd_ready_def)
  then show ?thesis using frame_exists that by blast
qed

text \<open>The part of the handler that deals with received bytes.\<close>

lemma isr_rx_progress:
  assumes "uart_live i s" "quiet i run" and n: "\<forall>k < n. rd_ready (hw_of i s) k" "\<not> rd_ready (hw_of i s) n"
  shows "\<exists>s'. uart_isr_rx K run i s = Some s' \<and> rx_progress K i s s' \<and>
    fifo_port_reads (hw_of i s') = fifo_port_reads (hw_of i s) + n"
proof -
  obtain rx where rx: "s_uart_rx_kfifo s i = Some rx" "kfifo_ok rx" "length (f_buffer rx) = unat CONFIG_KFIFO_SIZE"
    using assms(1) by (auto simp: uart_live_def split: option.splits)
  let ?p = "fifo_port_reads (hw_of i s)" and ?hw = "skip_reads (Suc n) n (hw_of i s)"
  obtain rx' where frame: "uart_id_read_fifo_frame rx (hw_of i s) = Some (of_nat (min n (room rx)), rx', ?hw)"
      "kfifo_ok rx'" "length (f_buffer rx') = length (f_buffer rx)"
      "contents rx' = contents rx @ take (room rx) (port_bytes (hw_of i s) ?p (?p + n))"
    using frame_loop_spec [OF rx(2) n, of 0] by (auto simp: uart_id_read_fifo_frame_def)
  define t where "t = set_hw i ?hw (s\<lparr>s_uart_rx_kfifo := (s_uart_rx_kfifo s)(i := Some rx')\<rparr>)"
  define u where "u = (if (0 :: u32) < of_nat (min n (room rx)) then uart_wake_reader K i t else t)"
  have enabled: "uart_id_is_sw_fifo_enabled i s" using assms(1) by (simp add: uart_live_def)
  then have isr: "uart_isr_rx K run i s = Some (call_uart_cb run (s_uart_rx_isr u i) i u)"
    by (simp add: uart_isr_rx_def rx(1) frame(1) u_def t_def Let_def)
  have "min n (room rx) \<le> unat CONFIG_KFIFO_SIZE" using rx(3) by (simp add: room_def)
  then have pos: "(0 :: u32) < of_nat (min n (room rx)) \<longleftrightarrow> 0 < min n (room rx)"
    by (simp add: word_less_nat_alt unat_of_nat)
  have t: "uart_live i t" "hw_of i t = ?hw" "held i t = contents rx'" "s_uart_sema t i = s_uart_sema s i"
    using assms(1) frame rx
    by (simp_all add: t_def uart_live_def held_def uart_id_not_init_def uart_id_is_sw_fifo_enabled_def)
  have held: "held i s = contents rx" by (simp add: held_def rx)
  have got: "contents rx' = take (unat CONFIG_KFIFO_SIZE) (contents rx @ port_bytes (hw_of i s) ?p (?p + n))"
    using frame(4) rx(3) kf.held_bound [OF rx(2)] by (simp add: room_def)
  have more: "length (contents rx) < length (contents rx') \<longleftrightarrow> 0 < min n (room rx)"
    by (simp add: frame(4))
  have "rx_progress K i s u"
    unfolding rx_progress_def received_def using t held got more pos
    by (simp add: u_def uart_wake_reader_eq)
  moreover from this have "rx_progress K i u (call_uart_cb run (s_uart_rx_isr u i) i u)"
    by (intro progress_core core_call assms(2)) (simp add: rx_progress_def)
  moreover have "fifo_port_reads (hw_of i (call_uart_cb run (s_uart_rx_isr u i) i u)) = ?p + n"
    using core_call [OF assms(2), of "s_uart_rx_isr u i" i u] t(2) by (simp add: rx_core_def u_def)
  ultimately show ?thesis using isr progress_trans [OF assms(1)] by blast
qed

definition rx_pending :: "uart_hw_t \<Rightarrow> bool" where
  "rx_pending hw \<longleftrightarrow>
     uart_ll_is_rx_interrupt_triggered ((int_status hw (int_status_reads hw) AND 0xff) AND (int_enable hw AND 0xff))"

lemma isr_spec:
  assumes "uart_live i s" "quiet i run" and n: "\<forall>k < n. rd_ready (hw_of i s) k" "\<not> rd_ready (hw_of i s) n"
  shows "\<exists>s'. uart_isr_common K run i s = Some s' \<and> rx_progress K i s s' \<and>
    fifo_port_reads (hw_of i s') = fifo_port_reads (hw_of i s) + (if rx_pending (hw_of i s) then n else 0)"
proof -
  define st where "st = int_status (hw_of i s) (int_status_reads (hw_of i s)) AND 0xff"
  define hw where "hw = (hw_of i s)\<lparr>int_status_reads := int_status_reads (hw_of i s) + 1\<rparr>"
  define status where "status = st AND uart_ll_get_int_enable_status hw"
  define s1 where "s1 = set_hw i (uart_ll_clear_interrupt_status st hw) s"
  define tail where "tail s = (let s = (if uart_ll_is_tx_interrupt_triggered status
      then call_uart_cb run (s_uart_tx_isr s i) i s else s)
    in if uart_ll_is_rx_parity_err_int_triggered status then upd_hw i uart_hal_flush_fifo s else s)" for s
  have isr: "uart_isr_common K run i s = do {
      s \<leftarrow> (if uart_ll_is_rx_interrupt_triggered status then uart_isr_rx K run i s1 else Some s1); Some (tail s) }"
    by (simp add: uart_isr_common_def hw_at_live [OF assms(1)] uart_ll_get_interrupt_status_def read_int_status_def
        st_def hw_def status_def s1_def tail_def Let_def)
  have core1: "rx_core i s1 = rx_core i s"
    by (simp add: s1_def hw_def core_set_hw uart_ll_clear_interrupt_status_def write_int_status_def)
  then have p1: "rx_progress K i s s1" by (rule progress_core [OF assms(1)])
  then have live1: "uart_live i s1" by (simp add: rx_progress_def)
  have hw1: "fifo_status_reads (hw_of i s1) = fifo_status_reads (hw_of i s)"
    by (simp add: s1_def hw_def uart_ll_clear_interrupt_status_def write_int_status_def)
  have ready: "rd_ready (hw_of i s1) = rd_ready (hw_of i s)"
    using core1 hw1 by (simp add: rd_ready_def rx_core_def fun_eq_iff)
  have pending: "uart_ll_is_rx_interrupt_triggered status = rx_pending (hw_of i s)"
    by (simp add: status_def st_def hw_def rx_pending_def uart_ll_get_int_enable_status_def)
  let ?c = "if rx_pending (hw_of i s) then n else 0"
  have p: "fifo_port_reads (hw_of i s1) = fifo_port_reads (hw_of i s)" using core1 by (simp add: rx_core_def)
  obtain s2 where s2: "(if uart_ll_is_rx_interrupt_triggered status then uart_isr_rx K run i s1 else Some s1) = Some s2"
    "rx_progress K i s1 s2" "fifo_port_reads (hw_of i s2) = fifo_port_reads (hw_of i s) + ?c"
  proof (cases "rx_pending (hw_of i s)")
    case True
    from isr_rx_progress [OF live1 assms(2) n [folded ready]] show ?thesis using that True p unfolding pending by auto
  next
    case False
    with progress_core [OF live1 refl] p that show ?thesis unfolding pending by simp
  qed
  have live2: "uart_live i s2" using s2(2) by (simp add: rx_progress_def)
  have core2: "rx_core i (tail s2) = rx_core i s2"
    by (simp add: tail_def Let_def core_flush core_call [OF assms(2)])
  then have "rx_progress K i s2 (tail s2)" by (rule progress_core [OF live2])
  with s2(2) have "rx_progress K i s1 (tail s2)" by (rule progress_trans [OF live1])
  with p1 have "rx_progress K i s (tail s2)" by (rule progress_trans [OF assms(1)])
  moreover have "fifo_port_reads (hw_of i (tail s2)) = fifo_port_reads (hw_of i s) + ?c"
    using core2 s2(3) by (simp add: rx_core_def)
  ultimately show ?thesis using isr s2(1) by simp
qed

lemma isr_progress:
  assumes "uart_live i s" "quiet i run" "rx_pauses (hw_of i s)"
  shows "\<exists>s'. uart_isr_common K run i s = Some s' \<and> rx_progress K i s s'"
proof -
  obtain n where "\<forall>k < n. rd_ready (hw_of i s) k" "\<not> rd_ready (hw_of i s) n" using pause_frame assms(3) by blast
  from isr_spec [OF assms(1,2) this] show ?thesis by blast
qed

text \<open>A number of interrupts of the port, one after the other.\<close>

fun uart_irqs ::
  "los_sem \<Rightarrow> (addr \<Rightarrow> u32 \<Rightarrow> addr \<Rightarrow> uart_sys \<Rightarrow> uart_sys) \<Rightarrow> u32 \<Rightarrow> nat \<Rightarrow> uart_sys \<Rightarrow> uart_sys option" where
  "uart_irqs K run i 0 s = Some s"
| "uart_irqs K run i (Suc n) s = do { s \<leftarrow> uart_isr_common K run i s; uart_irqs K run i n s }"

lemma irqs_progress:
  assumes "uart_live i s" "quiet i run" "rx_pauses (hw_of i s)"
  shows "\<exists>s'. uart_irqs K run i n s = Some s' \<and> rx_progress K i s s'"
  using assms(1,3)
proof (induction n arbitrary: s)
  case 0
  then show ?case using progress_core by simp
next
  case (Suc n)
  obtain s1 where s1: "uart_isr_common K run i s = Some s1" "rx_progress K i s s1"
    using isr_progress [OF Suc.prems(1) assms(2) Suc.prems(2)] by blast
  then have "uart_live i s1" "rx_pauses (hw_of i s1)" using Suc.prems by (simp_all add: rx_progress_def rx_pauses_def)
  from Suc.IH [OF this] obtain s2 where "uart_irqs K run i n s1 = Some s2" "rx_progress K i s1 s2" by blast
  then show ?case using s1 progress_trans [OF Suc.prems(1)] by auto
qed

section \<open>The reader\<close>

text \<open>
  A port with no reader waiting. The environment of a read is a number of interrupts of the port at each of the
  points where they can come.
\<close>

definition uart_idle :: "u32 \<Rightarrow> uart_sys \<Rightarrow> bool" where
  "uart_idle i s \<longleftrightarrow> uart_live i s \<and> s_uart_sema s i = \<lparr>rx_blocked = False, rx_int_sema = Some 0\<rparr>"

definition irqs_at ::
  "los_sem \<Rightarrow> (addr \<Rightarrow> u32 \<Rightarrow> addr \<Rightarrow> uart_sys \<Rightarrow> uart_sys) \<Rightarrow> u32 \<Rightarrow> (nat \<Rightarrow> nat) \<Rightarrow> nat \<Rightarrow> uart_sys \<Rightarrow> uart_sys option" where
  "irqs_at K run i n k = uart_irqs K run i (n k)"

text \<open>
  What a read does to the receiver: the bytes held before it and those received during it, as far as there was room, are
  the bytes it returns followed by those held after it.
\<close>

definition rx_read :: "u32 \<Rightarrow> uart_sys \<Rightarrow> u8 list \<Rightarrow> uart_sys \<Rightarrow> bool" where
  "rx_read i s ys s' \<longleftrightarrow>
     uart_live i s' \<and> fifo_status (hw_of i s') = fifo_status (hw_of i s) \<and> fifo_port (hw_of i s') = fifo_port (hw_of i s) \<and>
     fifo_port_reads (hw_of i s) \<le> fifo_port_reads (hw_of i s') \<and>
     ys @ held i s' = take (unat CONFIG_KFIFO_SIZE) (held i s @ received i s s')"

lemma progress_read: "rx_progress K i s s' \<Longrightarrow> rx_read i s [] s'"
  by (simp add: rx_progress_def rx_read_def)

lemma progress_pauses: "rx_progress K i s s' \<Longrightarrow> rx_pauses (hw_of i s) \<Longrightarrow> rx_pauses (hw_of i s')"
  by (simp add: rx_progress_def rx_pauses_def)

lemma progress_live: "rx_progress K i s s' \<Longrightarrow> uart_live i s'"
  by (simp add: rx_progress_def)

lemma read_trans:
  assumes "rx_progress K i s s'" "rx_read i s' ys s''"
  shows "rx_read i s ys s''"
proof -
  have r: "fifo_port_reads (hw_of i s) \<le> fifo_port_reads (hw_of i s')" "fifo_port_reads (hw_of i s') \<le> fifo_port_reads (hw_of i s'')"
    and port: "fifo_port (hw_of i s') = fifo_port (hw_of i s)"
    using assms by (simp_all add: rx_progress_def rx_read_def)
  have split: "received i s s'' = received i s s' @ received i s' s''"
    unfolding received_def port_bytes_cong [OF port] by (rule port_bytes_append [OF r, symmetric])
  have "ys @ held i s'' = take (unat CONFIG_KFIFO_SIZE) (held i s @ received i s s'')"
    using assms unfolding split by (simp add: rx_progress_def rx_read_def take_add min_def)
  then show ?thesis using assms r by (simp add: rx_progress_def rx_read_def)
qed

lemma kfifo_data_size_held:
  assumes "uart_live i s"
  obtains len where "map_option kfifo_data_size (s_uart_rx_kfifo s i) = Some len" "unat len = length (held i s)"
  using assms that by (auto simp: uart_live_def held_def kfifo_data_size_def contents_def split: option.splits)

lemma live_get:
  assumes "uart_live i s" "unat n \<le> length (held i s)"
  obtains rx m rx' where "s_uart_rx_kfifo s i = Some rx" "kfifo_get rx n = Some (m, take (unat n) (held i s), rx')"
    "uart_live i (s\<lparr>s_uart_rx_kfifo := (s_uart_rx_kfifo s)(i := Some rx')\<rparr>)"
    "contents rx' = drop (unat n) (held i s)"
proof -
  obtain rx where rx: "s_uart_rx_kfifo s i = Some rx" "kfifo_ok rx" "length (f_buffer rx) = unat CONFIG_KFIFO_SIZE"
    using assms(1) by (auto simp: uart_live_def split: option.splits)
  have held: "held i s = contents rx" by (simp add: held_def rx(1))
  obtain m ys rx' where get: "kfifo_get rx n = Some (m, ys, rx')" "kfifo_ok rx'" "unat m = min (unat n) (length (contents rx))"
      "ys = take (unat m) (contents rx)" "contents rx' = drop (unat m) (contents rx)"
      "length (f_buffer rx') = length (f_buffer rx)"
    using kf.get_spec [OF rx(2), of n] by blast
  have m: "unat m = unat n" using get(3) assms(2) held by simp
  have "uart_live i (s\<lparr>s_uart_rx_kfifo := (s_uart_rx_kfifo s)(i := Some rx')\<rparr>)"
    using assms(1) get(2,6) rx(3) by (simp add: uart_live_def uart_id_not_init_def uart_id_is_sw_fifo_enabled_def)
  with rx(1) get held m show ?thesis using that by simp
qed

text \<open>Taking bytes out, once there are some.\<close>

lemma read_take_spec:
  assumes "uart_live i s" "quiet i run" "rx_pauses (hw_of i s)" "\<not> rx_blocked (s_uart_sema s i)" "held i s \<noteq> []"
  shows "\<exists>ys s'. uart_read_take (irqs_at K run i n) i sz s = Some (int (length ys), ys, s') \<and> rx_read i s ys s' \<and>
    s_uart_sema s' i = s_uart_sema s i \<and> length ys \<le> unat sz \<and> min (unat sz) (length (held i s)) \<le> length ys"
proof -
  obtain s2 where s2: "irqs_at K run i n 2 s = Some s2" "rx_progress K i s s2"
    using irqs_progress [OF assms(1-3)] by (auto simp: irqs_at_def)
  note live2 = progress_live [OF s2(2)]
  obtain s3 where s3: "irqs_at K run i n 3 s2 = Some s3" "rx_progress K i s2 s3"
    using irqs_progress [OF live2 assms(2) progress_pauses [OF s2(2) assms(3)]] by (auto simp: irqs_at_def)
  obtain len where len: "map_option kfifo_data_size (s_uart_rx_kfifo s2 i) = Some len" "unat len = length (held i s2)"
    using kfifo_data_size_held [OF live2] .
  have "0 < length (held i s2)" using progress_mono [OF assms(1) s2(2)] assms(5) by auto
  then have len0: "len \<noteq> 0" using len(2) by auto
  define m where "m = (if len < sz then len else sz)"
  have m: "unat m \<le> unat len" "unat m \<le> unat sz" by (auto simp: m_def word_less_nat_alt)
  have "unat m \<le> length (held i s3)" using m(1) len(2) progress_mono [OF live2 s3(2)] by simp
  then obtain rx k rx' where get: "s_uart_rx_kfifo s3 i = Some rx" "kfifo_get rx m = Some (k, take (unat m) (held i s3), rx')"
      "uart_live i (s3\<lparr>s_uart_rx_kfifo := (s_uart_rx_kfifo s3)(i := Some rx')\<rparr>)" "contents rx' = drop (unat m) (held i s3)"
    using live_get [OF progress_live [OF s3(2)]] by blast
  define s' where "s' = s3\<lparr>s_uart_rx_kfifo := (s_uart_rx_kfifo s3)(i := Some rx')\<rparr>"
  let ?ys = "take (unat m) (held i s3)"
  have ys: "length ?ys = unat m" using \<open>unat m \<le> length (held i s3)\<close> by simp
  have "uart_read_take (irqs_at K run i n) i sz s = Some (uint m, ?ys, s')"
    by (simp add: uart_read_take_def s2 s3 len len0 get(1) m_def [symmetric] get(2) s'_def Let_def)
  then have run: "uart_read_take (irqs_at K run i n) i sz s = Some (int (length ?ys), ?ys, s')" using ys by simp
  have s3s: "rx_progress K i s s3" using progress_trans [OF assms(1) s2(2) s3(2)] .
  have hw: "hw_of i s' = hw_of i s3" by (simp add: s'_def hw_of_def)
  have "held i s' = drop (unat m) (held i s3)" by (simp add: s'_def held_def get(4))
  then have joined: "?ys @ held i s' = held i s3" by simp
  have read: "rx_read i s ?ys s'"
    using s3s get(3) unfolding rx_read_def rx_progress_def received_def joined hw s'_def [symmetric] by blast
  have "s_uart_sema s' i = s_uart_sema s3 i" by (simp add: s'_def)
  also have "\<dots> = s_uart_sema s i" using s3s assms(4) by (simp add: rx_progress_def wake_def)
  finally have "s_uart_sema s' i = s_uart_sema s i" .
  moreover have "min (unat sz) (length (held i s)) \<le> unat m"
    using len(2) progress_mono [OF assms(1) s2(2)] by (auto simp: m_def)
  ultimately show ?thesis using run read ys m(2) by (intro exI [of _ ?ys] exI [of _ s']) simp
qed

text \<open>
  While the reader waits, the semaphore and the flag tell each other apart: the semaphore is set exactly when the flag has
  been reset, and then there are bytes.
\<close>

lemma wait_progress:
  assumes "los_sem_laws K" "uart_idle i s" "held i s = []"
    "rx_progress K i (upd_sema i (\<lambda>q. q\<lparr>rx_blocked := True\<rparr>) s) s'"
  shows "s_uart_sema s' i =
    (if held i s' = [] then \<lparr>rx_blocked = True, rx_int_sema = Some 0\<rparr> else \<lparr>rx_blocked = False, rx_int_sema = Some 1\<rparr>)"
  using assms by (auto simp: rx_progress_def uart_idle_def wake_def set_semaphore_empty)

lemma core_upd_sema: "rx_read i (upd_sema i g s) ys s' = rx_read i s ys s'"
  by (simp add: rx_read_def received_def)

lemma read_upd_sema: "rx_read i s ys (upd_sema i g s') = rx_read i s ys s'"
  by (simp add: rx_read_def received_def)

lemma timed_out_spec:
  assumes "los_sem_laws K" "uart_live i s"
    "s_uart_sema s i = \<lparr>rx_blocked = True, rx_int_sema = Some 0\<rparr> \<or> s_uart_sema s i = \<lparr>rx_blocked = False, rx_int_sema = Some 1\<rparr>"
  shows "\<exists>g. uart_read_timed_out K i s = Some (upd_sema i g s) \<and> g (s_uart_sema s i) = \<lparr>rx_blocked = False, rx_int_sema = Some 0\<rparr>"
  using assms(3)
proof
  assume "s_uart_sema s i = \<lparr>rx_blocked = True, rx_int_sema = Some 0\<rparr>"
  then show ?thesis
    by (intro exI [of _ "\<lambda>q. q\<lparr>rx_blocked := False\<rparr>"]) (simp add: uart_read_timed_out_def)
next
  assume q: "s_uart_sema s i = \<lparr>rx_blocked = False, rx_int_sema = Some 1\<rparr>"
  have "rtos_get_semaphore K False (Some 1) 0 = Some (kNoErr, Some 0)"
    using get_semaphore_Suc [OF assms(1), of 0 0] by simp
  with q show ?thesis
    by (intro exI [of _ "\<lambda>q. q\<lparr>rx_int_sema := Some 0, rx_blocked := False\<rparr>"])
      (simp add: uart_read_timed_out_def, simp add: upd_sema_def)
qed

text \<open>The wait: it ends with bytes or, when none have come and the time is up, with a timeout.\<close>

lemma read_wait_spec:
  assumes "los_sem_laws K" "uart_idle i s" "quiet i run" "rx_pauses (hw_of i s)" "held i s = []"
    "t div ms_to_tick_ratio K \<noteq> 0"
  obtains s1 where "uart_irqs K run i (n 0) (upd_sema i (\<lambda>q. q\<lparr>rx_blocked := True\<rparr>) s) = Some s1"
    "held i s1 = [] \<Longrightarrow> t = BEKEN_WAIT_FOREVER \<Longrightarrow> uart_read_wait K (irqs_at K run i n) i sz t s = None"
    "held i s1 = [] \<Longrightarrow> t \<noteq> BEKEN_WAIT_FOREVER \<Longrightarrow>
       \<exists>s'. uart_read_wait K (irqs_at K run i n) i sz t s = Some (BK_ERR_UART_RX_TIMEOUT, [], s') \<and> rx_read i s [] s' \<and> uart_idle i s'"
    "held i s1 \<noteq> [] \<Longrightarrow>
       \<exists>ys s'. uart_read_wait K (irqs_at K run i n) i sz t s = Some (int (length ys), ys, s') \<and> rx_read i s ys s' \<and>
         uart_idle i s' \<and> length ys \<le> unat sz \<and> min (unat sz) (length (held i s1)) \<le> length ys"
proof -
  let ?b = "upd_sema i (\<lambda>q. q\<lparr>rx_blocked := True\<rparr>) s" and ?env = "irqs_at K run i n"
  have live: "uart_live i ?b" "rx_pauses (hw_of i ?b)" using assms(2,4) by (simp_all add: uart_idle_def)
  obtain s1 where s1: "uart_irqs K run i (n 0) ?b = Some s1" "rx_progress K i ?b s1"
    using irqs_progress [OF live(1) assms(3) live(2)] by blast
  note sema = wait_progress [OF assms(1,2,5) s1(2)]
  have env0: "?env 0 ?b = Some s1" using s1(1) by (simp add: irqs_at_def)
  note pauses1 = progress_pauses [OF s1(2) live(2)]
  show ?thesis
  proof (rule that [OF s1(1)])
    assume "held i s1 = []" "t = BEKEN_WAIT_FOREVER"
    then show "uart_read_wait K ?env i sz t s = None"
      using sema env0 by (simp add: uart_read_wait_def get_semaphore_empty [OF assms(1)])
  next
    assume empty: "held i s1 = []" and t: "t \<noteq> BEKEN_WAIT_FOREVER"
    define u where "u = upd_sema i (\<lambda>q. q\<lparr>rx_int_sema := Some 0\<rparr>) s1"
    have u: "uart_live i u" "rx_pauses (hw_of i u)" "s_uart_sema u i = \<lparr>rx_blocked = True, rx_int_sema = Some 0\<rparr>"
      using progress_live [OF s1(2)] empty pauses1 sema by (simp_all add: u_def)
    obtain s2 where s2: "?env 1 u = Some s2" "rx_progress K i u s2"
      using irqs_progress [OF u(1) assms(3) u(2)] by (auto simp: irqs_at_def)
    have "s_uart_sema s2 i = \<lparr>rx_blocked = True, rx_int_sema = Some 0\<rparr> \<or> s_uart_sema s2 i = \<lparr>rx_blocked = False, rx_int_sema = Some 1\<rparr>"
      using s2(2) u(3) by (auto simp: rx_progress_def wake_def set_semaphore_empty [OF assms(1)])
    from timed_out_spec [OF assms(1) progress_live [OF s2(2)] this] obtain g where
      g: "uart_read_timed_out K i s2 = Some (upd_sema i g s2)" "g (s_uart_sema s2 i) = \<lparr>rx_blocked = False, rx_int_sema = Some 0\<rparr>"
      by blast
    have "uart_read_wait K ?env i sz t s = Some (BK_ERR_UART_RX_TIMEOUT, [], upd_sema i g s2)"
      using sema env0 empty t assms(6) s2(1) g(1) by (simp add: uart_read_wait_def get_semaphore_empty [OF assms(1)] u_def)
    moreover have "rx_read i s1 [] s2" using progress_read [OF s2(2)] by (simp add: u_def core_upd_sema)
    then have "rx_read i s [] s2" using read_trans [OF s1(2)] core_upd_sema by blast
    ultimately show "\<exists>s'. uart_read_wait K ?env i sz t s = Some (BK_ERR_UART_RX_TIMEOUT, [], s') \<and> rx_read i s [] s' \<and> uart_idle i s'"
      using g(2) progress_live [OF s2(2)] by (auto simp: read_upd_sema uart_idle_def)
  next
    assume some: "held i s1 \<noteq> []"
    define u where "u = upd_sema i (\<lambda>q. q\<lparr>rx_int_sema := Some 0\<rparr>) s1"
    have u: "uart_live i u" "held i u \<noteq> []" "rx_pauses (hw_of i u)" "s_uart_sema u i = \<lparr>rx_blocked = False, rx_int_sema = Some 0\<rparr>"
      using progress_live [OF s1(2)] some pauses1 sema by (simp_all add: u_def)
    have "\<not> rx_blocked (s_uart_sema u i)" using u(4) by simp
    from read_take_spec [OF u(1) assms(3) u(3) this u(2)] obtain ys s' where
      take: "uart_read_take ?env i sz u = Some (int (length ys), ys, s')" "rx_read i u ys s'"
        "s_uart_sema s' i = s_uart_sema u i" "length ys \<le> unat sz" "min (unat sz) (length (held i u)) \<le> length ys" by blast
    have "rtos_get_semaphore K False (Some 1) t = Some (kNoErr, Some 0)"
      using get_semaphore_Suc [OF assms(1), of 0 t] by simp
    then have "uart_read_wait K ?env i sz t s = Some (int (length ys), ys, s')"
      using sema env0 some take(1) by (simp add: uart_read_wait_def u_def)
    moreover have "rx_read i s1 ys s'" using take(2) by (simp add: u_def core_upd_sema)
    then have "rx_read i s ys s'" using read_trans [OF s1(2)] core_upd_sema by blast
    moreover from this have "uart_idle i s'" using take(3) u(4) by (simp add: uart_idle_def rx_read_def)
    ultimately show "\<exists>ys s'. uart_read_wait K ?env i sz t s = Some (int (length ys), ys, s') \<and> rx_read i s ys s' \<and>
         uart_idle i s' \<and> length ys \<le> unat sz \<and> min (unat sz) (length (held i s1)) \<le> length ys"
      using take(4,5) by (auto simp: u_def)
  qed
qed

lemma read_bytes_live:
  assumes "uart_live i s"
  shows "bk_uart_read_bytes K env i sz t s =
    (if held i s = [] then uart_read_wait K env i sz t s else uart_read_take env i sz s)"
proof -
  obtain len where len: "map_option kfifo_data_size (s_uart_rx_kfifo s i) = Some len" "unat len = length (held i s)"
    using kfifo_data_size_held [OF assms] .
  have "len = 0 \<longleftrightarrow> held i s = []" using len(2) by (metis length_0_conv unat_eq_zero)
  moreover have "uart_checks i s = BK_OK" "\<not> uart_id_not_init i s" "uart_id_is_sw_fifo_enabled i s"
    using assms by (auto simp: uart_live_def uart_checks_def linorder_not_less [symmetric])
  ultimately show ?thesis unfolding bk_uart_read_bytes_def len(1) by simp
qed

text \<open>The two ways a read of an idle port can end when it ends.\<close>

lemma read_bytes_cases:
  assumes "los_sem_laws K" "uart_idle i s" "quiet i run" "rx_pauses (hw_of i s)" "t div ms_to_tick_ratio K \<noteq> 0"
    "t \<noteq> BEKEN_WAIT_FOREVER"
  obtains (timeout) s' where
      "bk_uart_read_bytes K (irqs_at K run i n) i sz t s = Some (BK_ERR_UART_RX_TIMEOUT, [], s')" "rx_read i s [] s'" "uart_idle i s'"
    | (bytes) ys s' where
      "bk_uart_read_bytes K (irqs_at K run i n) i sz t s = Some (int (length ys), ys, s')" "rx_read i s ys s'" "uart_idle i s'"
proof (cases "held i s = []")
  case True
  have live: "uart_live i s" using assms(2) by (simp add: uart_idle_def)
  obtain s1 where "held i s1 = [] \<Longrightarrow> \<exists>s'. uart_read_wait K (irqs_at K run i n) i sz t s = Some (BK_ERR_UART_RX_TIMEOUT, [], s') \<and>
        rx_read i s [] s' \<and> uart_idle i s'"
      "held i s1 \<noteq> [] \<Longrightarrow> \<exists>ys s'. uart_read_wait K (irqs_at K run i n) i sz t s = Some (int (length ys), ys, s') \<and>
        rx_read i s ys s' \<and> uart_idle i s'"
    using read_wait_spec [OF assms(1-4) True assms(5)] assms(6) by metis
  then show ?thesis using that True read_bytes_live [OF live] by (cases "held i s1 = []") (auto split: if_splits)
next
  case False
  have live: "uart_live i s" and q: "\<not> rx_blocked (s_uart_sema s i)" using assms(2) by (simp_all add: uart_idle_def)
  from read_take_spec [OF live assms(3,4) q False] obtain ys s' where
    "uart_read_take (irqs_at K run i n) i sz s = Some (int (length ys), ys, s')" "rx_read i s ys s'"
    "s_uart_sema s' i = s_uart_sema s i" by blast
  then show ?thesis using that(2) [of ys s'] False read_bytes_live [OF live] assms(2) by (simp add: uart_idle_def rx_read_def)
qed

section \<open>Sequences of reads and interrupts\<close>

datatype uart_op = Irq | Read "nat \<Rightarrow> nat" u32 u32

fun uart_session ::
  "los_sem \<Rightarrow> (addr \<Rightarrow> u32 \<Rightarrow> addr \<Rightarrow> uart_sys \<Rightarrow> uart_sys) \<Rightarrow> u32 \<Rightarrow> uart_op list \<Rightarrow> uart_sys \<Rightarrow> (u8 list \<times> uart_sys) option" where
  "uart_session K run i [] s = Some ([], s)"
| "uart_session K run i (Irq # ops) s = do { s \<leftarrow> uart_isr_common K run i s; uart_session K run i ops s }"
| "uart_session K run i (Read n sz t # ops) s = do {
     (_, ys, s) \<leftarrow> bk_uart_read_bytes K (irqs_at K run i n) i sz t s;
     (zs, s) \<leftarrow> uart_session K run i ops s;
     Some (ys @ zs, s)
   }"

text \<open>What a session keeps: the bytes returned and those still held are among the bytes held before and received since.\<close>

definition rx_among :: "u32 \<Rightarrow> uart_sys \<Rightarrow> u8 list \<Rightarrow> uart_sys \<Rightarrow> bool" where
  "rx_among i s ys s' \<longleftrightarrow>
     fifo_status (hw_of i s') = fifo_status (hw_of i s) \<and> fifo_port (hw_of i s') = fifo_port (hw_of i s) \<and>
     fifo_port_reads (hw_of i s) \<le> fifo_port_reads (hw_of i s') \<and> subseq (ys @ held i s') (held i s @ received i s s')"

lemma among_refl: "rx_among i s [] s"
  by (simp add: rx_among_def received_def)

lemma read_among: "rx_read i s ys s' \<Longrightarrow> rx_among i s ys s'"
  using prefix_imp_subseq [OF take_is_prefix] by (simp add: rx_read_def rx_among_def del: take_append)

lemma among_trans:
  assumes "rx_among i s ys s'" "rx_among i s' zs s''"
  shows "rx_among i s (ys @ zs) s''"
proof -
  have r: "fifo_port_reads (hw_of i s) \<le> fifo_port_reads (hw_of i s')" "fifo_port_reads (hw_of i s') \<le> fifo_port_reads (hw_of i s'')"
    and port: "fifo_port (hw_of i s') = fifo_port (hw_of i s)"
    using assms by (simp_all add: rx_among_def)
  have split: "received i s s'' = received i s s' @ received i s' s''"
    unfolding received_def port_bytes_cong [OF port] by (rule port_bytes_append [OF r, symmetric])
  have "subseq (ys @ zs @ held i s'') (ys @ held i s' @ received i s' s'')"
    using assms(2) list_emb_append_mono [of "(=)" ys ys] by (simp add: rx_among_def)
  also have "subseq (ys @ held i s' @ received i s' s'') (held i s @ received i s s' @ received i s' s'')"
    using assms(1) list_emb_append_mono [of "(=)" "ys @ held i s'" "held i s @ received i s s'" "received i s' s''" "received i s' s''"]
    by (simp add: rx_among_def)
  finally show ?thesis using assms r by (simp add: rx_among_def split)
qed

lemma among_pauses: "rx_among i s ys s' \<Longrightarrow> rx_pauses (hw_of i s) \<Longrightarrow> rx_pauses (hw_of i s')"
  by (simp add: rx_among_def rx_pauses_def)

lemma session_spec:
  assumes "los_sem_laws K" "uart_idle i s" "quiet i run" "rx_pauses (hw_of i s)"
    "\<forall>n sz t. Read n sz t \<in> set ops \<longrightarrow> t div ms_to_tick_ratio K \<noteq> 0 \<and> t \<noteq> BEKEN_WAIT_FOREVER"
  shows "\<exists>ys s'. uart_session K run i ops s = Some (ys, s') \<and> uart_idle i s' \<and> rx_among i s ys s'"
  using assms(2,4,5)
proof (induction ops arbitrary: s)
  case Nil
  then show ?case using among_refl by simp
next
  case (Cons a ops)
  have rest: "\<forall>n sz t. Read n sz t \<in> set ops \<longrightarrow> t div ms_to_tick_ratio K \<noteq> 0 \<and> t \<noteq> BEKEN_WAIT_FOREVER"
    using Cons.prems(3) by simp
  note step = Cons.IH [OF _ among_pauses [OF _ Cons.prems(2)] rest]
  show ?case
  proof (cases a)
    case Irq
    have live: "uart_live i s" using Cons.prems(1) by (simp add: uart_idle_def)
    obtain s1 where s1: "uart_isr_common K run i s = Some s1" "rx_progress K i s s1"
      using isr_progress [OF live assms(3) Cons.prems(2)] by blast
    have idle: "uart_idle i s1" using s1(2) Cons.prems(1) by (simp add: uart_idle_def rx_progress_def wake_def)
    have among: "rx_among i s [] s1" using s1(2) progress_read read_among by blast
    from step [OF idle among] show ?thesis using s1(1) Irq among_trans [OF among] by fastforce
  next
    case (Read n sz t)
    then have t: "t div ms_to_tick_ratio K \<noteq> 0" "t \<noteq> BEKEN_WAIT_FOREVER" using Cons.prems(3) by auto
    obtain r ys s1 where s1: "bk_uart_read_bytes K (irqs_at K run i n) i sz t s = Some (r, ys, s1)" "rx_read i s ys s1" "uart_idle i s1"
      using read_bytes_cases [OF assms(1) Cons.prems(1) assms(3) Cons.prems(2) t] by metis
    note among = read_among [OF s1(2)]
    from step [OF s1(3) among] obtain zs s2 where
      "uart_session K run i ops s1 = Some (zs, s2)" "uart_idle i s2" "rx_among i s1 zs s2" by blast
    then show ?thesis using s1(1) Read among_trans [OF among] by auto
  qed
qed

text \<open>A read without interrupts, when nothing is held.\<close>

abbreviation no_irqs :: "nat \<Rightarrow> uart_sys \<Rightarrow> uart_sys option" where
  "no_irqs \<equiv> (\<lambda>_ s. Some s)"

lemma irqs_at_none: "irqs_at K run i (\<lambda>_. 0) = no_irqs"
  by (simp add: irqs_at_def fun_eq_iff)

lemma take_nothing:
  assumes "uart_live i s" "held i s = []" "0 < sz"
  shows "uart_read_take no_irqs i sz s = Some (0, [], s)"
proof -
  obtain len where len: "map_option kfifo_data_size (s_uart_rx_kfifo s i) = Some len" "unat len = length (held i s)"
    using kfifo_data_size_held [OF assms(1)] .
  then have "len = 0" using assms(2) by (simp add: unat_eq_zero)
  then show ?thesis using assms(3) by (simp add: uart_read_take_def len(1))
qed

lemma wait_nothing:
  assumes "uart_live i s" "held i s = []" "0 < sz" "rtos_get_semaphore K False (rx_int_sema (s_uart_sema s i)) t = Some (ret, h)"
    "ret \<noteq> kTimeoutErr"
  shows "bk_uart_read_bytes K no_irqs i sz t s =
    Some (0, [], upd_sema i (\<lambda>q. q\<lparr>rx_int_sema := h\<rparr>) (upd_sema i (\<lambda>q. q\<lparr>rx_blocked := True\<rparr>) s))"
  using assms take_nothing [of i "upd_sema i (\<lambda>q. q\<lparr>rx_int_sema := h\<rparr>) (upd_sema i (\<lambda>q. q\<lparr>rx_blocked := True\<rparr>) s)" sz]
  by (simp add: read_bytes_live uart_read_wait_def)

lemma take_everything:
  assumes "uart_live i s" "held i s \<noteq> []" "\<not> rx_blocked (s_uart_sema s i)" "quiet i run" "rx_pauses (hw_of i s)"
  shows "\<exists>s'. bk_uart_read_bytes K no_irqs i 128 t s = Some (int (length (held i s)), held i s, s') \<and> uart_live i s' \<and>
    held i s' = [] \<and> s_uart_sema s' i = s_uart_sema s i"
proof -
  obtain ys s' where take: "uart_read_take no_irqs i 128 s = Some (int (length ys), ys, s')" "rx_read i s ys s'"
      "s_uart_sema s' i = s_uart_sema s i" "min 128 (length (held i s)) \<le> length ys"
    using read_take_spec [OF assms(1,4,5,3,2), where n = "\<lambda>_. 0" and sz = 128] unfolding irqs_at_none by auto
  have "hw_of i s' = hw_of i s"
    using take(1) by (auto simp: uart_read_take_def hw_of_def bind_eq_Some_conv Let_def split: if_splits)
  then have "ys @ held i s' = held i s"
    using take(2) held_bound [OF assms(1)] by (simp add: rx_read_def received_def)
  moreover have "length (held i s) \<le> length ys" using take(4) held_bound [OF assms(1)] by simp
  ultimately have "ys = held i s" "held i s' = []" by (metis append_eq_conv_conj le_antisym length_append le_add1 take_all append_Nil2 append_self_conv)+
  then show ?thesis using take assms(2) by (auto simp: read_bytes_live [OF assms(1)] rx_read_def)
qed

section \<open>Properties\<close>

text \<open>A port that has two bytes, 7 and 8, and then no more.\<close>

definition sample_hw :: uart_hw_t where
  "sample_hw = \<lparr>u_config = 0, fifo_config = 0,
     fifo_status = (\<lambda>k. if k < 2 then 0x200000 else 0), fifo_status_reads = 0,
     fifo_port = (\<lambda>k. if k = 0 then 0x700 else 0x800), fifo_port_reads = 0, fifo_port_writes = [],
     int_enable = 0x42, int_status = (\<lambda>_. 0x40), int_status_reads = 0, int_status_writes = [],
     flow_ctrl_config = 0, wake_config = 0\<rparr>"

lemma sample_hw_ready: "rd_ready sample_hw k \<longleftrightarrow> k < 2"
  by (simp add: rd_ready_def sample_hw_def get_field_def)

lemma sample_hw_bytes: "port_bytes sample_hw 0 2 = [7, 8]"
proof -
  have "[0..<2] = [0, 1 :: nat]" by (simp add: upt_rec)
  then show ?thesis by (simp add: port_bytes_def sample_hw_def get_field_def)
qed

text \<open>
  C11. A receive interrupt of a port in use moves the whole frame that the hardware holds into the port's queue, up to the
  queue's 128 bytes, and if it has moved any byte and a reader is blocked it sets the reader's semaphore and resets
  the blocked flag, so that a second interrupt does not set the semaphore again. The handler returns, provided that the
  registered callbacks do not touch the port.
\<close>

theorem uart_isr_receives:
  assumes "uart_live i s" "quiet i run" "\<forall>k < n. rd_ready (hw_of i s) k" "\<not> rd_ready (hw_of i s) n" "rx_pending (hw_of i s)"
  shows "\<exists>s'. uart_isr_common K run i s = Some s' \<and> uart_live i s' \<and>
    fifo_port_reads (hw_of i s') = fifo_port_reads (hw_of i s) + n \<and>
    held i s' = take 128 (held i s @ port_bytes (hw_of i s) (fifo_port_reads (hw_of i s)) (fifo_port_reads (hw_of i s) + n)) \<and>
    s_uart_sema s' i =
      (if 0 < n \<and> length (held i s) < 128 \<and> rx_blocked (s_uart_sema s i) \<and> rx_int_sema (s_uart_sema s i) \<noteq> None
       then \<lparr>rx_blocked = False, rx_int_sema = snd (rtos_set_semaphore K (rx_int_sema (s_uart_sema s i)))\<rparr>
       else s_uart_sema s i)"
proof -
  obtain s' where s': "uart_isr_common K run i s = Some s'" "rx_progress K i s s'"
      "fifo_port_reads (hw_of i s') = fifo_port_reads (hw_of i s) + n"
    using isr_spec [OF assms(1-4)] assms(5) by auto
  have held: "held i s' = take 128 (held i s @ port_bytes (hw_of i s) (fifo_port_reads (hw_of i s)) (fifo_port_reads (hw_of i s) + n))"
    using s'(2) unfolding rx_progress_def received_def s'(3) by simp
  have more: "length (held i s) < length (held i s') \<longleftrightarrow> 0 < n \<and> length (held i s) < 128"
    using held_bound [OF assms(1)] by (auto simp: held min_def)
  show ?thesis
    using s' held more
    by (intro exI [of _ s']) (auto simp: rx_progress_def wake_def)
qed

text \<open>A system whose first port is in use and holds nothing; the hardware is the one above.\<close>

definition sample_uart :: uart_sys where
  "sample_uart = \<lparr>uart_regs = (\<lambda>_. sample_hw),
     s_uart = (\<lambda>i. \<lparr>drv_hw = uart_ll_reg_base_select i, drv_id = ucast i, id_init_bits = 3, id_sw_fifo_enable_bits = 3\<rparr>),
     s_uart_driver_is_init = True,
     s_uart_rx_isr = (\<lambda>_. \<lparr>uart_callback = NULL, uart_param = NULL\<rparr>),
     s_uart_tx_isr = (\<lambda>_. \<lparr>uart_callback = NULL, uart_param = NULL\<rparr>),
     s_uart_rx_kfifo = (\<lambda>_. Some \<lparr>f_in = 0, f_out = 0, f_mask = 127, f_size = 128, f_buffer = replicate 128 0\<rparr>),
     s_uart_sema = (\<lambda>_. \<lparr>rx_blocked = False, rx_int_sema = Some 0\<rparr>),
     s_last_uart_rx_isr = \<lparr>uart_callback = NULL, uart_param = NULL\<rparr>,
     cpu_clk_div_mode1 = 0, s_printf_init = True, s_print_port = 0, s_printf_lock = True, s_printf_enable = 1,
     uart_heap = \<lparr>oom = (\<lambda>_. False), requests = 4, live = 4\<rparr>,
     sem_created = (\<lambda>_. True), mux_created = (\<lambda>_. True), objects_requested = 3, objects_live = 3, uart_calls = []\<rparr>"

lemma sample_uart_hw [simp]: "hw_of i sample_uart = sample_hw"
  by (simp add: hw_of_def sample_uart_def)

lemma sample_uart_held [simp]: "held i sample_uart = []"
  by (simp add: held_def sample_uart_def contents_def ring_read_def)

lemma empty_queue_ok: "kfifo_ok \<lparr>f_in = 0, f_out = 0, f_mask = 127, f_size = 128, f_buffer = replicate 128 0\<rparr>"
  unfolding kfifo_ok_def by (intro exI [of _ 7]) simp

lemma sample_uart_idle: "uart_idle 0 sample_uart"
  using empty_queue_ok
  by (simp add: uart_idle_def uart_live_def sample_uart_def uart_id_not_init_def uart_id_is_sw_fifo_enabled_def
      uart_ll_reg_base_select_def)

lemma sample_hw_pauses: "rx_pauses sample_hw"
proof (unfold rx_pauses_def, intro allI)
  fix k show "\<exists>n \<ge> k. get_field 21 1 (fifo_status sample_hw n) = 0"
    by (intro exI [of _ "k + 2"]) (simp add: sample_hw_def get_field_def)
qed

lemma sample_quiet: "quiet i (\<lambda>_ _ _ s. s)"
  by (simp add: quiet_def)

lemma sample_pending: "rx_pending sample_hw"
  by (simp add: rx_pending_def sample_hw_def uart_ll_is_rx_interrupt_triggered_def)

lemma sample_frame: "\<forall>k < 2. rd_ready sample_hw k" "\<not> rd_ready sample_hw 2"
  by (simp_all add: sample_hw_ready)

theorem uart_isr_receives_witness:
  "\<exists>s'. uart_isr_common sample_los (\<lambda>_ _ _ s. s) 0 sample_uart = Some s' \<and> held 0 s' = [7, 8]"
proof -
  have "uart_live 0 sample_uart" using sample_uart_idle by (simp add: uart_idle_def)
  from uart_isr_receives [OF this sample_quiet, of 2 sample_los] show ?thesis
    using sample_frame sample_pending sample_hw_bytes by (auto simp: sample_hw_def [THEN arg_cong [where f = fifo_port_reads]] numeral_2_eq_2)
qed

text \<open>
  C10. A blocking read of an idle port, with any number of interrupts of the port at every point where they can come.
  If nothing is held and nothing comes during the wait, the read waits for ever or reports a timeout, as its argument says.
  Otherwise it returns at most the number of bytes asked for, and as many of those as were there when it stopped
  waiting. In every case that returns, the bytes returned followed by the bytes held afterwards are exactly those held before
  followed by those received meanwhile, cut at the size of the queue, and the port is idle again: the semaphore is
  empty and no reader is marked as blocked, also when the interrupt came just after the timeout.
\<close>

theorem uart_read_delivers:
  assumes "los_sem_laws K" "uart_idle i s" "quiet i run" "rx_pauses (hw_of i s)" "t div ms_to_tick_ratio K \<noteq> 0"
    "uart_irqs K run i (n 0) (upd_sema i (\<lambda>q. q\<lparr>rx_blocked := True\<rparr>) s) = Some s1"
  shows "if held i s = [] \<and> held i s1 = [] then
      if t = BEKEN_WAIT_FOREVER then bk_uart_read_bytes K (irqs_at K run i n) i sz t s = None
      else \<exists>s'. bk_uart_read_bytes K (irqs_at K run i n) i sz t s = Some (BK_ERR_UART_RX_TIMEOUT, [], s') \<and>
        held i s' = take 128 (received i s s') \<and> uart_idle i s'
    else \<exists>ys s'. bk_uart_read_bytes K (irqs_at K run i n) i sz t s = Some (int (length ys), ys, s') \<and>
      ys @ held i s' = take 128 (held i s @ received i s s') \<and> uart_idle i s' \<and> length ys \<le> unat sz \<and>
      min (unat sz) (length (if held i s = [] then held i s1 else held i s)) \<le> length ys"
proof -
  have live: "uart_live i s" and q: "\<not> rx_blocked (s_uart_sema s i)" using assms(2) by (simp_all add: uart_idle_def)
  note read = read_bytes_live [OF live, of K "irqs_at K run i n" sz t]
  show ?thesis
  proof (cases "held i s = []")
    case True
    obtain s2 where s2: "uart_irqs K run i (n 0) (upd_sema i (\<lambda>q. q\<lparr>rx_blocked := True\<rparr>) s) = Some s2"
      and wait: "held i s2 = [] \<Longrightarrow> t = BEKEN_WAIT_FOREVER \<Longrightarrow> uart_read_wait K (irqs_at K run i n) i sz t s = None"
      "held i s2 = [] \<Longrightarrow> t \<noteq> BEKEN_WAIT_FOREVER \<Longrightarrow> \<exists>s'. uart_read_wait K (irqs_at K run i n) i sz t s =
         Some (BK_ERR_UART_RX_TIMEOUT, [], s') \<and> rx_read i s [] s' \<and> uart_idle i s'"
      "held i s2 \<noteq> [] \<Longrightarrow> \<exists>ys s'. uart_read_wait K (irqs_at K run i n) i sz t s = Some (int (length ys), ys, s') \<and>
         rx_read i s ys s' \<and> uart_idle i s' \<and> length ys \<le> unat sz \<and> min (unat sz) (length (held i s2)) \<le> length ys"
      using read_wait_spec [OF assms(1-4) True assms(5), of n sz] by metis
    have "s2 = s1" using s2 assms(6) by simp
    then show ?thesis using wait True read by (auto simp: rx_read_def)
  next
    case False
    from read_take_spec [OF live assms(3,4) q False, where n = n and sz = sz and K = K] obtain ys s' where
      take: "uart_read_take (irqs_at K run i n) i sz s = Some (int (length ys), ys, s')" "rx_read i s ys s'"
        "s_uart_sema s' i = s_uart_sema s i" "length ys \<le> unat sz" "min (unat sz) (length (held i s)) \<le> length ys" by blast
    have "uart_idle i s'" using take(2,3) assms(2) by (simp add: uart_idle_def rx_read_def)
    then show ?thesis using take False read by (auto simp: rx_read_def simp del: take_append)
  qed
qed

theorem uart_read_delivers_witness:
  "\<exists>s'. bk_uart_read_bytes sample_los (irqs_at sample_los (\<lambda>_ _ _ s. s) 0 (\<lambda>_. 0)) 0 5 10 sample_uart =
     Some (BK_ERR_UART_RX_TIMEOUT, [], s') \<and> uart_idle 0 s'"
proof -
  have "uart_irqs sample_los (\<lambda>_ _ _ s. s) 0 ((\<lambda>_. 0) 0) (upd_sema 0 (\<lambda>q. q\<lparr>rx_blocked := True\<rparr>) sample_uart) =
      Some (upd_sema 0 (\<lambda>q. q\<lparr>rx_blocked := True\<rparr>) sample_uart)" by simp
  moreover have "10 div ms_to_tick_ratio sample_los \<noteq> 0" by (simp add: sample_los_def)
  ultimately show ?thesis
    using uart_read_delivers [OF sample_los_laws sample_uart_idle sample_quiet, of 10 "\<lambda>_. 0" _ 5] sample_hw_pauses by auto
qed

text \<open>
  C20. Over any sequence of interrupts and reads with limited waits, every call returns, and the bytes returned by all
  the reads together with those still held form a subsequence of the bytes held at first and received since:
  the receiver may drop bytes, but it never invents, repeats or reorders one.
\<close>

theorem uart_stream:
  assumes "los_sem_laws K" "uart_idle i s" "quiet i run" "rx_pauses (hw_of i s)"
    "\<forall>n sz t. Read n sz t \<in> set ops \<longrightarrow> t div ms_to_tick_ratio K \<noteq> 0 \<and> t \<noteq> BEKEN_WAIT_FOREVER"
  shows "\<exists>ys s'. uart_session K run i ops s = Some (ys, s') \<and> uart_idle i s' \<and> subseq (ys @ held i s') (held i s @ received i s s')"
  using session_spec [OF assms] by (auto simp: rx_among_def)

theorem uart_stream_witness:
  "\<exists>ys s'. uart_session sample_los (\<lambda>_ _ _ s. s) 0 [Irq, Read (\<lambda>_. 1) 1 10, Irq, Read (\<lambda>k. k) 8 10] sample_uart = Some (ys, s') \<and>
     uart_idle 0 s' \<and> subseq (ys @ held 0 s') (received 0 sample_uart s')"
  using uart_stream [OF sample_los_laws sample_uart_idle sample_quiet, of "[Irq, Read (\<lambda>_. 1) 1 10, Irq, Read (\<lambda>k. k) 8 10]"]
    sample_hw_pauses by (simp add: sample_los_def)

text \<open>
  C36. A read that does not wait spoils the next one that does. With a timeout shorter than a tick the kernel answers that the
  semaphore is unavailable, which the code does not take for a timeout: it returns no bytes and leaves the
  reader marked as blocked. The next bytes then set the semaphore although nobody waits. After these bytes have been
  read, a read that is to wait for ever returns at once with nothing.
\<close>

theorem uart_poll_spoils_wait:
  assumes "los_sem_laws K" "uart_idle i s" "held i s = []" "quiet i run" "rx_pauses (hw_of i s)" "0 < sz"
    "t < ms_to_tick_ratio K"
  shows "\<exists>s1. bk_uart_read_bytes K (irqs_at K run i (\<lambda>_. 0)) i sz t s = Some (0, [], s1) \<and>
    (\<forall>n s2. uart_irqs K run i n s1 = Some s2 \<and> held i s2 \<noteq> [] \<longrightarrow>
       (\<exists>s3 s4. bk_uart_read_bytes K (irqs_at K run i (\<lambda>_. 0)) i 128 BEKEN_WAIT_FOREVER s2 =
           Some (int (length (held i s2)), held i s2, s3) \<and>
         bk_uart_read_bytes K (irqs_at K run i (\<lambda>_. 0)) i sz BEKEN_WAIT_FOREVER s3 = Some (0, [], s4)))"
proof -
  let ?s1 = "upd_sema i (\<lambda>q. q\<lparr>rx_int_sema := Some 0\<rparr>) (upd_sema i (\<lambda>q. q\<lparr>rx_blocked := True\<rparr>) s)"
  have live: "uart_live i s" and q: "s_uart_sema s i = \<lparr>rx_blocked = False, rx_int_sema = Some 0\<rparr>"
    using assms(2) by (simp_all add: uart_idle_def)
  have "t \<noteq> BEKEN_WAIT_FOREVER"
    using assms(7) unsigned_less [of "ms_to_tick_ratio K", where ?'a = nat] by (auto simp: word_less_nat_alt)
  moreover have "t div ms_to_tick_ratio K = 0" using assms(7) by (simp add: word_arith_nat_div word_less_nat_alt)
  ultimately have "rtos_get_semaphore K False (rx_int_sema (s_uart_sema s i)) t = Some (kGeneralErr, Some 0)"
    using q by (simp add: get_semaphore_empty [OF assms(1)])
  then have poll: "bk_uart_read_bytes K no_irqs i sz t s = Some (0, [], ?s1)"
    using wait_nothing [OF live assms(3,6)] by simp
  have "\<exists>s3 s4. bk_uart_read_bytes K no_irqs i 128 BEKEN_WAIT_FOREVER s2 = Some (int (length (held i s2)), held i s2, s3) \<and>
     bk_uart_read_bytes K no_irqs i sz BEKEN_WAIT_FOREVER s3 = Some (0, [], s4)"
    if s2: "uart_irqs K run i n ?s1 = Some s2 \<and> held i s2 \<noteq> []" for n s2
  proof -
    have p: "rx_progress K i ?s1 s2" using irqs_progress [of i ?s1 run K n] live assms(4,5) s2 by auto
    then have q2: "s_uart_sema s2 i = \<lparr>rx_blocked = False, rx_int_sema = Some 1\<rparr>"
      using s2 q assms(3) by (auto simp: rx_progress_def wake_def set_semaphore_empty [OF assms(1)])
    have pauses: "rx_pauses (hw_of i s2)" using progress_pauses [OF p] assms(5) by simp
    obtain s3 where s3: "bk_uart_read_bytes K no_irqs i 128 BEKEN_WAIT_FOREVER s2 = Some (int (length (held i s2)), held i s2, s3)"
        "uart_live i s3" "held i s3 = []" "s_uart_sema s3 i = s_uart_sema s2 i"
      using take_everything [OF progress_live [OF p] _ _ assms(4) pauses] s2 q2 by auto
    have "rtos_get_semaphore K False (rx_int_sema (s_uart_sema s3 i)) BEKEN_WAIT_FOREVER = Some (kNoErr, Some 0)"
      using s3(4) q2 get_semaphore_Suc [OF assms(1), of 0] by simp
    from wait_nothing [OF s3(2,3) assms(6) this] s3(1) show ?thesis by auto
  qed
  with poll show ?thesis unfolding irqs_at_none by blast
qed

theorem uart_poll_spoils_wait_witness:
  "\<exists>s1 s2 s3 s4. bk_uart_read_bytes sample_los (irqs_at sample_los (\<lambda>_ _ _ s. s) 0 (\<lambda>_. 0)) 0 5 0 sample_uart = Some (0, [], s1) \<and>
     uart_isr_common sample_los (\<lambda>_ _ _ s. s) 0 s1 = Some s2 \<and>
     bk_uart_read_bytes sample_los (irqs_at sample_los (\<lambda>_ _ _ s. s) 0 (\<lambda>_. 0)) 0 128 BEKEN_WAIT_FOREVER s2 = Some (2, [7, 8], s3) \<and>
     bk_uart_read_bytes sample_los (irqs_at sample_los (\<lambda>_ _ _ s. s) 0 (\<lambda>_. 0)) 0 5 BEKEN_WAIT_FOREVER s3 = Some (0, [], s4)"
proof -
  have t: "0 < ms_to_tick_ratio sample_los" "0 < (5 :: u32)" by (simp_all add: sample_los_def)
  have pauses: "rx_pauses (hw_of 0 sample_uart)" using sample_hw_pauses by simp
  note poll = uart_poll_spoils_wait [OF sample_los_laws sample_uart_idle sample_uart_held sample_quiet pauses t(2,1)]
  then obtain s1 where s1: "bk_uart_read_bytes sample_los (irqs_at sample_los (\<lambda>_ _ _ s. s) 0 (\<lambda>_. 0)) 0 5 0 sample_uart = Some (0, [], s1)"
    and next_reads: "\<And>n s2. uart_irqs sample_los (\<lambda>_ _ _ s. s) 0 n s1 = Some s2 \<Longrightarrow> held 0 s2 \<noteq> [] \<Longrightarrow>
      \<exists>s3 s4. bk_uart_read_bytes sample_los (irqs_at sample_los (\<lambda>_ _ _ s. s) 0 (\<lambda>_. 0)) 0 128 BEKEN_WAIT_FOREVER s2 =
          Some (int (length (held 0 s2)), held 0 s2, s3) \<and>
        bk_uart_read_bytes sample_los (irqs_at sample_los (\<lambda>_ _ _ s. s) 0 (\<lambda>_. 0)) 0 5 BEKEN_WAIT_FOREVER s3 = Some (0, [], s4)"
    by blast
  have live: "uart_live 0 sample_uart" and q: "rx_int_sema (s_uart_sema sample_uart 0) = Some 0"
    using sample_uart_idle by (simp_all add: uart_idle_def)
  have "rtos_get_semaphore sample_los False (Some 0) 0 = Some (kGeneralErr, Some 0)"
    by (simp add: get_semaphore_empty [OF sample_los_laws])
  then have "s1 = upd_sema 0 (\<lambda>q. q\<lparr>rx_int_sema := Some 0\<rparr>) (upd_sema 0 (\<lambda>q. q\<lparr>rx_blocked := True\<rparr>) sample_uart)"
    using s1 wait_nothing [OF live sample_uart_held t(2)] q unfolding irqs_at_none by simp
  then have s1_live: "uart_live 0 s1" "hw_of 0 s1 = sample_hw" "held 0 s1 = []" using live by simp_all
  obtain s2 where s2: "uart_isr_common sample_los (\<lambda>_ _ _ s. s) 0 s1 = Some s2" "rx_progress sample_los 0 s1 s2"
      "fifo_port_reads (hw_of 0 s2) = fifo_port_reads sample_hw + 2"
    using isr_spec [OF s1_live(1) sample_quiet, of 2 sample_los] sample_frame sample_pending by (auto simp: s1_live(2))
  have "fifo_port_reads sample_hw = 0" by (simp add: sample_hw_def)
  then have "received 0 s1 s2 = [7, 8]" using s2(3) sample_hw_bytes unfolding received_def s1_live(2) by (simp add: numeral_2_eq_2)
  then have "held 0 s2 = [7, 8]" using s2(2) unfolding rx_progress_def s1_live(3) by simp
  then show ?thesis using s1 s2(1) next_reads [of 1 s2] by auto
qed

end
