(* ===== verification/Uart_Setup.thy ===== *)
theory Uart_Setup
  imports Uart_Rx
begin

text \<open>
  Properties of the UART driver outside the receive path: starting and stopping a port, its settings, sending, and the
  console port.
\<close>

section \<open>Sending\<close>

definition wr_ready :: "uart_hw_t \<Rightarrow> nat \<Rightarrow> bool" where
  "wr_ready hw k \<longleftrightarrow> get_field 20 1 (fifo_status hw (fifo_status_reads hw + k)) \<noteq> 0"

text \<open>The transmitter has room again and again.\<close>

definition tx_drains :: "uart_hw_t \<Rightarrow> bool" where
  "tx_drains hw \<longleftrightarrow> (\<forall>k. \<exists>n \<ge> k. get_field 20 1 (fifo_status hw n) \<noteq> 0)"

text \<open>Polling one bit of the FIFO status ends if the bit is set at some read from now on.\<close>

lemma poll_field:
  assumes "get_field off 1 (fifo_status hw (fifo_status_reads hw + k)) \<noteq> 0"
  shows "\<exists>m. poll_until (\<lambda>hw. let (v, hw) = read_fifo_status hw in (get_field off 1 v \<noteq> 0, hw)) hw = Some (skip_reads m 0 hw)"
    (is "\<exists>m. poll_until ?ready hw = _")
  using assms
proof (induction k arbitrary: hw)
  case 0
  have "poll_until ?ready hw = Some (skip_reads 1 0 hw)"
    using 0 by (subst poll_until.simps) (simp add: read_fifo_status_def skip_reads_def)
  then show ?case by blast
next
  case (Suc k)
  have step: "poll_until ?ready hw = (if get_field off 1 (fifo_status hw (fifo_status_reads hw)) \<noteq> 0 then Some (skip_reads 1 0 hw)
      else poll_until ?ready (skip_reads 1 0 hw))"
    by (subst poll_until.simps) (simp add: read_fifo_status_def skip_reads_def)
  have "get_field off 1 (fifo_status (skip_reads 1 0 hw) (fifo_status_reads (skip_reads 1 0 hw) + k)) \<noteq> 0"
    using Suc.prems by simp
  from Suc.IH [OF this] show ?case unfolding step by auto
qed

lemma poll_write_ready:
  "wr_ready hw k \<Longrightarrow> \<exists>m. poll_until uart_ll_is_fifo_write_ready hw = Some (skip_reads m 0 hw)"
  unfolding wr_ready_def uart_ll_is_fifo_write_ready_def [abs_def] by (rule poll_field)

text \<open>
  Waiting for both transmitters ends if each becomes empty, and the estimate of the time is defined while
  neither holds more than 214 bytes; beyond that the product overflows.
\<close>

lemma wait_tx_over_returns:
  assumes "get_field 17 1 (fifo_status hw1 (fifo_status_reads hw1 + Suc k)) \<noteq> 0"
    "get_field 17 1 (fifo_status hw2 (fifo_status_reads hw2 + Suc l)) \<noteq> 0"
    "unat (get_field 0 8 (fifo_status hw1 (fifo_status_reads hw1))) \<le> 214"
    "unat (get_field 0 8 (fifo_status hw2 (fifo_status_reads hw2))) \<le> 214"
  shows "\<exists>us m n. uart_ll_wait_tx_over hw1 hw2 = Some (us, skip_reads m 0 hw1, skip_reads n 0 hw2)"
proof -
  have time: "\<exists>p. tx_time_product v = Some p" if "unat v \<le> 214" for v
  proof -
    have "int (unat v) \<le> 214" using that by linarith
    then have "uint v \<le> 214" by simp
    then show ?thesis by (simp add: tx_time_product_def Let_def)
  qed
  have poll: "\<exists>m. poll_until uart_ll_is_tx_fifo_empty (skip_reads 1 0 hw) = Some (skip_reads m 0 hw)"
    if "get_field 17 1 (fifo_status hw (fifo_status_reads hw + Suc k)) \<noteq> 0" for hw k
  proof -
    have "get_field 17 1 (fifo_status (skip_reads 1 0 hw) (fifo_status_reads (skip_reads 1 0 hw) + k)) \<noteq> 0" using that by simp
    from poll_field [OF this] obtain m where
      "poll_until uart_ll_is_tx_fifo_empty (skip_reads 1 0 hw) = Some (skip_reads m 0 (skip_reads 1 0 hw))"
      unfolding uart_ll_is_tx_fifo_empty_def [abs_def] by blast
    then show ?thesis by auto
  qed
  have cnt: "uart_ll_get_tx_fifo_cnt hw = (get_field 0 8 (fifo_status hw (fifo_status_reads hw)), skip_reads 1 0 hw)" for hw
    by (simp add: uart_ll_get_tx_fifo_cnt_def read_fifo_status_def skip_reads_def)
  obtain p1 p2 m n where parts: "tx_time_product (get_field 0 8 (fifo_status hw1 (fifo_status_reads hw1))) = Some p1"
    "tx_time_product (get_field 0 8 (fifo_status hw2 (fifo_status_reads hw2))) = Some p2"
    "poll_until uart_ll_is_tx_fifo_empty (skip_reads 1 0 hw1) = Some (skip_reads m 0 hw1)"
    "poll_until uart_ll_is_tx_fifo_empty (skip_reads 1 0 hw2) = Some (skip_reads n 0 hw2)"
    using time [OF assms(3)] time [OF assms(4)] poll [OF assms(1)] poll [OF assms(2)] by blast
  show ?thesis unfolding uart_ll_wait_tx_over_def Let_def cnt prod.case parts bind.bind_lunit by blast
qed

text \<open>The state after some reads of the status and some bytes handed to the transmitter.\<close>

definition send_state :: "u32 \<Rightarrow> nat \<Rightarrow> u8 list \<Rightarrow> uart_sys \<Rightarrow> uart_sys" where
  "send_state i m bs s = set_hw i ((hw_of i s)\<lparr>fifo_status_reads := fifo_status_reads (hw_of i s) + m,
     fifo_port_writes := fifo_port_writes (hw_of i s) @ map ucast bs\<rparr>) s"

lemma send_state_nothing: "send_state i 0 [] s = s"
  by (simp add: send_state_def set_hw_def hw_of_def)

lemma send_state_twice: "send_state i n cs (send_state i m bs s) = send_state i (m + n) (bs @ cs) s"
  by (simp add: send_state_def set_hw_def hw_of_def add.assoc)

text \<open>A port that can send.\<close>

definition can_send :: "u32 \<Rightarrow> uart_sys \<Rightarrow> bool" where
  "can_send i s \<longleftrightarrow> hw_at i s = Some (hw_of i s) \<and> tx_drains (hw_of i s)"

lemma can_send_state [simp]: "can_send i (send_state i m bs s) = can_send i s"
  by (simp add: can_send_def send_state_def hw_at_def tx_drains_def)

lemma ucast_and_ff: "(ucast (c :: u8) :: u32) AND 0xff = ucast c"
proof -
  have "(0xff :: u32) = mask 8" by (simp add: mask_eq_exp_minus_1)
  then have "(ucast c :: u32) AND 0xff = take_bit 8 (ucast c)" by (simp only: take_bit_eq_mask)
  also have "\<dots> = ucast c" by (rule bit_word_eqI) (auto simp: bit_simps dest: bit_imp_le_length)
  finally show ?thesis .
qed

lemma write_byte_sends:
  assumes "can_send i s"
  shows "\<exists>m. uart_write_byte i c s = Some (BK_OK, send_state i m [c] s)"
proof -
  obtain n where n: "fifo_status_reads (hw_of i s) \<le> n" "get_field 20 1 (fifo_status (hw_of i s) n) \<noteq> 0"
    using assms by (auto simp: can_send_def tx_drains_def)
  then have "wr_ready (hw_of i s) (n - fifo_status_reads (hw_of i s))" by (simp add: wr_ready_def)
  from poll_write_ready [OF this] obtain m where
    "poll_until uart_ll_is_fifo_write_ready (hw_of i s) = Some (skip_reads m 0 (hw_of i s))" by blast
  then show ?thesis
    using assms by (auto simp: uart_write_byte_def can_send_def send_state_def skip_reads_def uart_ll_write_byte_def ucast_and_ff)
qed

lemma write_n_sends:
  "can_send i s \<Longrightarrow> n \<le> length xs \<Longrightarrow> \<exists>m. uart_write_n i n xs s = Some (send_state i m (take n xs) s)"
proof (induction n arbitrary: xs s)
  case 0
  then show ?case by (intro exI [of _ 0]) (simp add: send_state_nothing)
next
  case (Suc n)
  then obtain x ys where xs: "xs = x # ys" "n \<le> length ys" by (cases xs) auto
  obtain m where m: "uart_write_byte i x s = Some (BK_OK, send_state i m [x] s)" using write_byte_sends [OF Suc.prems(1)] by blast
  obtain k where "uart_write_n i n ys (send_state i m [x] s) = Some (send_state i k (take n ys) (send_state i m [x] s))"
    using Suc.IH [of "send_state i m [x] s" ys] Suc.prems(1) xs(2) by auto
  then show ?case by (intro exI [of _ "m + k"]) (simp add: xs(1) m send_state_twice)
qed

text \<open>The text sent for a string: each line feed that does not follow a carriage return gets one.\<close>

definition crlf :: "u8 option \<Rightarrow> u8 list \<Rightarrow> u8 list" where
  "crlf before cs = concat (map2 (\<lambda>p c. if c = 10 \<and> p \<noteq> Some 13 then [13, 10] else [c]) (before # map Some cs) cs)"

lemma crlf_simps [simp]:
  "crlf before [] = []"
  "crlf before (c # cs) = (if c = 10 \<and> before \<noteq> Some 13 then [13, 10] else [c]) @ crlf (Some c) cs"
  by (simp_all add: crlf_def)

lemma write_chars_sends:
  "can_send i s \<Longrightarrow> 0 \<notin> set cs \<Longrightarrow> \<exists>m. uart_write_chars i before (cs @ 0 # rest) s = Some (send_state i m (crlf before cs) s)"
proof (induction cs arbitrary: before s)
  case Nil
  then show ?case by (intro exI [of _ 0]) (simp add: send_state_nothing)
next
  case (Cons c cs)
  define pre where "pre = (if c = 10 \<and> before \<noteq> Some 13 then [13] else [] :: u8 list)"
  obtain m where m: "(if c = 10 \<and> before \<noteq> Some 13 then uart_write_byte i 13 s else Some (BK_OK, s)) =
      Some (BK_OK, send_state i m pre s)"
  proof (cases "c = 10 \<and> before \<noteq> Some 13")
    case True
    then show ?thesis using write_byte_sends [OF Cons.prems(1), of 13] that by (auto simp: pre_def)
  next
    case False
    then show ?thesis by (intro that [of 0]) (auto simp: pre_def send_state_nothing)
  qed
  let ?s1 = "send_state i m pre s"
  have send1: "can_send i ?s1" using Cons.prems(1) by simp
  obtain k where k: "uart_write_byte i c ?s1 = Some (BK_OK, send_state i k [c] ?s1)" using write_byte_sends [OF send1] by blast
  let ?s2 = "send_state i k [c] ?s1"
  have "can_send i ?s2" "0 \<notin> set cs" using Cons.prems by simp_all
  from Cons.IH [OF this, of "Some c"] obtain l where
    "uart_write_chars i (Some c) (cs @ 0 # rest) ?s2 = Some (send_state i l (crlf (Some c) cs) ?s2)" by blast
  moreover have "c \<noteq> 0" using Cons.prems(2) by auto
  moreover have "crlf before (c # cs) = pre @ [c] @ crlf (Some c) cs" by (simp add: pre_def)
  ultimately show ?case
    using m k by (intro exI [of _ "m + k + l"]) (simp add: send_state_twice del: crlf_simps)
qed

lemma crlf_line_ends: "successively (\<lambda>x y. y = 10 \<longrightarrow> x = 13) (b # crlf (Some b) cs)"
  by (induction cs arbitrary: b) auto

lemma crlf_none: "crlf None cs = crlf (Some 0) cs"
  by (cases cs) auto

section \<open>Properties of sending\<close>

text \<open>
  C30. Writing a string ends, provided that the transmitter has room again and again, and hands to the transmitter the
  characters before the terminating NUL, in their order, each line feed that does not follow a carriage return
  preceded by an additional one. In what is sent every line feed follows a carriage return. Nothing else of the state
  changes but the number of reads of the status.
\<close>

theorem uart_write_string_crlf:
  assumes "can_send i s" "0 \<notin> set cs"
  shows "\<exists>m out. uart_write_string i (cs @ 0 # rest) s =
      Some (BK_OK, set_hw i ((hw_of i s)\<lparr>fifo_status_reads := fifo_status_reads (hw_of i s) + m,
        fifo_port_writes := fifo_port_writes (hw_of i s) @ map ucast out\<rparr>) s) \<and>
    out = concat (map2 (\<lambda>p c. if c = 10 \<and> p \<noteq> Some 13 then [13, 10] else [c]) (None # map Some cs) cs) \<and>
    successively (\<lambda>x y. y = 10 \<longrightarrow> x = 13) (0 # out)"
proof -
  obtain m where "uart_write_chars i None (cs @ 0 # rest) s = Some (send_state i m (crlf None cs) s)"
    using write_chars_sends [OF assms] by blast
  moreover have "successively (\<lambda>x y. y = 10 \<longrightarrow> x = 13) (0 # crlf None cs)"
    using crlf_line_ends [of 0 cs] by (simp add: crlf_none)
  ultimately show ?thesis by (auto simp: uart_write_string_def send_state_def crlf_def)
qed

text \<open>Hardware whose transmitter has room at every third look.\<close>

definition sample_tx :: uart_sys where
  "sample_tx = sample_uart\<lparr>uart_regs := (\<lambda>_. sample_hw\<lparr>fifo_status := (\<lambda>k. if k mod 3 = 2 then 0x100000 else 0)\<rparr>)\<rparr>"

lemma sample_tx_drains: "tx_drains (sample_hw\<lparr>fifo_status := (\<lambda>k. if k mod 3 = 2 then 0x100000 else 0)\<rparr>)"
proof (unfold tx_drains_def, intro allI)
  fix k :: nat
  have "3 * k + 2 \<ge> k" "(3 * k + 2) mod 3 = 2" by presburger+
  then show "\<exists>n \<ge> k. get_field 20 1 (fifo_status (sample_hw\<lparr>fifo_status := (\<lambda>k. if k mod 3 = 2 then 0x100000 else 0)\<rparr>) n) \<noteq> 0"
    by (intro exI [of _ "3 * k + 2"]) (simp add: get_field_def)
qed

lemma sample_tx_can_send: "can_send 0 sample_tx"
  using sample_tx_drains
  by (simp add: can_send_def hw_at_def hw_of_def sample_tx_def sample_uart_def uart_ll_reg_base_select_def)

theorem uart_write_string_crlf_witness:
  "\<exists>s'. uart_write_string 0 [72, 10, 13, 10, 0, 33] sample_tx = Some (BK_OK, s') \<and>
     fifo_port_writes (hw_of 0 s') = [72, 13, 10, 13, 10]"
proof -
  have "0 \<notin> set [72, 10, 13, 10 :: u8]" by simp
  from uart_write_string_crlf [OF sample_tx_can_send this, of "[33]"] obtain m out where
    w: "uart_write_string 0 ([72, 10, 13, 10] @ 0 # [33]) sample_tx =
        Some (BK_OK, set_hw 0 ((hw_of 0 sample_tx)\<lparr>fifo_status_reads := fifo_status_reads (hw_of 0 sample_tx) + m,
          fifo_port_writes := fifo_port_writes (hw_of 0 sample_tx) @ map ucast out\<rparr>) sample_tx)"
    and out: "out = concat (map2 (\<lambda>p c. if c = 10 \<and> p \<noteq> Some 13 then [13, 10] else [c]) (None # map Some [72, 10, 13, 10 :: u8]) [72, 10, 13, 10 :: u8])"
    by (elim exE conjE) (rule that)
  have "out = [72, 13, 10, 13, 10]" unfolding out by simp
  moreover have "fifo_port_writes (hw_of 0 sample_tx) = []"
    by (simp add: hw_of_def sample_tx_def sample_uart_def sample_hw_def)
  ultimately show ?thesis using w by simp
qed

section \<open>The baud rate\<close>

lemma baud_supported_iff: "\<not> baud_rate_not_support rate \<longleftrightarrow> 3173 \<le> unat rate \<and> unat rate \<le> 5200000"
  by (simp add: baud_rate_not_support_def word_less_nat_alt word_le_nat_alt unat_div not_less)

lemma select_clock_get_not_dco: "sys_hal_uart_select_clock_get i s \<noteq> UART_SCLK_DCO"
  by (simp add: sys_hal_uart_select_clock_get_def Let_def)

text \<open>The divider that is written: the quotient less one, cut to the thirteen bits of its field.\<close>

lemma set_baud_rate_div:
  assumes "sclk \<noteq> UART_SCLK_DCO" "3173 \<le> unat rate" "unat rate \<le> 5200000"
  shows "unat (get_field 8 13 (u_config (uart_hal_set_baud_rate sclk rate hw))) = (26000000 div unat rate - 1) mod 2 ^ 13"
proof -
  define d where "d = (26000000 div rate - 1 :: u32)"
  have "5 * unat rate \<le> 26000000" using assms(3) by simp
  then have "1 \<le> 26000000 div unat rate" using assms(2) by (simp add: less_eq_div_iff_mult_less_eq)
  then have "(1 :: u32) \<le> 26000000 div rate" by (simp add: word_le_nat_alt unat_div)
  then have d: "unat d = 26000000 div unat rate - 1" by (simp add: d_def unat_sub unat_div)
  have "(0x1fff :: u32) = mask 13" by (simp add: mask_eq_exp_minus_1)
  then have cut: "(26000000 div rate - 1) AND (0x1fff :: u32) = take_bit 13 d" by (simp only: take_bit_eq_mask d_def)
  have field: "get_field 8 13 (u_config (uart_hal_set_baud_rate sclk rate hw)) = take_bit 13 d"
    using assms(1) get_set_same [where 'a = 32 and off = 8 and n = 13 and v = "take_bit 13 d" and w = "u_config hw"]
    by (simp add: uart_hal_set_baud_rate_def uart_ll_set_clk_div_def cut)
  show ?thesis unfolding field unsigned_take_bit_eq d by (rule take_bit_eq_mod)
qed

lemma set_baud_rate_other_bits:
  "k < 8 \<or> 21 \<le> k \<Longrightarrow> bit (u_config (uart_hal_set_baud_rate sclk rate hw)) k = bit (u_config hw) k"
  using bit_imp_le_length [of "u_config hw" k]
  by (auto simp: uart_hal_set_baud_rate_def uart_ll_set_clk_div_def bit_set_field)

text \<open>
  C32. Setting the baud rate. A rate outside 3173 to 5200000 is refused and changes nothing. From 3174 on the divider written
  is the largest that does not make the port slower than asked, it fits its field, and no other setting of
  the register is touched. The lowest rate that is accepted, 3173, is out of the divider's reach: the field keeps the
  value 1, which is 13 million baud.
\<close>

theorem uart_baud_rate:
  assumes "s_uart_driver_is_init s" "i < SOC_UART_ID_NUM_PER_UNIT"
  shows "if unat rate < 3173 \<or> 5200000 < unat rate then bk_uart_set_baud_rate i rate s = (BK_ERR_UART_BAUD_RATE_NOT_SUPPORT, s)
    else \<exists>hw. bk_uart_set_baud_rate i rate s = (BK_OK, set_hw i hw s) \<and>
      (\<forall>k. k < 8 \<or> 21 \<le> k \<longrightarrow> bit (u_config hw) k = bit (u_config (hw_of i s)) k) \<and>
      (let d = unat (get_field 8 13 (u_config hw)) in
         if unat rate = 3173 then d = 1 else unat rate * (d + 1) \<le> 26000000 \<and> 26000000 < unat rate * (d + 2))"
proof (cases "unat rate < 3173 \<or> 5200000 < unat rate")
  case True
  then show ?thesis
    using assms baud_supported_iff [of rate] by (auto simp: bk_uart_set_baud_rate_def uart_checks_def not_le [symmetric])
next
  case False
  let ?q = "26000000 div unat rate" and ?clk = "sys_hal_uart_select_clock_get i s"
  let ?hw = "uart_hal_set_baud_rate ?clk rate (hw_of i s)"
  have r: "3173 \<le> unat rate" "unat rate \<le> 5200000" using False by simp_all
  have ok: "bk_uart_set_baud_rate i rate s = (BK_OK, set_hw i ?hw s)"
    using assms r baud_supported_iff [of rate] by (auto simp: bk_uart_set_baud_rate_def uart_checks_def upd_hw_def not_le [symmetric])
  note d = set_baud_rate_div [OF select_clock_get_not_dco r]
  have "unat rate * (?q - 1 + 1) \<le> 26000000 \<and> 26000000 < unat rate * (?q - 1 + 2) \<and> ?q - 1 < 2 ^ 13" if "unat rate \<noteq> 3173"
  proof -
    have "3174 \<le> unat rate" using r that by simp
    then have "?q \<le> 26000000 div 3174" by (rule div_le_mono2 [rotated]) simp
    moreover have "1 \<le> ?q" using r by (simp add: less_eq_div_iff_mult_less_eq)
    moreover have "26000000 < unat rate * (?q + 1)" using r(1) dividend_less_times_div [of "unat rate" 26000000] by simp
    ultimately show ?thesis by simp
  qed
  then have "let d = unat (get_field 8 13 (u_config ?hw)) in
      if unat rate = 3173 then d = 1 else unat rate * (d + 1) \<le> 26000000 \<and> 26000000 < unat rate * (d + 2)"
    unfolding d by (cases "unat rate = 3173") simp_all
  with ok show ?thesis
    unfolding if_not_P [OF False] by (intro exI [of _ ?hw] conjI allI impI set_baud_rate_other_bits)
qed

theorem uart_baud_rate_witness:
  "\<exists>hw. bk_uart_set_baud_rate 0 3173 sample_uart = (BK_OK, set_hw 0 hw sample_uart) \<and> unat (get_field 8 13 (u_config hw)) = 1"
proof -
  have "s_uart_driver_is_init sample_uart" "(0 :: u32) < SOC_UART_ID_NUM_PER_UNIT" by (simp_all add: sample_uart_def)
  from uart_baud_rate [OF this, of 3173] show ?thesis by auto
qed

section \<open>Starting and stopping a port\<close>

lemma port_cases: "i < SOC_UART_ID_NUM_PER_UNIT \<Longrightarrow> i = 0 \<or> i = 1" for i :: u32
  by (simp add: word_less_nat_alt word_unat_eq_iff) linarith

text \<open>The driver's variables, without the requests to other drivers and the selected clocks.\<close>

definition uart_core :: "uart_sys \<Rightarrow> (addr \<Rightarrow> uart_hw_t) \<times> (u32 \<Rightarrow> uart_driver_t) \<times> bool \<times> (u32 \<Rightarrow> kfifo option) \<times>
    (u32 \<Rightarrow> uart_sema_t) \<times> heap \<times> (nat \<Rightarrow> bool) \<times> (nat \<Rightarrow> bool) \<times> nat \<times> int \<times> bool \<times> u8 \<times> bool" where
  "uart_core s = (uart_regs s, s_uart s, s_uart_driver_is_init s, s_uart_rx_kfifo s, s_uart_sema s, uart_heap s,
     sem_created s, mux_created s, objects_requested s, objects_live s, s_printf_lock s, s_print_port s, s_printf_init s)"

lemma core_simps [simp]:
  "uart_core (log_call c s) = uart_core s" "uart_core (uart_clock_enable i s) = uart_core s"
  "uart_core (uart_clock_disable i s) = uart_core s" "uart_core (uart_interrupt_enable i s) = uart_core s"
  "uart_core (uart_interrupt_disable i s) = uart_core s" "uart_core (uart_init_gpio i s) = uart_core s"
  "uart_core (sys_hal_uart_select_clock i m s) = uart_core s"
  by (simp_all add: uart_core_def log_call_def uart_clock_enable_def uart_clock_disable_def uart_interrupt_enable_def
      uart_interrupt_disable_def uart_init_gpio_def uart_init_pins_def sys_hal_uart_select_clock_def Let_def)

text \<open>What the start of a port makes of the driver's variables, whether or not its queue could be allocated.\<close>

definition started :: "u32 \<Rightarrow> kfifo option \<Rightarrow> heap \<Rightarrow> uart_sys \<Rightarrow> uart_sys" where
  "started i f h s = s\<lparr>s_uart := (s_uart s)(i := (s_uart s i)\<lparr>id_init_bits := id_init_bits (s_uart s i) OR 2 ^ unat i,
       id_sw_fifo_enable_bits := id_sw_fifo_enable_bits (s_uart s i) OR 2 ^ unat i\<rparr>),
     s_uart_rx_kfifo := (s_uart_rx_kfifo s)(i := f), uart_heap := h,
     s_uart_sema := (s_uart_sema s)(i := \<lparr>rx_blocked = False, rx_int_sema = Some 0\<rparr>),
     objects_requested := objects_requested s + 1, objects_live := objects_live s + 1\<rparr>"

lemma sema_update [simp]: "q\<lparr>rx_blocked := b, rx_int_sema := n\<rparr> = \<lparr>rx_blocked = b, rx_int_sema = n\<rparr>" for q :: uart_sema_t
  by (cases q) simp

lemma init_common_started:
  assumes "s_uart_rx_kfifo s i = None" "rx_int_sema (s_uart_sema s i) = None" "sem_created s (objects_requested s)"
    "kfifo_alloc CONFIG_KFIFO_SIZE (uart_heap s) = (f, h)"
  shows "\<exists>s'. uart_id_init_common i s = Some (BK_OK, s') \<and> uart_core s' = uart_core (started i f h s)"
proof -
  define s1 where "s1 = uart_init_gpio i (sys_hal_uart_select_clock i UART_SCLK_XTAL_26M (uart_clock_enable i s))"
  have "uart_core s1 = uart_core s" by (simp add: s1_def)
  then show ?thesis
    using assms
    by (simp add: uart_id_init_common_def s1_def [symmetric] uart_id_init_kfifo_def uart_init_sema_def rtos_init_semaphore_def
        rtos_init_semaphore_ex_def upd_sema_def upd_drv_def started_def Let_def uart_core_def)
qed

text \<open>The whole start of a port with a valid configuration.\<close>

definition init_hw :: "uart_config_t \<Rightarrow> uart_hw_t \<Rightarrow> uart_hw_t" where
  "init_hw c hw = uart_hal_start_common (uart_hal_init_uart c hw)"

lemma uart_init_started:
  assumes "s_uart_driver_is_init s" "i < SOC_UART_ID_NUM_PER_UNIT" "\<not> baud_rate_not_support (baud_rate c)"
    "s_uart_rx_kfifo s i = None" "rx_int_sema (s_uart_sema s i) = None" "sem_created s (objects_requested s)"
    "kfifo_alloc CONFIG_KFIFO_SIZE (uart_heap s) = (f, h)"
  shows "\<exists>s'. bk_uart_init i (Some c) s = Some (BK_OK, s') \<and> uart_core s' = uart_core (upd_hw i (init_hw c) (started i f h s))"
proof -
  obtain s1 where s1: "uart_id_init_common i s = Some (BK_OK, s1)" "uart_core s1 = uart_core (started i f h s)"
    using init_common_started [OF assms(4-7)] by blast
  define m where "m = (if src_clk c = UART_SCLK_APLL then UART_SCLK_APLL else UART_SCLK_XTAL_26M)"
  have "bk_uart_init i (Some c) s =
      Some (BK_OK, upd_hw i uart_hal_start_common (upd_hw i (uart_hal_init_uart c) (sys_hal_uart_select_clock i m s1)))"
    using assms(1-3) s1(1) by (simp add: bk_uart_init_def m_def linorder_not_le)
  moreover have "uart_core (sys_hal_uart_select_clock i m s1) = uart_core (started i f h s)" using s1(2) by simp
  ultimately show ?thesis by (simp add: upd_hw_def set_hw_def hw_of_def uart_core_def init_hw_def)
qed

lemmas init_hw_defs =
  init_hw_def uart_hal_start_common_def uart_hal_init_uart_def uart_ll_enable_rx_def uart_ll_enable_tx_def uart_ll_set_rx_enable_def
  uart_ll_set_tx_enable_def uart_ll_reset_int_en_to_default_def uart_ll_reset_fifo_port_to_default_def uart_ll_set_mode_uart_def
  uart_ll_set_data_bits_def uart_ll_set_stop_bits_def uart_hal_set_parity_def uart_ll_set_parity_def uart_ll_enable_parity_def
  uart_ll_disable_parity_def uart_hal_set_baud_rate_def uart_ll_set_clk_div_def uart_ll_set_tx_fifo_threshold_def
  uart_ll_set_rx_fifo_threshold_def uart_ll_set_rx_stop_detect_time_def uart_ll_reset_flow_control_to_default_def
  uart_hal_set_hw_flow_ctrl_def uart_ll_enable_flow_control_def uart_ll_set_flow_control_low_cnt_def
  uart_ll_set_flow_control_high_cnt_def uart_ll_set_rts_polarity_def uart_ll_set_cts_polarity_def
  uart_ll_reset_wake_config_to_default_def

lemma take_bit_and_3: "take_bit 2 v AND 3 = take_bit 2 v" for v :: u32
proof -
  have "(3 :: u32) = mask 2" by (simp add: mask_eq_exp_minus_1)
  then have "take_bit 2 v AND 3 = take_bit 2 (take_bit 2 v)" by (simp only: take_bit_eq_mask)
  then show ?thesis by simp
qed

text \<open>The registers of a port that has been started.\<close>

lemma init_hw_config:
  "get_field 0 1 (u_config (init_hw c hw)) = 1" "get_field 1 1 (u_config (init_hw c hw)) = 1"
  "get_field 2 1 (u_config (init_hw c hw)) = 0" "get_field 3 2 (u_config (init_hw c hw)) = take_bit 2 (data_bits c)"
  "get_field 5 1 (u_config (init_hw c hw)) = of_bool (parity c \<noteq> UART_PARITY_NONE)"
  "get_field 6 1 (u_config (init_hw c hw)) = of_bool (parity c = UART_PARITY_EVEN)"
  "get_field 7 1 (u_config (init_hw c hw)) = take_bit 1 (stop_bits c)"
  "int_enable (init_hw c hw) = 0" "get_field 16 1 (flow_ctrl_config (init_hw c hw)) = of_bool (flow_ctrl c \<noteq> UART_FLOWCTRL_DISABLE)"
  "int_status (init_hw c hw) = int_status hw" "int_status_reads (init_hw c hw) = int_status_reads hw"
  by (simp_all add: init_hw_defs Let_def field_simps uart_ll_to_reg_parity_def take_bit_and_3 split: uart_parity_t.split)


lemma set_bit_is_set: "n < 8 \<Longrightarrow> (b OR 2 ^ n) AND 2 ^ n \<noteq> (0 :: u8)"
  by (simp add: bit_iff_and_exp [symmetric] bit_or_exp)

lemma port_bit: "i < SOC_UART_ID_NUM_PER_UNIT \<Longrightarrow> unat i < 8" for i :: u32
  by (simp add: word_less_nat_alt)

lemma started_live:
  assumes "s_uart_driver_is_init s" "i < SOC_UART_ID_NUM_PER_UNIT"
    "uart_core s' = uart_core (upd_hw i g (started i f h s))"
  shows "\<not> uart_id_not_init i s'" "uart_id_is_sw_fifo_enabled i s'" "s_uart_rx_kfifo s' i = f"
    "s_uart_sema s' i = \<lparr>rx_blocked = False, rx_int_sema = Some 0\<rparr>" "hw_of i s' = g (hw_of i s)"
    "s_uart_driver_is_init s'" "drv_hw (s_uart s' i) = drv_hw (s_uart s i)"
    "uart_heap s' = h" "objects_live s' = objects_live s + 1"
  using assms set_bit_is_set [OF port_bit [OF assms(2)]]
  by (simp_all add: uart_id_not_init_def uart_id_is_sw_fifo_enabled_def uart_core_def upd_hw_def set_hw_def hw_of_def started_def)

text \<open>What the stop of a port makes of the driver's variables.\<close>

definition stopped :: "u32 \<Rightarrow> uart_sys \<Rightarrow> uart_sys" where
  "stopped i s = (upd_hw i (\<lambda>hw. uart_ll_reset_config_to_default (uart_hal_stop_common hw)) s)\<lparr>
     s_uart := (s_uart s)(i := (s_uart s i)\<lparr>id_init_bits := id_init_bits (s_uart s i) AND NOT (2 ^ unat i)\<rparr>),
     s_uart_rx_kfifo := (s_uart_rx_kfifo s)(i := None),
     uart_heap := (case s_uart_rx_kfifo s i of None \<Rightarrow> uart_heap s | Some f \<Rightarrow> kfifo_free f (uart_heap s)),
     s_uart_sema := (s_uart_sema s)(i := (s_uart_sema s i)\<lparr>rx_int_sema := None\<rparr>),
     objects_live := objects_live s - (if rx_int_sema (s_uart_sema s i) = None then 0 else 1)\<rparr>"

lemma deinit_common_stopped: "uart_core (uart_id_deinit_common i s) = uart_core (stopped i s)"
proof -
  define s1 where "s1 = upd_hw i uart_ll_reset_config_to_default (upd_hw i uart_hal_stop_common
    (upd_drv i (\<lambda>d. d\<lparr>id_init_bits := id_init_bits d AND NOT (2 ^ unat i)\<rparr>) s))"
  define s2 where "s2 = uart_clock_disable i (uart_interrupt_disable i s1)"
  have "uart_core s2 = uart_core s1" by (simp add: s2_def)
  moreover have "uart_id_deinit_common i s = uart_deinit_sema i (uart_id_deinit_kfifo i s2)"
    by (simp add: uart_id_deinit_common_def s1_def s2_def Let_def)
  ultimately show ?thesis
    by (simp add: s1_def uart_core_def stopped_def uart_deinit_sema_def uart_id_deinit_kfifo_def upd_sema_def upd_hw_def set_hw_def
        hw_of_def upd_drv_def rtos_deinit_semaphore_def Let_def split: option.split)
qed

lemma deinit_common_frees:
  "live (uart_heap (uart_id_deinit_common i s)) = live (uart_heap s) - (if s_uart_rx_kfifo s i = None then 0 else 2)"
  "objects_live (uart_id_deinit_common i s) = objects_live s - (if rx_int_sema (s_uart_sema s i) = None then 0 else 1)"
  using deinit_common_stopped [of i s]
  by (auto simp: uart_core_def stopped_def upd_hw_def set_hw_def kfifo_free_def split: option.splits)

section \<open>Properties of starting\<close>


text \<open>A system just started, before any port.\<close>

definition sample_stopped :: uart_sys where
  "sample_stopped = sample_uart\<lparr>s_uart_rx_kfifo := (\<lambda>_. None), s_uart_sema := (\<lambda>_. \<lparr>rx_blocked = False, rx_int_sema = None\<rparr>),
     uart_heap := \<lparr>oom = (\<lambda>_. False), requests = 0, live = 0\<rparr>, objects_requested := 0, objects_live := 0\<rparr>"

lemma sample_stopped_simps:
  "s_uart_driver_is_init sample_stopped" "drv_hw (s_uart sample_stopped 0) \<noteq> NULL" "s_uart_rx_kfifo sample_stopped 0 = None"
  "rx_int_sema (s_uart_sema sample_stopped 0) = None" "sem_created sample_stopped (objects_requested sample_stopped)"
  "hw_of 0 sample_stopped = sample_hw"
  by (simp_all add: sample_stopped_def sample_uart_def uart_ll_reg_base_select_def hw_of_def)

lemma printf_config_supported: "\<not> baud_rate_not_support (baud_rate printf_config)"
  by (simp add: baud_supported_iff printf_config_def)


lemma enabled_rx_pending:
  assumes "bit (int_status hw (int_status_reads hw)) 1"
  shows "rx_pending (uart_ll_enable_rx_interrupt hw)"
proof -
  define v where "v = set_field 6 1 1 (set_field 1 1 1 (int_enable hw))"
  have "bit v 1" by (simp add: v_def bit_set_field)
  moreover have "bit (0xff :: u32) 1" by (simp add: bit_iff_odd)
  ultimately have "bit (((int_status hw (int_status_reads hw) AND 0xff) AND (v AND 0xff)) AND (2 ^ 1 OR 2 ^ 6)) 1"
    using assms by (simp only: bit_and_iff bit_or_iff bit_exp_iff) simp
  then have "((int_status hw (int_status_reads hw) AND 0xff) AND (v AND 0xff)) AND (2 ^ 1 OR 2 ^ 6) \<noteq> 0"
    by (metis bit_0_eq bot_apply bot_bool_def)
  moreover have "int_enable (uart_ll_enable_rx_interrupt hw) = v" "int_status (uart_ll_enable_rx_interrupt hw) = int_status hw"
    "int_status_reads (uart_ll_enable_rx_interrupt hw) = int_status_reads hw"
    by (simp_all add: uart_ll_enable_rx_interrupt_def v_def)
  ultimately show ?thesis by (simp only: rx_pending_def uart_ll_is_rx_interrupt_triggered_def not_False_eq_True)
qed

text \<open>
  C35. Starting a port when its queue cannot be allocated. The failure is overwritten by the result of creating the semaphore
  and then ignored: the call reports success and marks the port as in use with a queue it does not have. A read follows the null
  pointer, and so does the handler at the first receive interrupt once these are enabled.
\<close>

theorem uart_init_ignores_oom:
  assumes "s_uart_driver_is_init s" "i < SOC_UART_ID_NUM_PER_UNIT" "drv_hw (s_uart s i) \<noteq> NULL"
    "\<not> baud_rate_not_support (baud_rate c)" "s_uart_rx_kfifo s i = None" "rx_int_sema (s_uart_sema s i) = None"
    "sem_created s (objects_requested s)" "kfifo_alloc CONFIG_KFIFO_SIZE (uart_heap s) = (None, h)"
    "bit (int_status (hw_of i s) (int_status_reads (hw_of i s))) 1"
  shows "\<exists>s' s''. bk_uart_init i (Some c) s = Some (BK_OK, s') \<and> bk_uart_is_in_used i s' \<noteq> Some 0 \<and>
    bk_uart_read_bytes K env i sz t s' = None \<and>
    bk_uart_enable_rx_interrupt i s' = (BK_OK, s'') \<and> uart_isr_common K run i s'' = None"
proof -
  obtain s' where s': "bk_uart_init i (Some c) s = Some (BK_OK, s')"
      "uart_core s' = uart_core (upd_hw i (init_hw c) (started i None h s))"
    using uart_init_started [OF assms(1,2,4-8)] by blast
  note port = started_live [OF assms(1,2) s'(2)]
  have checks: "uart_checks i s' = BK_OK" using port(6) assms(2) by (simp add: uart_checks_def linorder_not_le)
  have read: "bk_uart_read_bytes K env i sz t s' = None"
    using checks port(1-3) by (simp add: bk_uart_read_bytes_def)
  define u where "u = uart_interrupt_enable i s'"
  define s'' where "s'' = upd_hw i uart_ll_enable_rx_interrupt u"
  have u: "uart_core u = uart_core s'" by (simp add: u_def)
  then have hw: "hw_of i s'' = uart_ll_enable_rx_interrupt (init_hw c (hw_of i s))"
    using port(5) by (simp add: s''_def upd_hw_def uart_core_def hw_of_def set_hw_def)
  have enable: "bk_uart_enable_rx_interrupt i s' = (BK_OK, s'')"
    by (simp add: bk_uart_enable_rx_interrupt_def uart_checked_def checks s''_def u_def)
  have "rx_pending (hw_of i s'')" unfolding hw using assms(9) by (intro enabled_rx_pending) (simp add: init_hw_config)
  moreover have "hw_at i s'' = Some (hw_of i s'')" "uart_id_is_sw_fifo_enabled i s''" "s_uart_rx_kfifo s'' i = None"
    using u port(2,3,7) assms(2,3)
    by (simp_all add: s''_def upd_hw_def hw_at_def uart_core_def uart_id_is_sw_fifo_enabled_def)
  ultimately have "uart_isr_common K run i s'' = None"
    by (simp add: uart_isr_common_def uart_isr_rx_def rx_pending_def uart_ll_get_interrupt_status_def read_int_status_def
        uart_ll_get_int_enable_status_def uart_id_is_sw_fifo_enabled_def Let_def)
  moreover have "bk_uart_is_in_used i s' \<noteq> Some 0" using port(1) by (simp add: bk_uart_is_in_used_def uart_id_not_init_def)
  ultimately show ?thesis using s'(1) read enable by blast
qed

definition sample_no_memory :: uart_sys where
  "sample_no_memory = sample_stopped\<lparr>uart_heap := \<lparr>oom = (\<lambda>_. True), requests = 0, live = 0\<rparr>,
     uart_regs := (\<lambda>_. sample_hw\<lparr>int_status := (\<lambda>_. 2)\<rparr>)\<rparr>"

theorem uart_init_ignores_oom_witness:
  "\<exists>s'. bk_uart_init 0 (Some printf_config) sample_no_memory = Some (BK_OK, s') \<and>
     bk_uart_read_bytes sample_los (\<lambda>_ s. Some s) 0 1 10 s' = None"
proof -
  have "s_uart_driver_is_init sample_no_memory" "(0 :: u32) < SOC_UART_ID_NUM_PER_UNIT" "drv_hw (s_uart sample_no_memory 0) \<noteq> NULL"
    "s_uart_rx_kfifo sample_no_memory 0 = None" "rx_int_sema (s_uart_sema sample_no_memory 0) = None"
    "sem_created sample_no_memory (objects_requested sample_no_memory)"
    using sample_stopped_simps by (simp_all add: sample_no_memory_def)
  moreover have "kfifo_alloc CONFIG_KFIFO_SIZE (uart_heap sample_no_memory) = (None, \<lparr>oom = (\<lambda>_. True), requests = 1, live = 0\<rparr>)"
    by (simp add: sample_no_memory_def kfifo_alloc_def os_zalloc_def)
  moreover have "bit (int_status (hw_of 0 sample_no_memory) (int_status_reads (hw_of 0 sample_no_memory))) 1"
    by (simp add: sample_no_memory_def hw_of_def bit_iff_odd)
  ultimately show ?thesis
    using uart_init_ignores_oom [OF _ _ _ printf_config_supported, of sample_no_memory 0] by blast
qed

section \<open>The console port\<close>

lemma deinit_common_fields:
  "s_uart_driver_is_init (uart_id_deinit_common i s) = s_uart_driver_is_init s"
  "mux_created (uart_id_deinit_common i s) = mux_created s" "sem_created (uart_id_deinit_common i s) = sem_created s"
  "objects_requested (uart_id_deinit_common i s) = objects_requested s"
  "s_printf_init (uart_id_deinit_common i s) = s_printf_init s" "s_printf_lock (uart_id_deinit_common i s) = s_printf_lock s"
  "s_print_port (uart_id_deinit_common i s) = s_print_port s"
  "id_init_bits (s_uart (uart_id_deinit_common i s) i) = id_init_bits (s_uart s i) AND NOT (2 ^ unat i)"
  "s_uart_rx_kfifo (uart_id_deinit_common i s) = (s_uart_rx_kfifo s)(i := None)"
  "rx_int_sema (s_uart_sema (uart_id_deinit_common i s) j) = (if j = i then None else rx_int_sema (s_uart_sema s j))"
  using deinit_common_stopped [of i s] by (auto simp: uart_core_def stopped_def upd_hw_def set_hw_def)


lemma port_of_u8: "(p :: u8) < 2 \<Longrightarrow> (ucast p :: u32) < SOC_UART_ID_NUM_PER_UNIT"
proof -
  assume "p < 2"
  then have "p = 0 \<or> p = 1" by (simp add: word_less_nat_alt word_unat_eq_iff) linarith
  then show ?thesis by auto
qed



text \<open>
  Stopping the driver leaves the console's mutex alone, and starting it again creates another one over it: the number of
  kernel objects that no variable refers to grows by one.
\<close>

definition lost_objects :: "uart_sys \<Rightarrow> int" where
  "lost_objects s = objects_live s - of_bool (s_printf_lock s) - of_bool (rx_int_sema (s_uart_sema s 0) \<noteq> None) -
     of_bool (rx_int_sema (s_uart_sema s 1) \<noteq> None)"

lemma uart_restart_leaks_mutex:
  assumes "s_uart_driver_is_init s" "s_printf_lock s" "s_print_port s < 2" "mux_created s (objects_requested s)"
    "sem_created s (objects_requested s + 1)"
  shows "\<exists>s'. bk_uart_driver_init (snd (bk_uart_driver_deinit s)) = Some (BK_OK, s') \<and> lost_objects s' = lost_objects s + 1"
proof -
  let ?p = "ucast (s_print_port s) :: u32"
  have p: "?p < SOC_UART_ID_NUM_PER_UNIT" by (rule port_of_u8 [OF assms(3)])
  define s1 where "s1 = snd (bk_uart_driver_deinit s)"
  note s1_eq = s1_def bk_uart_driver_deinit_def Let_def deinit_common_fields deinit_common_frees
  have s1: "\<not> s_uart_driver_is_init s1" "s_printf_lock s1" "s_print_port s1 = s_print_port s" "mux_created s1 = mux_created s"
    "sem_created s1 = sem_created s" "objects_requested s1 = objects_requested s" "s_uart_rx_kfifo s1 0 = None"
    "s_uart_rx_kfifo s1 1 = None" "rx_int_sema (s_uart_sema s1 0) = None" "rx_int_sema (s_uart_sema s1 1) = None"
    using assms(1,2) by (simp_all add: s1_eq)
  have live: "objects_live s1 = lost_objects s + 1" using assms(1,2) by (simp add: s1_eq lost_objects_def)
  define t0 where "t0 = (uart_driver_init_id UART_ID_1 (uart_driver_init_id UART_ID_0 (s1\<lparr>
      s_uart := (\<lambda>_. \<lparr>drv_hw = NULL, drv_id = 0, id_init_bits = 0, id_sw_fifo_enable_bits = 0\<rparr>),
      s_uart_rx_isr := (\<lambda>_. \<lparr>uart_callback = NULL, uart_param = NULL\<rparr>),
      s_uart_tx_isr := (\<lambda>_. \<lparr>uart_callback = NULL, uart_param = NULL\<rparr>)\<rparr>)))\<lparr>s_uart_driver_is_init := True\<rparr>"
  define t1 where "t1 = t0\<lparr>s_printf_lock := True, objects_requested := objects_requested t0 + 1, objects_live := objects_live t0 + 1\<rparr>"
  have t0: "mux_created t0 = mux_created s1" "sem_created t0 = sem_created s1" "objects_requested t0 = objects_requested s1"
    "objects_live t0 = objects_live s1" "s_uart_rx_kfifo t0 = s_uart_rx_kfifo s1" "s_uart_sema t0 = s_uart_sema s1"
    "s_print_port t0 = s_print_port s1" "s_uart_driver_is_init t0"
    by (simp_all add: t0_def uart_driver_init_id_def uart_isr_register_functions_def upd_drv_def log_call_def Let_def)
  obtain f h where alloc: "kfifo_alloc CONFIG_KFIFO_SIZE (uart_heap t1) = (f, h)" by fastforce
  have none: "s_uart_rx_kfifo t1 ?p = None" "rx_int_sema (s_uart_sema t1 ?p) = None"
    using port_cases [OF p] s1 t0 by (auto simp: t1_def)
  have "s_uart_driver_is_init t1" "sem_created t1 (objects_requested t1)" using assms(5) s1 t0 by (simp_all add: t1_def)
  from uart_init_started [OF this(1) p printf_config_supported none this(2) alloc] obtain s2 where
    s2: "bk_uart_init ?p (Some printf_config) t1 = Some (BK_OK, s2)"
      "uart_core s2 = uart_core (upd_hw ?p (init_hw printf_config) (started ?p f h t1))" by blast
  have port: "bk_get_printf_port t1 = ?p" using t0(7) s1(3) by (simp add: bk_get_printf_port_def t1_def)
  have "printf_lock_init t0 = Some (BK_OK, t1)" using t0(1,3) s1(4,6) assms(4) by (simp add: printf_lock_init_def t1_def)
  then have "bk_printf_init t0 = Some (BK_OK, s2\<lparr>s_printf_init := True\<rparr>)" by (simp add: bk_printf_init_def port s2(1))
  then have "bk_uart_driver_init s1 = Some (BK_OK, s2\<lparr>s_printf_init := True\<rparr>)"
    using s1(1) by (simp add: bk_uart_driver_init_def Let_def t0_def)
  moreover have "lost_objects (s2\<lparr>s_printf_init := True\<rparr>) = objects_live s1"
    using s2(2) s1 t0 port_cases [OF p] by (auto simp: lost_objects_def uart_core_def upd_hw_def set_hw_def started_def t1_def)
  ultimately show ?thesis using live by (simp add: s1_def)
qed

end
