(* ===== verification/Cli.thy ===== *)
theory Cli
  imports Prelude
begin

text \<open>
  The command interpreter of \<^verbatim>\<open>components/bk_cli/cli_main.c\<close> in the configuration that is built
  (\<^verbatim>\<open>CONFIG_SHELL_ASYNCLOG\<close>, \<^verbatim>\<open>CFG_CLI_DEBUG\<close>): the table of registered commands with its
  registration, removal and lookup, and \<^verbatim>\<open>handle_shell_input\<close>, which cuts a line into words in
  place, looks the first word up and calls the command. An access outside the line, outside
  \<^verbatim>\<open>argv\<close> or outside the response buffer is the value \<^const>\<open>None\<close>.
\<close>

section \<open>C strings in a buffer\<close>

text \<open>The string a pointer into a buffer denotes; reading past the end of the buffer has no value.\<close>

definition str_at :: "u8 list \<Rightarrow> nat \<Rightarrow> u8 list option" where
  "str_at b i = (let t = drop i b in
     if 0 \<in> set t then Some (takeWhile (\<lambda>x. x \<noteq> 0) t) else None)"

definition strcmp_eq :: "u8 list \<Rightarrow> u8 list \<Rightarrow> bool" where
  "strcmp_eq a b \<longleftrightarrow> takeWhile (\<lambda>x. x \<noteq> 0) a = takeWhile (\<lambda>x. x \<noteq> 0) b"

text \<open>
  \<^verbatim>\<open>strcpy\<close> and \<^verbatim>\<open>sprintf\<close> write the text and its NUL to the start of the response buffer. A caller
  may pass no buffer, and then nothing is written.
\<close>

definition ascii :: "string \<Rightarrow> u8 list" where
  "ascii cs = map of_char cs"

definition put_text :: "u8 list \<Rightarrow> u8 list option \<Rightarrow> u8 list option option" where
  "put_text txt out = (case out of
       None \<Rightarrow> Some None
     | Some o' \<Rightarrow>
         if length txt < length o' then Some (Some (txt @ 0 # drop (length txt + 1) o')) else None)"

definition clear_out :: "int \<Rightarrow> u8 list option \<Rightarrow> u8 list option option" where
  "clear_out len out = (case out of
       None \<Rightarrow> Some None
     | Some o' \<Rightarrow>
         if nat len \<le> length o' then Some (Some (replicate (nat len) 0 @ drop (nat len) o'))
         else None)"

section \<open>The command table\<close>

abbreviation (input) MAX_COMMANDS :: nat where "MAX_COMMANDS \<equiv> 320"
abbreviation (input) CLI_COMMAND_IS_RUNNING :: u8 where "CLI_COMMAND_IS_RUNNING \<equiv> 1"

record cli_command =
  cmd_name :: "u8 list option"
  cmd_help :: "u8 list option"
  cmd_function :: addr

text \<open>The table holds pointers; \<^verbatim>\<open>cli_mem\<close> is the memory the command structures are in.\<close>

type_synonym cli_mem = "addr \<Rightarrow> cli_command"

record cli_st =
  initialized :: int
  commands :: "addr list"
  num_commands :: u32

text \<open>
  \<^verbatim>\<open>cli_calls\<close> is a trace of the commands that were called, each with its argument strings.
\<close>

record cli_sys =
  pCli :: "cli_st option"
  s_running_command_index :: u16
  s_running_status :: u8
  cli_calls :: "(addr \<times> u8 list option list) list"

definition name_matches :: "nat \<Rightarrow> u8 list \<Rightarrow> u8 list \<Rightarrow> bool" where
  "name_matches len nm name \<longleftrightarrow> (if len \<noteq> 0 then strncmp_eq len nm name else strcmp_eq nm name)"

text \<open>
  The walk of \<^verbatim>\<open>lookup_command\<close>: \<^verbatim>\<open>i\<close> is the position, \<^verbatim>\<open>n\<close> the number of named commands
  passed. The result is the position of the match.
\<close>

function lookup_loop ::
    "cli_mem \<Rightarrow> cli_st \<Rightarrow> u8 list \<Rightarrow> nat \<Rightarrow> nat \<Rightarrow> nat \<Rightarrow> nat option option" where
  "lookup_loop mem p name len i n =
     (if i < MAX_COMMANDS \<and> n < unat (num_commands p) then
        (if commands p ! i = NULL then None
         else case cmd_name (mem (commands p ! i)) of
             None \<Rightarrow> lookup_loop mem p name len (i + 1) n
           | Some nm \<Rightarrow>
               if name_matches len nm name then Some (Some i)
               else lookup_loop mem p name len (i + 1) (n + 1))
      else Some None)"
  by pat_completeness auto
termination
  by (relation "measure (\<lambda>(mem, p, name, len, i, n). MAX_COMMANDS - i)") auto

declare lookup_loop.simps [simp del]

definition lookup_command ::
    "cli_mem \<Rightarrow> u8 list \<Rightarrow> nat \<Rightarrow> cli_sys \<Rightarrow> (addr \<times> cli_sys) option" where
  "lookup_command mem name len s = do {
     p \<leftarrow> pCli s;
     r \<leftarrow> lookup_loop mem p name len 0 0;
     case r of
       None \<Rightarrow> Some (NULL, s)
     | Some i \<Rightarrow> Some (commands p ! i, s\<lparr>s_running_command_index := of_nat i\<rparr>) }"

text \<open>\<^verbatim>\<open>lookup_cmd_table\<close> searches an array of structures and returns an index or -1.\<close>

fun lookup_table_loop :: "cli_command list \<Rightarrow> u8 list \<Rightarrow> nat \<Rightarrow> nat \<Rightarrow> int" where
  "lookup_table_loop [] name len i = - 1"
| "lookup_table_loop (c # cs) name len i = (case cmd_name c of
       None \<Rightarrow> lookup_table_loop cs name len (i + 1)
     | Some nm \<Rightarrow>
         if name_matches len nm name then int i else lookup_table_loop cs name len (i + 1))"

definition lookup_cmd_table :: "cli_command list \<Rightarrow> int \<Rightarrow> u8 list \<Rightarrow> nat \<Rightarrow> int option" where
  "lookup_cmd_table tbl items name len =
     (if nat items \<le> length tbl then Some (lookup_table_loop (take (nat items) tbl) name len 0)
      else None)"

text \<open>The loops of registration and removal that look for the pointer itself.\<close>

definition find_command :: "cli_st \<Rightarrow> addr \<Rightarrow> nat option" where
  "find_command p c = find (\<lambda>i. commands p ! i = c) [0..<unat (num_commands p)]"

definition cli_register_command :: "cli_mem \<Rightarrow> addr \<Rightarrow> cli_sys \<Rightarrow> (int \<times> cli_sys) option" where
  "cli_register_command mem c s =
     (if c = NULL then None
      else if cmd_name (mem c) = None \<or> cmd_function (mem c) = NULL then Some (1, s)
      else do {
        p \<leftarrow> pCli s;
        if unat (num_commands p) < MAX_COMMANDS then
          (case find_command p c of
             Some _ \<Rightarrow> Some (0, s)
           | None \<Rightarrow> Some (0, s\<lparr>pCli := Some (p\<lparr>commands := (commands p)[unat (num_commands p) := c],
                                           num_commands := num_commands p + 1\<rparr>)\<rparr>))
        else Some (1, s) })"

definition cli_unregister_command :: "cli_mem \<Rightarrow> addr \<Rightarrow> cli_sys \<Rightarrow> (int \<times> cli_sys) option" where
  "cli_unregister_command mem c s =
     (if c = NULL then None
      else if cmd_name (mem c) = None \<or> cmd_function (mem c) = NULL then Some (1, s)
      else do {
        p \<leftarrow> pCli s;
        case find_command p c of
          None \<Rightarrow> Some (1, s)
        | Some i \<Rightarrow>
            (let n = unat (num_commands p - 1);
                 cs = commands p;
                 remaining_cmds = n - i;
                 cs' = (if remaining_cmds > 0
                        then take i cs @ take remaining_cmds (drop (i + 1) cs)
                             @ drop (i + remaining_cmds) cs
                        else cs)
             in Some (0, s\<lparr>pCli := Some (p\<lparr>commands := cs'[n := NULL],
                                        num_commands := num_commands p - 1\<rparr>)\<rparr>)) })"

text \<open>An array of commands is registered one by one; a structure takes twelve bytes.\<close>

fun register_loop :: "cli_mem \<Rightarrow> addr \<Rightarrow> nat \<Rightarrow> cli_sys \<Rightarrow> (int \<times> cli_sys) option" where
  "register_loop mem c 0 s = Some (0, s)"
| "register_loop mem c (Suc k) s = do {
     (r, s) \<leftarrow> cli_register_command mem c s;
     if r \<noteq> 0 then Some (1, s) else register_loop mem (c + 12) k s }"

definition cli_register_commands ::
    "cli_mem \<Rightarrow> addr \<Rightarrow> int \<Rightarrow> cli_sys \<Rightarrow> (int \<times> cli_sys) option" where
  "cli_register_commands mem c n s = register_loop mem c (nat n) s"

fun unregister_loop :: "cli_mem \<Rightarrow> addr \<Rightarrow> nat \<Rightarrow> cli_sys \<Rightarrow> (int \<times> cli_sys) option" where
  "unregister_loop mem c 0 s = Some (0, s)"
| "unregister_loop mem c (Suc k) s = do {
     (r, s) \<leftarrow> cli_unregister_command mem c s;
     if r \<noteq> 0 then Some (1, s) else unregister_loop mem (c + 12) k s }"

definition cli_unregister_commands ::
    "cli_mem \<Rightarrow> addr \<Rightarrow> int \<Rightarrow> cli_sys \<Rightarrow> (int \<times> cli_sys) option" where
  "cli_unregister_commands mem c n s = unregister_loop mem c (nat n) s"

section \<open>Cutting a line into words\<close>

abbreviation (input) CH_QUOTE :: u8 where "CH_QUOTE \<equiv> 0x22"
abbreviation (input) CH_SPACE :: u8 where "CH_SPACE \<equiv> 0x20"
abbreviation (input) CH_EQUALS :: u8 where "CH_EQUALS \<equiv> 0x3D"
abbreviation (input) CH_COMMA :: u8 where "CH_COMMA \<equiv> 0x2C"
abbreviation (input) CH_DOT :: u8 where "CH_DOT \<equiv> 0x2E"
abbreviation (input) CH_BACKSLASH :: u8 where "CH_BACKSLASH \<equiv> 0x5C"
abbreviation (input) MAX_ARGS :: nat where "MAX_ARGS \<equiv> 16"

text \<open>
  The local variables of \<^verbatim>\<open>handle_shell_input\<close>: the line, the position in it, \<^verbatim>\<open>argc\<close>,
  \<^verbatim>\<open>argv\<close> as positions in the line, and the bits of \<^verbatim>\<open>stat\<close>.
\<close>

record shell_scan =
  sc_buf :: "u8 list"
  sc_i :: nat
  sc_argc :: nat
  sc_argv :: "nat option list"
  inArg :: bool
  inQuote :: bool
  st_done :: bool
  limQ :: bool
  isD :: nat

datatype scan_result = Go shell_scan | Bad shell_scan

text \<open>\<^verbatim>\<open>argv[argc++]\<close> is set; \<^verbatim>\<open>argv\<close> has sixteen entries and the code does not check.\<close>

definition push_arg :: "nat \<Rightarrow> shell_scan \<Rightarrow> shell_scan option" where
  "push_arg pos sc =
     (if sc_argc sc < length (sc_argv sc)
      then Some (sc\<lparr>sc_argc := sc_argc sc + 1, sc_argv := (sc_argv sc)[sc_argc sc := Some pos]\<rparr>)
      else None)"

text \<open>
  An escaped quote or blank: the rest of the string moves down by one over the backslash. The
  source and the destination of the \<^verbatim>\<open>os_memcpy\<close> overlap; the model has the result of copying
  upwards.
\<close>

definition unescape :: "shell_scan \<Rightarrow> shell_scan option" where
  "unescape sc = (let b = sc_buf sc; i = sc_i sc in do {
     t \<leftarrow> str_at b i;
     let n = length t + 1;
     Some (sc\<lparr>sc_buf := take (i - 1) b @ take n (drop i b) @ drop (i - 1 + n) b,
             sc_i := i - 1\<rparr>) })"

definition cut :: "shell_scan \<Rightarrow> shell_scan" where
  "cut sc = sc\<lparr>sc_buf := (sc_buf sc)[sc_i sc := 0], inArg := False\<rparr>"

definition escaped :: "shell_scan \<Rightarrow> bool" where
  "escaped sc \<longleftrightarrow> sc_i sc > 0 \<and> sc_buf sc ! (sc_i sc - 1) = CH_BACKSLASH \<and> inArg sc"

definition scan_quote :: "shell_scan \<Rightarrow> scan_result option" where
  "scan_quote sc =
     (if escaped sc then map_option Go (unescape sc)
      else if \<not> inQuote sc \<and> inArg sc then Some (Go sc)
      else if inQuote sc \<and> \<not> inArg sc then Some (Bad sc)
      else if \<not> inQuote sc \<and> \<not> inArg sc
        then map_option Go (push_arg (sc_i sc + 1) (sc\<lparr>inArg := True, inQuote := True\<rparr>))
      else Some (Go (cut (sc\<lparr>inQuote := False\<rparr>))))"

definition scan_space :: "shell_scan \<Rightarrow> scan_result option" where
  "scan_space sc =
     (if escaped sc then map_option Go (unescape sc)
      else if \<not> inQuote sc \<and> inArg sc then Some (Go (cut sc))
      else Some (Go sc))"

definition scan_equals :: "shell_scan \<Rightarrow> scan_result option" where
  "scan_equals sc =
     (if sc_argc sc = 1 then Some (Go ((cut sc)\<lparr>isD := 1\<rparr>))
      else if sc_argc sc = 0 then Some (Bad sc)
      else Some (Go sc))"

definition scan_comma :: "shell_scan \<Rightarrow> scan_result option" where
  "scan_comma sc =
     (if isD sc = 1 \<and> sc_argc sc = 1 then Some (Bad sc)
      else if \<not> inQuote sc \<and> inArg sc then Some (Go ((cut sc)\<lparr>limQ := True\<rparr>))
      else Some (Go sc))"

definition scan_default :: "shell_scan \<Rightarrow> scan_result option" where
  "scan_default sc =
     (if \<not> inArg sc then
        map_option (\<lambda>sc. Go (if isD sc = 1 then sc\<lparr>limQ := False, isD := 2\<rparr> else sc\<lparr>limQ := False\<rparr>))
          (push_arg (sc_i sc) (sc\<lparr>inArg := True\<rparr>))
      else Some (Go sc))"

definition scan_nul :: "shell_scan \<Rightarrow> scan_result option" where
  "scan_nul sc =
     (if sc_argc sc = 0 \<or> isD sc = 1 \<or> limQ sc \<or> inQuote sc then Some (Bad sc)
      else Some (Go (sc\<lparr>st_done := True\<rparr>)))"

definition scan_char :: "shell_scan \<Rightarrow> scan_result option" where
  "scan_char sc =
     (if sc_i sc \<ge> length (sc_buf sc) then None
      else let c = sc_buf sc ! sc_i sc in
        if c = 0 then scan_nul sc
        else if c = CH_QUOTE then scan_quote sc
        else if c = CH_SPACE then scan_space sc
        else if c = CH_EQUALS then scan_equals sc
        else if c = CH_COMMA then scan_comma sc
        else scan_default sc)"

text \<open>
  The loop ends: every round moves the position on, except the removal of a backslash, which makes
  the string that is left shorter.
\<close>

lemma takeWhile_nul [simp]: "0 \<notin> set t \<Longrightarrow> takeWhile (\<lambda>x. x \<noteq> 0) (t @ 0 # r) = t"
  for t :: "u8 list"
  by (induction t) auto

lemma str_at_nth:
  assumes "str_at b i = Some t" and "i < length b" and "b ! i \<noteq> 0"
  shows "t = b ! i # takeWhile (\<lambda>x. x \<noteq> 0) (drop (Suc i) b) \<and> 0 \<in> set (drop (Suc i) b)"
proof -
  have d: "drop i b = b ! i # drop (Suc i) b" using assms(2) by (simp add: Cons_nth_drop_Suc)
  show ?thesis using assms(1,3) by (auto simp: str_at_def Let_def d split: if_splits)
qed

definition scan_rest :: "shell_scan \<Rightarrow> u8 list" where
  "scan_rest sc = takeWhile (\<lambda>x. x \<noteq> 0) (drop (sc_i sc) (sc_buf sc))"

lemma unescape_spec:
  assumes u: "unescape sc = Some sc'" and e: "escaped sc" and i: "sc_i sc < length (sc_buf sc)"
    and nz: "sc_buf sc ! sc_i sc \<noteq> 0"
  shows "sc_i sc' + 1 = sc_i sc \<and>
     (\<exists>t r. drop (sc_i sc) (sc_buf sc) = sc_buf sc ! sc_i sc # t @ 0 # r \<and> 0 \<notin> set t \<and>
       sc_buf sc' = take (sc_i sc') (sc_buf sc) @ (sc_buf sc ! sc_i sc # t @ 0 # 0 # r) \<and>
       sc' = sc\<lparr>sc_i := sc_i sc', sc_buf := sc_buf sc'\<rparr>)"
proof -
  let ?b = "sc_buf sc" and ?i = "sc_i sc"
  obtain s where s: "str_at ?b ?i = Some s" using u by (auto simp: unescape_def Let_def split: bind_splits)
  have d: "drop ?i ?b = ?b ! ?i # drop (Suc ?i) ?b" using i by (simp add: Cons_nth_drop_Suc)
  have s': "s = ?b ! ?i # takeWhile (\<lambda>x. x \<noteq> 0) (drop (Suc ?i) ?b)" "0 \<in> set (drop (Suc ?i) ?b)"
    using str_at_nth [OF s i nz] by auto
  define t where "t = takeWhile (\<lambda>x. x \<noteq> 0) (drop (Suc ?i) ?b)"
  obtain r where r: "drop (Suc ?i) ?b = t @ 0 # r" and t0: "0 \<notin> set t"
  proof -
    have "drop (Suc ?i) ?b = t @ dropWhile (\<lambda>x. x \<noteq> 0) (drop (Suc ?i) ?b)"
      by (simp add: t_def)
    moreover obtain r where "dropWhile (\<lambda>x. x \<noteq> 0) (drop (Suc ?i) ?b) = 0 # r"
      using s'(2) by (metis (mono_tags, lifting) dropWhile_eq_Nil_conv hd_dropWhile list.exhaust_sel)
    ultimately show ?thesis using that [of r] by (auto simp: t_def dest: set_takeWhileD)
  qed
  have i0: "?i > 0" using e by (simp add: escaped_def)
  have len: "length s = Suc (length t)" using s' t_def by simp
  have db: "drop (?i + length s) ?b = 0 # r"
  proof -
    have "drop (?i + length s) ?b = drop (length t) (drop (Suc ?i) ?b)"
      using len by (simp add: add.commute)
    then show ?thesis by (simp add: r)
  qed
  have nb: "take (length s + 1) (drop ?i ?b) = ?b ! ?i # t @ [0]"
    by (simp add: d r len)
  have "sc' = sc\<lparr>sc_buf := take (?i - 1) ?b @ (?b ! ?i # t @ [0]) @ 0 # r, sc_i := ?i - 1\<rparr>"
    using u s nb db i0 by (auto simp: unescape_def Let_def)
  then show ?thesis using i0 d r t0 by (intro conjI exI [of _ t] exI [of _ r]) auto
qed

lemma scan_char_progress:
  assumes "scan_char sc = Some (Go sc')"
  shows "sc_i sc' = sc_i sc \<or>
    Suc (sc_i sc') = sc_i sc \<and>
      length (scan_rest (sc'\<lparr>sc_i := sc_i sc\<rparr>)) < length (scan_rest sc)"
proof (cases "escaped sc \<and> (sc_buf sc ! sc_i sc = CH_QUOTE \<or> sc_buf sc ! sc_i sc = CH_SPACE)")
  case True
  then have u: "unescape sc = Some sc'" and i: "sc_i sc < length (sc_buf sc)"
    and nz: "sc_buf sc ! sc_i sc \<noteq> 0"
    using assms by (auto simp: scan_char_def scan_quote_def scan_space_def split: if_splits)
  from unescape_spec [OF u _ i nz] True obtain t r where
    p: "Suc (sc_i sc') = sc_i sc" "drop (sc_i sc) (sc_buf sc) = sc_buf sc ! sc_i sc # t @ 0 # r"
      "0 \<notin> set t" "sc_buf sc' = take (sc_i sc') (sc_buf sc) @ (sc_buf sc ! sc_i sc # t @ 0 # 0 # r)"
    by auto
  have "sc_i sc' < length (sc_buf sc)" using p(1) i by simp
  then have "drop (sc_i sc) (sc_buf sc') = t @ 0 # 0 # r"
    using p(1) p(4) by (simp flip: p(1) add: min_def)
  then have "scan_rest (sc'\<lparr>sc_i := sc_i sc\<rparr>) = t" "scan_rest sc = sc_buf sc ! sc_i sc # t"
    using p(2,3) nz by (auto simp: scan_rest_def)
  then show ?thesis using p(1) by simp
next
  case False
  then show ?thesis using assms
    by (auto simp: scan_char_def scan_quote_def scan_space_def scan_equals_def scan_comma_def
        scan_default_def scan_nul_def push_arg_def cut_def Let_def split: if_splits)
qed

function scan_loop :: "int \<Rightarrow> shell_scan \<Rightarrow> scan_result option" where
  "scan_loop in_size sc = (case scan_char sc of
       None \<Rightarrow> None
     | Some (Bad sc) \<Rightarrow> Some (Bad sc)
     | Some (Go sc) \<Rightarrow>
         if \<not> st_done sc \<and> int (sc_i sc + 1) < in_size
         then scan_loop in_size (sc\<lparr>sc_i := sc_i sc + 1\<rparr>)
         else Some (Go sc))"
  by pat_completeness auto
termination
proof (relation "measures [\<lambda>(in_size, sc). nat (in_size - int (sc_i sc)),
    \<lambda>(in_size, sc). length (scan_rest sc)]", goal_cases)
  case (2 in_size sc r sc')
  from scan_char_progress [of sc sc'] 2 show ?case by auto
qed simp

declare scan_loop.simps [simp del]

section \<open>One line of input\<close>

definition dot_pos :: "u8 list \<Rightarrow> nat" where
  "dot_pos a = (let k = length (takeWhile (\<lambda>c. c \<noteq> CH_DOT) a) in if k < length a then k else 0)"

text \<open>
  A command is code of its own: the parameter \<^verbatim>\<open>run\<close> says what the function at an address does with
  its arguments, the response buffer and the state.
\<close>

type_synonym cli_run =
  "addr \<Rightarrow> u8 list option list \<Rightarrow> u8 list option \<Rightarrow> cli_sys \<Rightarrow> u8 list option \<times> cli_sys"

definition scan_start :: "u8 list \<Rightarrow> shell_scan" where
  "scan_start inbuf = \<lparr>sc_buf = inbuf, sc_i = 0, sc_argc = 0, sc_argv = replicate MAX_ARGS None,
     inArg = False, inQuote = False, st_done = False, limQ = False, isD = 0\<rparr>"

definition arg_strings :: "shell_scan \<Rightarrow> u8 list option list" where
  "arg_strings sc = map (\<lambda>a. Option.bind a (str_at (sc_buf sc))) (take (sc_argc sc) (sc_argv sc))"

text \<open>The part after the loop: look the command up and call it.\<close>

definition run_scanned ::
    "cli_mem \<Rightarrow> cli_run \<Rightarrow> shell_scan \<Rightarrow> u8 list option \<Rightarrow> cli_sys
     \<Rightarrow> (int \<times> u8 list \<times> u8 list option \<times> cli_sys) option" where
  "run_scanned mem run sc out s =
     (if inQuote sc then do {
        out \<leftarrow> put_text (ascii ''syntax error'' @ [13, 10]) out;
        Some (2, sc_buf sc, out, s) }
      else if sc_argc sc < 1 then do {
        out \<leftarrow> put_text (ascii ''argc = 0'' @ [13, 10]) out;
        Some (0, sc_buf sc, out, s) }
      else do {
        p0 \<leftarrow> sc_argv sc ! 0;
        name \<leftarrow> str_at (sc_buf sc) p0;
        (command, s) \<leftarrow> lookup_command mem name (dot_pos name) s;
        if command = NULL then do {
          out \<leftarrow> (case out of None \<Rightarrow> Some None
            | Some _ \<Rightarrow> do {
                line \<leftarrow> str_at (sc_buf sc) 0;
                put_text (ascii ''cmd: '' @ line @ ascii '' NOT found.'' @ [13, 10]) out });
          Some (1, sc_buf sc, out, s) }
        else do {
          let s = s\<lparr>s_running_status := s_running_status s OR CLI_COMMAND_IS_RUNNING,
                    cli_calls := cli_calls s @ [(cmd_function (mem command), arg_strings sc)]\<rparr>;
          let (out, s) = run (cmd_function (mem command)) (arg_strings sc) out s;
          Some (0, sc_buf sc, out,
                s\<lparr>s_running_status := s_running_status s AND NOT CLI_COMMAND_IS_RUNNING\<rparr>) } })"

definition handle_shell_input ::
    "cli_mem \<Rightarrow> cli_run \<Rightarrow> u8 list \<Rightarrow> int \<Rightarrow> u8 list option \<Rightarrow> int \<Rightarrow> cli_sys
     \<Rightarrow> (int \<times> u8 list \<times> u8 list option \<times> cli_sys) option" where
  "handle_shell_input mem run inbuf in_buf_size out out_buf_size s = do {
     out \<leftarrow> clear_out out_buf_size out;
     if inbuf = [] then None
     else if inbuf ! 0 = 0 then Some (0, inbuf, out, s)
     else do {
       r \<leftarrow> scan_loop in_buf_size (scan_start inbuf);
       case r of
         Bad sc \<Rightarrow> do {
           out \<leftarrow> put_text (ascii ''syntax error'' @ [13, 10]) out;
           Some (2, sc_buf sc, out, s) }
       | Go sc \<Rightarrow> run_scanned mem run sc out s } }"

end
