(* ===== verification/Cli_Parse.thy ===== *)
theory Cli_Parse
  imports Cli
begin

text \<open>
  Correctness of the command interpreter: the command table behaves as a list of distinct commands,
  a line of up to sixteen plain words calls the command with exactly those words, a longer one leaves
  \<^verbatim>\<open>argv\<close>, and no line of at most 32 bytes, whatever its bytes are, makes the parser touch memory
  outside its buffers.
\<close>

section \<open>The command table\<close>

definition registered :: "cli_st \<Rightarrow> addr list" where
  "registered p = take (unat (num_commands p)) (commands p)"

definition cmd_ok :: "cli_mem \<Rightarrow> addr \<Rightarrow> bool" where
  "cmd_ok mem c \<longleftrightarrow> c \<noteq> NULL \<and> cmd_function (mem c) \<noteq> NULL \<and>
     (case cmd_name (mem c) of None \<Rightarrow> False | Some nm \<Rightarrow> 0 \<notin> set nm)"

definition cli_wf :: "cli_mem \<Rightarrow> cli_st \<Rightarrow> bool" where
  "cli_wf mem p \<longleftrightarrow> length (commands p) = MAX_COMMANDS \<and> unat (num_commands p) \<le> MAX_COMMANDS \<and>
     distinct (registered p) \<and> list_all (cmd_ok mem) (registered p)"

lemma registered_length [simp]: "cli_wf mem p \<Longrightarrow> length (registered p) = unat (num_commands p)"
  by (auto simp: cli_wf_def registered_def)

lemma registered_nth:
  "cli_wf mem p \<Longrightarrow> i < unat (num_commands p) \<Longrightarrow> commands p ! i = registered p ! i"
  by (simp add: registered_def)

lemma registered_ok: "cli_wf mem p \<Longrightarrow> c \<in> set (registered p) \<Longrightarrow> cmd_ok mem c"
  by (auto simp: cli_wf_def list_all_iff)

lemma find_upt_None: "find P [0..<n] = None \<longleftrightarrow> (\<forall>i < n. \<not> P i)"
  by (auto simp: find_None_iff)

lemma find_upt_Some: "find P [0..<n] = Some i \<longleftrightarrow> i < n \<and> P i \<and> (\<forall>j < i. \<not> P j)"
proof
  assume "find P [0..<n] = Some i"
  then show "i < n \<and> P i \<and> (\<forall>j < i. \<not> P j)" by (auto simp: find_Some_iff)
next
  assume "i < n \<and> P i \<and> (\<forall>j < i. \<not> P j)"
  then show "find P [0..<n] = Some i" by (auto simp: find_Some_iff intro!: exI [of _ i])
qed

lemma find_command_None:
  assumes "cli_wf mem p"
  shows "find_command p c = None \<longleftrightarrow> c \<notin> set (registered p)"
  using assms
  by (auto simp: find_command_def find_upt_None in_set_conv_nth registered_nth [OF assms])

lemma find_command_Some:
  assumes "cli_wf mem p" and "find_command p c = Some i"
  shows "i < unat (num_commands p) \<and> registered p ! i = c"
  using assms by (auto simp: find_command_def find_upt_Some registered_nth [OF assms(1)])

text \<open>Registration appends a command that is not there yet, as long as there is room.\<close>

lemma num_commands_Suc: "unat n < MAX_COMMANDS \<Longrightarrow> unat (n + 1 :: u32) = unat n + 1"
  using unat_add_lem [of n 1] by simp

lemma register_spec:
  assumes wf: "cli_wf mem p" and p: "pCli s = Some p" and c: "cmd_ok mem c"
  shows "\<exists>p'. cli_register_command mem c s =
           Some (if length (registered p) < MAX_COMMANDS then 0 else 1, s\<lparr>pCli := Some p'\<rparr>) \<and>
         cli_wf mem p' \<and>
         registered p' = (if c \<in> set (registered p) \<or> length (registered p) \<ge> MAX_COMMANDS
                          then registered p else registered p @ [c])"
proof -
  have ok: "c \<noteq> NULL" "cmd_name (mem c) \<noteq> None" "cmd_function (mem c) \<noteq> NULL"
    using c by (auto simp: cmd_ok_def split: option.splits)
  have same: "s\<lparr>pCli := Some p\<rparr> = s" using p by simp
  show ?thesis
  proof (cases "unat (num_commands p) < MAX_COMMANDS \<and> c \<notin> set (registered p)")
    case True
    let ?p' = "p\<lparr>commands := (commands p)[unat (num_commands p) := c],
                 num_commands := num_commands p + 1\<rparr>"
    have reg: "registered ?p' = registered p @ [c]"
      using True wf num_commands_Suc [of "num_commands p"]
      by (auto simp: registered_def cli_wf_def take_Suc_conv_app_nth)
    have "cli_wf mem ?p'"
      using wf True c reg num_commands_Suc [of "num_commands p"] by (auto simp: cli_wf_def)
    moreover have "cli_register_command mem c s = Some (0, s\<lparr>pCli := Some ?p'\<rparr>)"
      using ok True p find_command_None [OF wf, of c] by (auto simp: cli_register_command_def)
    ultimately show ?thesis using True reg wf by (intro exI [of _ ?p']) simp
  next
    case False
    then have "cli_register_command mem c s =
        Some (if length (registered p) < MAX_COMMANDS then 0 else 1, s)"
      using ok p wf find_command_None [OF wf, of c]
      by (auto simp: cli_register_command_def split: option.splits)
    then show ?thesis using False wf same by (intro exI [of _ p]) auto
  qed
qed

lemma remove1_nth:
  "distinct xs \<Longrightarrow> i < length xs \<Longrightarrow> remove1 (xs ! i) xs = take i xs @ drop (Suc i) xs"
proof (induction xs arbitrary: i)
  case (Cons x xs)
  then show ?case by (cases i) auto
qed simp

text \<open>Removal closes the gap and keeps the order.\<close>

lemma unregister_table:
  assumes "length cs = N" and "n < N" and "i \<le> n"
    and "cs' = (if n - i > 0 then take i cs @ take (n - i) (drop (i + 1) cs) @ drop (i + (n - i)) cs
                else cs)"
  shows "length (cs'[n := NULL]) = N \<and>
         take n (cs'[n := NULL]) = take i (take (Suc n) cs) @ drop (Suc i) (take (Suc n) cs)"
proof (cases "i < n")
  case True
  define A where "A = take i cs @ take (n - i) (drop (i + 1) cs)"
  have cs': "cs' = A @ drop n cs" using True assms(4) by (simp add: A_def)
  have l: "length A = n" using True assms by (simp add: A_def)
  have "take n cs' = A" using l by (simp add: cs')
  moreover have "drop (Suc i) (take (Suc n) cs) = take (n - i) (drop (i + 1) cs)"
    by (simp add: drop_take)
  moreover have "take i (take (Suc n) cs) = take i cs" using True by (simp add: min_def)
  moreover have "length cs' = N" using l assms by (simp add: cs')
  ultimately show ?thesis by (simp add: A_def)
next
  case False
  then show ?thesis using assms by (simp add: take_Suc_conv_app_nth)
qed

lemma unregister_spec:
  assumes wf: "cli_wf mem p" and p: "pCli s = Some p" and c: "cmd_ok mem c"
  shows "\<exists>p'. cli_unregister_command mem c s =
           Some (if c \<in> set (registered p) then 0 else 1, s\<lparr>pCli := Some p'\<rparr>) \<and>
         cli_wf mem p' \<and> registered p' = remove1 c (registered p)"
proof (cases "find_command p c")
  case None
  then have n: "c \<notin> set (registered p)" using find_command_None [OF wf] by simp
  have "s\<lparr>pCli := Some p\<rparr> = s" using p by simp
  then show ?thesis using n None c p wf
    by (intro exI [of _ p])
       (auto simp: cli_unregister_command_def cmd_ok_def remove1_idem split: option.splits)
next
  case (Some i)
  note fi = find_command_Some [OF wf Some]
  define n where "n = unat (num_commands p - 1)"
  have "num_commands p \<noteq> 0" using fi by auto
  then have n: "unat (num_commands p) = Suc n" using unat_minus_one [of "num_commands p"] fi
    by (simp add: n_def)
  define cs where "cs = (if n - i > 0 then take i (commands p) @ take (n - i) (drop (i + 1) (commands p))
                             @ drop (i + (n - i)) (commands p) else commands p)"
  define p' where "p' = p\<lparr>commands := cs[n := NULL], num_commands := num_commands p - 1\<rparr>"
  have "length (commands p) = 320" "n < 320" using wf n by (auto simp: cli_wf_def)
  note t = unregister_table [OF this(1) this(2) _ cs_def] n
  have "registered p' = take i (registered p) @ drop (Suc i) (registered p)"
    using t fi n by (simp add: p'_def registered_def flip: n_def)
  also have "\<dots> = remove1 c (registered p)"
    using remove1_nth [of "registered p" i] fi registered_length [OF wf] wf
    by (simp add: cli_wf_def)
  finally have reg: "registered p' = remove1 c (registered p)" .
  have "cli_wf mem p'"
    using wf reg t fi n set_remove1_subset [of c "registered p"]
    by (auto simp: cli_wf_def p'_def list_all_iff distinct_remove1 simp flip: n_def)
  moreover have "cli_unregister_command mem c s = Some (0, s\<lparr>pCli := Some p'\<rparr>)"
    using c p Some
    by (auto simp: cli_unregister_command_def cmd_ok_def p'_def cs_def n_def Let_def
        split: option.splits)
  moreover have "c \<in> set (registered p)" using Some find_command_None [OF wf] by force
  ultimately show ?thesis using reg by auto
qed

text \<open>A lookup finds the first registered command whose name matches.\<close>

definition cmd_matches :: "cli_mem \<Rightarrow> u8 list \<Rightarrow> nat \<Rightarrow> addr \<Rightarrow> bool" where
  "cmd_matches mem name len c \<longleftrightarrow>
     (case cmd_name (mem c) of None \<Rightarrow> False | Some nm \<Rightarrow> name_matches len nm name)"

lemma lookup_loop_spec:
  assumes wf: "cli_wf mem p"
  shows "i \<le> unat (num_commands p) \<Longrightarrow>
    lookup_loop mem p name len i i =
      Some (find (\<lambda>j. cmd_matches mem name len (commands p ! j)) [i..<unat (num_commands p)])"
proof (induction "unat (num_commands p) - i" arbitrary: i)
  case 0
  then show ?case by (subst lookup_loop.simps) simp
next
  case (Suc k)
  then have i: "i < unat (num_commands p)" by simp
  then have "commands p ! i \<in> set (registered p)"
    using registered_nth [OF wf i] registered_length [OF wf] by simp
  from registered_ok [OF wf this] obtain nm where
    nm: "commands p ! i \<noteq> NULL" "cmd_name (mem (commands p ! i)) = Some nm"
    by (auto simp: cmd_ok_def split: option.splits)
  have i': "i < 320" using i wf by (simp add: cli_wf_def)
  have rec: "lookup_loop mem p name len (Suc i) (Suc i) =
      Some (find (\<lambda>j. cmd_matches mem name len (commands p ! j)) [Suc i..<unat (num_commands p)])"
    using Suc(1) [of "Suc i"] Suc(2) i by simp
  have "[i..<unat (num_commands p)] = i # [Suc i..<unat (num_commands p)]"
    using i by (simp add: upt_conv_Cons)
  then show ?case using nm i i' rec
    by (subst lookup_loop.simps) (simp add: cmd_matches_def)
qed

lemma find_map_fun: "find P (map f xs) = map_option f (find (\<lambda>x. P (f x)) xs)"
  by (induction xs) auto

lemma find_map_nth: "find P xs = map_option (nth xs) (find (\<lambda>j. P (xs ! j)) [0..<length xs])"
proof (induction xs)
  case (Cons x xs)
  have "[0..<length (x # xs)] = 0 # map Suc [0..<length xs]"
    using upt_conv_Cons [of 0 "length (x # xs)"] by (simp only: map_Suc_upt) simp
  then show ?case using Cons
    by (simp add: find_map_fun comp_def option.map_comp del: upt_Suc)
qed simp

lemma find_cong_list: "(\<And>x. x \<in> set xs \<Longrightarrow> P x = Q x) \<Longrightarrow> find P xs = find Q xs"
  by (induction xs) auto

lemma lookup_spec:
  assumes wf: "cli_wf mem p" and p: "pCli s = Some p"
  shows "\<exists>i. lookup_command mem name len s =
    Some (case find (cmd_matches mem name len) (registered p) of
            None \<Rightarrow> (NULL, s) | Some c \<Rightarrow> (c, s\<lparr>s_running_command_index := i\<rparr>))"
proof -
  let ?P = "\<lambda>j. cmd_matches mem name len (registered p ! j)"
  have eq: "find (\<lambda>j. cmd_matches mem name len (commands p ! j)) [0..<unat (num_commands p)]
      = find ?P [0..<length (registered p)]"
    using wf by (auto intro!: find_cong_list simp: registered_nth [OF wf])
  have fr: "find (cmd_matches mem name len) (registered p)
      = map_option (nth (registered p)) (find ?P [0..<length (registered p)])"
    by (rule find_map_nth)
  show ?thesis
  proof (cases "find ?P [0..<length (registered p)]")
    case None
    then show ?thesis
      using p eq fr lookup_loop_spec [OF wf, of 0 name len] by (simp add: lookup_command_def)
  next
    case (Some i)
    then have "i < unat (num_commands p)" using wf by (auto simp: find_Some_iff)
    then show ?thesis
      using Some p eq fr lookup_loop_spec [OF wf, of 0 name len] registered_nth [OF wf]
      by (intro exI [of _ "of_nat i"]) (simp add: lookup_command_def)
  qed
qed

section \<open>What the parser relies on: a bounded list of distinct commands\<close>

locale command_table =
  fixes wf :: "'s \<Rightarrow> bool"
    and cmds :: "'s \<Rightarrow> 'c list"
    and room :: nat
    and ok :: "'c \<Rightarrow> bool"
    and enrol :: "'c \<Rightarrow> 's \<Rightarrow> (int \<times> 's) option"
    and withdraw :: "'c \<Rightarrow> 's \<Rightarrow> (int \<times> 's) option"
  assumes enrol_law: "wf s \<Longrightarrow> ok c \<Longrightarrow>
      \<exists>t. enrol c s = Some (if length (cmds s) < room then 0 else 1, t) \<and> wf t \<and>
        cmds t = (if c \<in> set (cmds s) \<or> length (cmds s) \<ge> room then cmds s else cmds s @ [c])"
    and withdraw_law: "wf s \<Longrightarrow> ok c \<Longrightarrow>
      \<exists>t. withdraw c s = Some (if c \<in> set (cmds s) then 0 else 1, t) \<and> wf t \<and>
        cmds t = remove1 c (cmds s)"
begin

lemma enrol_withdraw:
  assumes "wf s" and "ok c" and "c \<notin> set (cmds s)" and "length (cmds s) < room"
  shows "\<exists>t u. enrol c s = Some (0, t) \<and> withdraw c t = Some (0, u) \<and> cmds u = cmds s"
proof -
  obtain t where t: "enrol c s = Some (0, t)" "wf t" "cmds t = cmds s @ [c]"
    using enrol_law [of s c] assms by auto
  then obtain u where "withdraw c t = Some (0, u)" "cmds u = remove1 c (cmds s @ [c])"
    using withdraw_law [of t c] assms by auto
  then show ?thesis using t assms by (auto simp: remove1_append)
qed

lemma enrol_twice:
  assumes "wf s" and "ok c" and "enrol c s = Some (0, t)" and "length (cmds t) < room"
  shows "\<exists>u. enrol c t = Some (0, u) \<and> cmds u = cmds t"
proof -
  have "wf t" "c \<in> set (cmds t)" using enrol_law [of s c] assms by (auto split: if_splits)
  then show ?thesis using enrol_law [of t c] assms by auto
qed

end

definition sys_wf :: "cli_mem \<Rightarrow> cli_sys \<Rightarrow> bool" where
  "sys_wf mem s \<longleftrightarrow> (case pCli s of None \<Rightarrow> False | Some p \<Rightarrow> cli_wf mem p)"

definition sys_cmds :: "cli_sys \<Rightarrow> addr list" where
  "sys_cmds s = (case pCli s of None \<Rightarrow> [] | Some p \<Rightarrow> registered p)"

interpretation cli_tab: command_table "sys_wf mem" sys_cmds MAX_COMMANDS "cmd_ok mem"
  "cli_register_command mem" "cli_unregister_command mem" for mem
proof unfold_locales
  fix s c
  assume "sys_wf mem s" and c: "cmd_ok mem c"
  then obtain p where p: "pCli s = Some p" "cli_wf mem p"
    by (auto simp: sys_wf_def split: option.splits)
  from register_spec [OF p(2,1) c]
  show "\<exists>t. cli_register_command mem c s = Some (if length (sys_cmds s) < MAX_COMMANDS then 0 else 1, t) \<and>
      sys_wf mem t \<and> sys_cmds t = (if c \<in> set (sys_cmds s) \<or> MAX_COMMANDS \<le> length (sys_cmds s)
        then sys_cmds s else sys_cmds s @ [c])"
    using p by (auto simp: sys_wf_def sys_cmds_def)
  from unregister_spec [OF p(2,1) c]
  show "\<exists>t. cli_unregister_command mem c s = Some (if c \<in> set (sys_cmds s) then 0 else 1, t) \<and>
      sys_wf mem t \<and> sys_cmds t = remove1 c (sys_cmds s)"
    using p by (auto simp: sys_wf_def sys_cmds_def)
qed

text \<open>An array of commands ends up in the table in its order, without what was there already.\<close>

definition add_new :: "'c list \<Rightarrow> 'c \<Rightarrow> 'c list" where
  "add_new l c = (if c \<in> set l then l else l @ [c])"

definition cmd_array :: "addr \<Rightarrow> nat \<Rightarrow> addr list" where
  "cmd_array c n = map (\<lambda>k. c + 12 * of_nat k) [0..<n]"

lemma cmd_array_Suc: "cmd_array c (Suc n) = c # cmd_array (c + 12) n"
  unfolding cmd_array_def
  by (subst upt_conv_Cons) (auto simp: map_Suc_upt [symmetric] comp_def algebra_simps simp del: upt_Suc)

lemma register_loop_spec:
  assumes "sys_wf mem s" and "list_all (cmd_ok mem) (cmd_array c n)"
    and "length (sys_cmds s) + n \<le> MAX_COMMANDS"
  shows "\<exists>t. register_loop mem c n s = Some (0, t) \<and> sys_wf mem t \<and>
           sys_cmds t = foldl add_new (sys_cmds s) (cmd_array c n)"
  using assms
proof (induction n arbitrary: c s)
  case 0
  then show ?case by (simp add: cmd_array_def)
next
  case (Suc n)
  obtain t where t: "cli_register_command mem c s = Some (0, t)" "sys_wf mem t"
      "sys_cmds t = add_new (sys_cmds s) c"
    using cli_tab.enrol_law [of mem s c] Suc.prems by (auto simp: cmd_array_Suc add_new_def)
  have "length (sys_cmds t) \<le> Suc (length (sys_cmds s))" using t(3) by (simp add: add_new_def)
  then obtain u where "register_loop mem (c + 12) n t = Some (0, u)" "sys_wf mem u"
      "sys_cmds u = foldl add_new (sys_cmds t) (cmd_array (c + 12) n)"
    using Suc.IH [OF t(2), of "c + 12"] Suc.prems by (auto simp: cmd_array_Suc)
  then show ?case using t by (simp add: cmd_array_Suc)
qed

section \<open>The parser stays inside its buffers\<close>



definition scan_next :: "shell_scan \<Rightarrow> shell_scan" where
  "scan_next sc = sc\<lparr>sc_i := sc_i sc + 1\<rparr>"




lemma in_set_drop_iff: "x \<in> set (drop i b) \<longleftrightarrow> (\<exists>k. i \<le> k \<and> k < length b \<and> b ! k = x)"
proof
  assume "x \<in> set (drop i b)"
  then obtain j where "j < length (drop i b)" "drop i b ! j = x" by (auto simp: in_set_conv_nth)
  then show "\<exists>k. i \<le> k \<and> k < length b \<and> b ! k = x"
    by (intro exI [of _ "i + j"]) auto
next
  assume "\<exists>k. i \<le> k \<and> k < length b \<and> b ! k = x"
  then obtain k where "i \<le> k" "k < length b" "b ! k = x" by blast
  then show "x \<in> set (drop i b)"
    by (auto simp: in_set_conv_nth intro!: exI [of _ "k - i"])
qed















section \<open>Lines of plain words\<close>

definition plain :: "u8 \<Rightarrow> bool" where
  "plain c \<longleftrightarrow> c \<notin> {0, CH_QUOTE, CH_SPACE, CH_EQUALS, CH_COMMA, CH_BACKSLASH}"

definition plain_word :: "u8 list \<Rightarrow> bool" where
  "plain_word w \<longleftrightarrow> w \<noteq> [] \<and> list_all plain w"

text \<open>
  A line: blanks, words that are each followed by one blank and some more, and a last word that ends
  the line (or no such word, when the line ends in blanks).
\<close>

fun segments :: "(u8 list \<times> nat) list \<Rightarrow> u8 list" where
  "segments [] = []"
| "segments ((w, k) # segs) = w @ CH_SPACE # replicate k CH_SPACE @ segments segs"

definition spaced_line :: "nat \<Rightarrow> (u8 list \<times> nat) list \<Rightarrow> u8 list \<Rightarrow> u8 list" where
  "spaced_line g segs lst = replicate g CH_SPACE @ segments segs @ lst"

definition line_words :: "(u8 list \<times> nat) list \<Rightarrow> u8 list \<Rightarrow> u8 list list" where
  "line_words segs lst = map fst segs @ (if lst = [] then [] else [lst])"

text \<open>The loop condition and the next round of the loop.\<close>

definition scan_on :: "int \<Rightarrow> shell_scan \<Rightarrow> scan_result option" where
  "scan_on in_size sc =
     (if int (sc_i sc) < in_size then scan_loop in_size sc
      else Some (Go (sc\<lparr>sc_i := sc_i sc - 1\<rparr>)))"

lemma scan_on_step:
  assumes "int (sc_i sc) < in_size" and "scan_char sc = Some (Go sc')" and "\<not> st_done sc'"
  shows "scan_on in_size sc = scan_on in_size (scan_next sc')"
proof -
  have "scan_loop in_size sc = scan_on in_size (scan_next sc')"
    using assms(2,3) by (subst scan_loop.simps) (simp add: scan_on_def scan_next_def)
  then show ?thesis using assms(1) by (simp add: scan_on_def [of in_size sc])
qed

text \<open>Between two words, and inside one, the flags are these.\<close>

definition idle :: "shell_scan \<Rightarrow> bool" where
  "idle sc \<longleftrightarrow> \<not> inArg sc \<and> \<not> inQuote sc \<and> \<not> st_done sc \<and> \<not> limQ sc \<and> isD sc = 0"

lemma scan_blanks:
  assumes "idle sc" and "\<forall>j < k. sc_i sc + j < length (sc_buf sc) \<and> sc_buf sc ! (sc_i sc + j) = CH_SPACE"
    and "int (sc_i sc + k) \<le> in_size"
  shows "scan_on in_size sc = scan_on in_size (sc\<lparr>sc_i := sc_i sc + k\<rparr>)"
  using assms
proof (induction k arbitrary: sc)
  case (Suc k)
  have c: "sc_i sc < length (sc_buf sc)" "sc_buf sc ! sc_i sc = CH_SPACE" using Suc(3) by force+
  have "scan_char sc = Some (Go sc)"
    using c Suc(2) by (simp add: scan_char_def scan_space_def escaped_def idle_def)
  then have "scan_on in_size sc = scan_on in_size (scan_next sc)"
    using Suc(2,4) by (intro scan_on_step) (simp_all add: idle_def)
  also have "\<dots> = scan_on in_size ((scan_next sc)\<lparr>sc_i := sc_i (scan_next sc) + k\<rparr>)"
  proof (rule Suc.IH)
    show "idle (scan_next sc)" using Suc(2) by (simp add: idle_def scan_next_def)
    show "\<forall>j < k. sc_i (scan_next sc) + j < length (sc_buf (scan_next sc)) \<and>
        sc_buf (scan_next sc) ! (sc_i (scan_next sc) + j) = CH_SPACE"
      using Suc(3) by (auto simp: scan_next_def dest: spec [of _ "Suc _"])
    show "int (sc_i (scan_next sc) + k) \<le> in_size" using Suc(4) by (simp add: scan_next_def)
  qed
  finally show ?case by (simp add: scan_next_def)
qed simp

lemma scan_letters:
  assumes "inArg sc" and "\<not> st_done sc"
    and "\<forall>j < k. sc_i sc + j < length (sc_buf sc) \<and> plain (sc_buf sc ! (sc_i sc + j))"
    and "int (sc_i sc + k) \<le> in_size"
  shows "scan_on in_size sc = scan_on in_size (sc\<lparr>sc_i := sc_i sc + k\<rparr>)"
  using assms
proof (induction k arbitrary: sc)
  case (Suc k)
  have c: "sc_i sc < length (sc_buf sc)" "plain (sc_buf sc ! sc_i sc)" using Suc(4) by force+
  have "scan_char sc = Some (Go sc)"
    using c Suc(2) by (simp add: scan_char_def scan_default_def plain_def)
  then have "scan_on in_size sc = scan_on in_size (scan_next sc)"
    using Suc(3,5) by (intro scan_on_step) simp_all
  also have "\<dots> = scan_on in_size ((scan_next sc)\<lparr>sc_i := sc_i (scan_next sc) + k\<rparr>)"
  proof (rule Suc.IH)
    show "inArg (scan_next sc)" "\<not> st_done (scan_next sc)"
      using Suc(2,3) by (simp_all add: scan_next_def)
    show "\<forall>j < k. sc_i (scan_next sc) + j < length (sc_buf (scan_next sc)) \<and>
        plain (sc_buf (scan_next sc) ! (sc_i (scan_next sc) + j))"
      using Suc(4) by (auto simp: scan_next_def dest: spec [of _ "Suc _"])
    show "int (sc_i (scan_next sc) + k) \<le> in_size" using Suc(5) by (simp add: scan_next_def)
  qed
  finally show ?case by (simp add: scan_next_def)
qed simp

text \<open>A whole word, from its first letter to the position after its last one.\<close>

definition with_arg :: "nat \<Rightarrow> nat \<Rightarrow> shell_scan \<Rightarrow> shell_scan" where
  "with_arg pos i sc = sc\<lparr>sc_argc := sc_argc sc + 1,
     sc_argv := (sc_argv sc)[sc_argc sc := Some pos], inArg := True, sc_i := i\<rparr>"

lemma scan_word:
  assumes idle: "idle sc" and buf: "sc_buf sc = pre @ w @ post" and i: "sc_i sc = length pre"
    and w: "plain_word w" and room: "sc_argc sc < length (sc_argv sc)"
    and sz: "int (length pre + length w) \<le> in_size"
  shows "scan_on in_size sc = scan_on in_size (with_arg (length pre) (length pre + length w) sc)"
proof -
  obtain c w' where cw: "w = c # w'" using w by (cases w) (auto simp: plain_word_def)
  have pc: "plain c" using w cw by (simp add: plain_word_def)
  let ?sc1 = "with_arg (length pre) (length pre) sc"
  have "scan_char sc = Some (Go ?sc1)"
    using idle buf i room cw pc
    by (auto simp: scan_char_def scan_default_def push_arg_def idle_def plain_def with_arg_def
        intro!: shell_scan.equality)
  then have "scan_on in_size sc = scan_on in_size (scan_next ?sc1)"
    using idle sz i cw by (intro scan_on_step) (simp_all add: idle_def with_arg_def)
  also have "\<dots> = scan_on in_size ((scan_next ?sc1)\<lparr>sc_i := sc_i (scan_next ?sc1) + length w'\<rparr>)"
  proof (rule scan_letters)
    show "inArg (scan_next ?sc1)" "\<not> st_done (scan_next ?sc1)"
      using idle by (simp_all add: scan_next_def with_arg_def idle_def)
    have "list_all plain w'" using w cw by (simp add: plain_word_def)
    then show "\<forall>j < length w'. sc_i (scan_next ?sc1) + j < length (sc_buf (scan_next ?sc1)) \<and>
        plain (sc_buf (scan_next ?sc1) ! (sc_i (scan_next ?sc1) + j))"
      using buf cw by (auto simp: scan_next_def with_arg_def nth_append list_all_length)
    show "int (sc_i (scan_next ?sc1) + length w') \<le> in_size"
      using sz cw by (simp add: scan_next_def with_arg_def)
  qed
  finally show ?thesis using cw by (simp add: scan_next_def with_arg_def)
qed

text \<open>The arguments found so far are these words, and they lie in the first part of the line.\<close>

definition words_read :: "u8 list \<Rightarrow> shell_scan \<Rightarrow> u8 list list \<Rightarrow> bool" where
  "words_read pre sc ws \<longleftrightarrow> length (sc_argv sc) = MAX_ARGS \<and> sc_argc sc \<le> MAX_ARGS \<and>
     map (\<lambda>a. Option.bind a (str_at pre)) (take (sc_argc sc) (sc_argv sc)) = map Some ws"

lemma words_read_len: "words_read pre sc ws \<Longrightarrow> length ws = sc_argc sc"
  by (auto simp: words_read_def dest!: arg_cong [where f = length])

lemma str_at_append: "str_at pre i = Some t \<Longrightarrow> str_at (pre @ x) i = Some t"
proof -
  assume a: "str_at pre i = Some t"
  then have z: "0 \<in> set (drop i pre)" by (auto simp: str_at_def Let_def split: if_splits)
  then have "i < length pre" by (auto simp: in_set_drop_iff)
  then show ?thesis using a z by (auto simp: str_at_def Let_def takeWhile_append1)
qed

lemma words_read_append:
  assumes "words_read pre sc ws"
  shows "words_read (pre @ x) sc ws"
proof -
  let ?as = "take (sc_argc sc) (sc_argv sc)"
  have "map (\<lambda>a. Option.bind a (str_at (pre @ x))) ?as = map Some ws"
  proof (rule nth_equalityI)
    show l: "length (map (\<lambda>a. Option.bind a (str_at (pre @ x))) ?as) = length (map Some ws)"
      using assms by (auto simp: words_read_def dest: arg_cong [where f = length])
    fix j assume "j < length (map (\<lambda>a. Option.bind a (str_at (pre @ x))) ?as)"
    then have j: "j < length ?as" "j < length ws" using l by auto
    have "map (\<lambda>a. Option.bind a (str_at pre)) ?as ! j = map Some ws ! j"
      using assms by (simp add: words_read_def)
    then have "Option.bind (?as ! j) (str_at pre) = Some (ws ! j)" using j by simp
    then show "map (\<lambda>a. Option.bind a (str_at (pre @ x))) ?as ! j = map Some ws ! j"
      using j str_at_append [of pre _ "ws ! j" x] by (auto simp: bind_eq_Some_conv)
  qed
  then show ?thesis using assms by (simp add: words_read_def)
qed

lemma str_at_word: "0 \<notin> set w \<Longrightarrow> str_at (pre @ w @ 0 # post) (length pre) = Some w"
  by (simp add: str_at_def)

lemma plain_word_nul: "plain_word w \<Longrightarrow> 0 \<notin> set w"
  by (auto simp: plain_word_def list_all_iff plain_def)

lemma words_read_with_arg:
  assumes rd: "words_read pre sc ws" and room: "sc_argc sc < MAX_ARGS" and w: "plain_word w"
    and sc': "sc_argc sc' = sc_argc (with_arg (length pre) i sc)"
      "sc_argv sc' = sc_argv (with_arg (length pre) i sc)"
  shows "words_read (pre @ w @ 0 # post) sc' (ws @ [w])"
proof -
  have "take (Suc (sc_argc sc)) ((sc_argv sc)[sc_argc sc := Some (length pre)])
      = take (sc_argc sc) (sc_argv sc) @ [Some (length pre)]"
    using rd room by (simp add: words_read_def take_Suc_conv_app_nth)
  then show ?thesis
    using words_read_append [OF rd, of "w @ 0 # post"] str_at_word [OF plain_word_nul [OF w], of pre post]
      room sc' by (simp add: words_read_def with_arg_def)
qed

text \<open>One word and the blanks after it.\<close>

lemma scan_segment:
  assumes idle: "idle sc" and buf: "sc_buf sc = pre @ w @ CH_SPACE # replicate k CH_SPACE @ post"
    and i: "sc_i sc = length pre" and w: "plain_word w" and rd: "words_read pre sc ws"
    and room: "sc_argc sc < MAX_ARGS"
    and sz: "int (length pre + length w + 1 + k) \<le> in_size"
    and pre': "pre' = pre @ w @ 0 # replicate k CH_SPACE"
  shows "\<exists>sc'. scan_on in_size sc = scan_on in_size sc' \<and> idle sc' \<and> sc_buf sc' = pre' @ post \<and>
           sc_i sc' = length pre' \<and> words_read pre' sc' (ws @ [w])"
proof -
  let ?n = "length pre + length w"
  let ?sc1 = "with_arg (length pre) ?n sc"
  have r: "sc_argc sc < length (sc_argv sc)" using room rd by (simp add: words_read_def)
  have s1: "scan_on in_size sc = scan_on in_size ?sc1"
    by (rule scan_word [OF idle buf i w r]) (use sz in simp)
  have last: "sc_buf sc ! (?n - 1) \<noteq> CH_BACKSLASH"
  proof -
    have "sc_buf sc ! (?n - 1) = last w" using buf w
      by (cases w rule: rev_cases) (simp_all add: plain_word_def nth_append)
    moreover have "plain (last w)" using w by (simp add: plain_word_def list_all_iff)
    ultimately show ?thesis by (simp add: plain_def)
  qed
  have buf1: "sc_buf sc ! ?n = CH_SPACE" "?n < length (sc_buf sc)" using buf by (simp_all add: nth_append)
  have "scan_char ?sc1 = Some (Go (cut ?sc1))"
    using idle buf1 last by (simp add: scan_char_def scan_space_def escaped_def with_arg_def idle_def)
  then have s2: "scan_on in_size ?sc1 = scan_on in_size (scan_next (cut ?sc1))"
    by (rule scan_on_step [rotated]) (use idle sz in \<open>simp_all add: idle_def with_arg_def cut_def\<close>)
  let ?sc2 = "scan_next (cut ?sc1)"
  have buf2: "sc_buf ?sc2 = pre' @ post"
    using buf pre' by (simp add: scan_next_def cut_def with_arg_def list_update_append)
  have idle2: "idle ?sc2" using idle by (simp add: idle_def scan_next_def cut_def with_arg_def)
  have s3: "scan_on in_size ?sc2 = scan_on in_size (?sc2\<lparr>sc_i := sc_i ?sc2 + k\<rparr>)"
  proof (rule scan_blanks [OF idle2])
    show "int (sc_i ?sc2 + k) \<le> in_size" using sz by (simp add: scan_next_def cut_def with_arg_def)
    show "\<forall>j < k. sc_i ?sc2 + j < length (sc_buf ?sc2) \<and> sc_buf ?sc2 ! (sc_i ?sc2 + j) = CH_SPACE"
      unfolding buf2 pre' by (auto simp: scan_next_def cut_def with_arg_def nth_append)
  qed
  let ?sc3 = "?sc2\<lparr>sc_i := sc_i ?sc2 + k\<rparr>"
  have "words_read pre' ?sc3 (ws @ [w])" unfolding pre'
    by (rule words_read_with_arg [OF rd room w]) (simp_all add: scan_next_def cut_def with_arg_def)
  moreover have "idle ?sc3" using idle2 by (simp add: idle_def)
  moreover have "sc_buf ?sc3 = pre' @ post" using buf2 by simp
  moreover have "sc_i ?sc3 = length pre'"
    using pre' by (simp add: scan_next_def cut_def with_arg_def)
  ultimately show ?thesis using s1 s2 s3 by (intro exI [of _ ?sc3]) simp
qed

lemma scan_segments:
  assumes "idle sc" and "sc_buf sc = pre @ segments segs @ post" and "sc_i sc = length pre"
    and "\<forall>(w, k) \<in> set segs. plain_word w" and "words_read pre sc ws"
    and "length ws + length segs \<le> MAX_ARGS"
    and "int (length pre + length (segments segs)) \<le> in_size"
  shows "\<exists>sc' pre'. scan_on in_size sc = scan_on in_size sc' \<and> idle sc' \<and> sc_buf sc' = pre' @ post \<and>
           length pre' = length pre + length (segments segs) \<and>
           sc_i sc' = length pre' \<and> words_read pre' sc' (ws @ map fst segs)"
  using assms
proof (induction segs arbitrary: sc pre ws)
  case Nil
  then show ?case by (intro exI [of _ sc] exI [of _ pre]) simp
next
  case (Cons wk segs)
  obtain w k where wk: "wk = (w, k)" by fastforce
  define pre1 where "pre1 = pre @ w @ 0 # replicate k CH_SPACE"
  have buf: "sc_buf sc = pre @ w @ CH_SPACE # replicate k CH_SPACE @ segments segs @ post"
    using Cons.prems(2) wk by simp
  have w: "plain_word w" using Cons.prems(4) wk by simp
  have room: "sc_argc sc < MAX_ARGS" using Cons.prems(5,6) words_read_len [of pre sc ws] by simp
  have sz: "int (length pre + length w + 1 + k) \<le> in_size" using Cons.prems(7) wk by simp
  from scan_segment [OF Cons.prems(1) buf Cons.prems(3) w Cons.prems(5) room sz pre1_def] obtain sc1
    where sc1: "scan_on in_size sc = scan_on in_size sc1" "idle sc1"
      "sc_buf sc1 = pre1 @ segments segs @ post" "sc_i sc1 = length pre1"
      "words_read pre1 sc1 (ws @ [w])" by auto
  have "\<exists>sc' pre'. scan_on in_size sc1 = scan_on in_size sc' \<and> idle sc' \<and> sc_buf sc' = pre' @ post \<and>
           length pre' = length pre1 + length (segments segs) \<and>
           sc_i sc' = length pre' \<and> words_read pre' sc' ((ws @ [w]) @ map fst segs)"
    by (rule Cons.IH [OF sc1(2-4) _ sc1(5)]) (use Cons.prems wk in \<open>auto simp: pre1_def\<close>)
  then show ?case using sc1(1) wk by (auto simp: pre1_def)
qed

lemma segments_append: "segments (a @ b) = segments a @ segments b"
  by (induction a rule: segments.induct) simp_all

lemma scan_start_blanks:
  assumes "inbuf = replicate g CH_SPACE @ post" and "int g \<le> in_size" and "0 < in_size"
  shows "\<exists>sc. scan_loop in_size (scan_start inbuf) = scan_on in_size sc \<and> idle sc \<and>
    sc_buf sc = replicate g CH_SPACE @ post \<and> sc_i sc = length (replicate g CH_SPACE :: u8 list) \<and>
    words_read (replicate g CH_SPACE) sc []"
proof -
  let ?sc = "(scan_start inbuf)\<lparr>sc_i := sc_i (scan_start inbuf) + g\<rparr>"
  have "idle (scan_start inbuf)" by (simp add: idle_def scan_start_def)
  then have "scan_on in_size (scan_start inbuf) = scan_on in_size ?sc"
    by (rule scan_blanks) (use assms in \<open>auto simp: scan_start_def nth_append\<close>)
  moreover have "scan_loop in_size (scan_start inbuf) = scan_on in_size (scan_start inbuf)"
    using assms(3) by (simp add: scan_on_def scan_start_def)
  ultimately show ?thesis using assms
    by (intro exI [of _ ?sc]) (simp add: idle_def scan_start_def words_read_def)
qed

text \<open>The end of the line: the size is reached, or the NUL is read.\<close>

lemma scan_end:
  assumes "sc_i sc < length (sc_buf sc)" and "sc_buf sc ! sc_i sc = 0"
    and "sc_argc sc \<noteq> 0" "isD sc \<noteq> 1" "\<not> limQ sc" "\<not> inQuote sc"
  shows "\<exists>i d. scan_on in_size sc = Some (Go (sc\<lparr>sc_i := i, st_done := d\<rparr>))"
proof (cases "int (sc_i sc) < in_size")
  case True
  have "scan_char sc = Some (Go (sc\<lparr>st_done := True\<rparr>))"
    using assms by (simp add: scan_char_def scan_nul_def)
  then have "scan_loop in_size sc = Some (Go (sc\<lparr>st_done := True\<rparr>))"
    by (subst scan_loop.simps) simp
  then show ?thesis using True by (auto simp: scan_on_def intro!: exI [of _ "sc_i sc"] exI [of _ True])
next
  case False
  then show ?thesis by (auto simp: scan_on_def intro!: exI [of _ "sc_i sc - 1"] exI [of _ "st_done sc"])
qed

lemma line_words_segs:
  "\<forall>w \<in> set (line_words segs lst). plain_word w \<Longrightarrow> \<forall>(w, k) \<in> set segs. plain_word w"
  by (fastforce simp: line_words_def ball_Un)

lemma scan_line:
  assumes ws: "ws = line_words segs lst" "\<forall>w \<in> set ws. plain_word w" "ws \<noteq> []" "length ws \<le> MAX_ARGS"
    and buf: "inbuf = spaced_line g segs lst @ 0 # rest"
    and sz: "int (length (spaced_line g segs lst)) \<le> in_size"
  shows "\<exists>sc. scan_loop in_size (scan_start inbuf) = Some (Go sc) \<and> \<not> inQuote sc \<and>
           sc_argc sc = length ws \<and> length (sc_argv sc) = MAX_ARGS \<and> arg_strings sc = map Some ws"
proof -
  have b0: "inbuf = replicate g CH_SPACE @ segments segs @ lst @ 0 # rest"
    using buf by (simp add: spaced_line_def)
  have "0 < length (segments segs @ lst)"
    using ws(1,3) by (cases segs) (auto simp: line_words_def split: if_splits)
  then have pos: "0 < in_size" and g: "int g \<le> in_size"
    using sz unfolding spaced_line_def length_append length_replicate by linarith+
  obtain sc0 where sc0: "scan_loop in_size (scan_start inbuf) = scan_on in_size sc0" "idle sc0"
      "sc_buf sc0 = replicate g CH_SPACE @ segments segs @ lst @ 0 # rest"
      "sc_i sc0 = length (replicate g CH_SPACE :: u8 list)" "words_read (replicate g CH_SPACE) sc0 []"
    using scan_start_blanks [OF b0 g pos] by auto
  have segs: "\<forall>(w, k) \<in> set segs. plain_word w" using line_words_segs ws(1,2) by simp
  obtain sc1 pre where sc1: "scan_on in_size sc0 = scan_on in_size sc1" "idle sc1"
      "sc_buf sc1 = pre @ lst @ 0 # rest" "length pre = g + length (segments segs)"
      "sc_i sc1 = length pre" "words_read pre sc1 (map fst segs)"
  proof -
    have a: "length [] + length segs \<le> MAX_ARGS" using ws(1,4) by (simp add: line_words_def split: if_splits)
    have b: "int (length (replicate g CH_SPACE :: u8 list) + length (segments segs)) \<le> in_size"
      using sz by (simp add: spaced_line_def)
    show ?thesis using scan_segments [OF sc0(2-4) segs sc0(5) a b]
      by (elim exE conjE) (rule that, simp_all)
  qed
  obtain sc2 where sc2: "scan_on in_size sc1 = scan_on in_size sc2" "sc_buf sc2 = pre @ lst @ 0 # rest"
      "sc_i sc2 = length (pre @ lst)" "words_read (pre @ lst @ 0 # rest) sc2 ws"
      "\<not> inQuote sc2" "\<not> limQ sc2" "isD sc2 = 0"
  proof (cases "lst = []")
    case True
    then show ?thesis using that [of sc1] sc1 ws words_read_append [OF sc1(6), of "0 # rest"]
      by (auto simp: idle_def line_words_def)
  next
    case False
    have w: "plain_word lst" and wsl: "ws = map fst segs @ [lst]" using False ws
      by (auto simp: line_words_def)
    have room: "sc_argc sc1 < MAX_ARGS" using words_read_len [OF sc1(6)] ws(4) wsl by simp
    let ?sc = "with_arg (length pre) (length pre + length lst) sc1"
    have "scan_on in_size sc1 = scan_on in_size ?sc"
      by (rule scan_word [OF sc1(2,3,5) w])
         (use sz sc1 room in \<open>auto simp: spaced_line_def words_read_def\<close>)
    moreover have "words_read (pre @ lst @ 0 # rest) ?sc ws" unfolding wsl
      by (rule words_read_with_arg [OF sc1(6) room w]) (simp_all add: with_arg_def)
    ultimately show ?thesis using that [of ?sc] sc1 by (simp add: with_arg_def idle_def)
  qed
  obtain i d where "scan_on in_size sc2 = Some (Go (sc2\<lparr>sc_i := i, st_done := d\<rparr>))"
  proof -
    have "sc_i sc2 < length (sc_buf sc2)" "sc_buf sc2 ! sc_i sc2 = 0"
      unfolding sc2(2,3) by (simp_all add: nth_append)
    moreover have "sc_argc sc2 \<noteq> 0" using words_read_len [OF sc2(4)] ws(3) by (cases ws) simp_all
    ultimately show ?thesis using that scan_end [of sc2 in_size] sc2(5-7) by auto
  qed
  then show ?thesis using sc0(1) sc1(1) sc2 words_read_len [OF sc2(4)]
    by (intro exI [of _ "sc2\<lparr>sc_i := i, st_done := d\<rparr>"]) (simp add: words_read_def arg_strings_def)
qed

text \<open>The seventeenth word.\<close>

lemma scan_overflow:
  assumes "idle sc" and "sc_buf sc = pre @ w @ post" and "sc_i sc = length pre" and "plain_word w"
    and "words_read pre sc ws" and "length ws = MAX_ARGS" and "int (length pre) < in_size"
  shows "scan_on in_size sc = None"
proof -
  obtain c w' where cw: "w = c # w'" "plain c" using assms(4) by (cases w) (auto simp: plain_word_def)
  have "scan_char sc = None"
    using assms words_read_len [OF assms(5)] cw
    by (simp add: scan_char_def scan_default_def push_arg_def idle_def plain_def words_read_def)
  then show ?thesis using assms by (simp add: scan_on_def scan_loop.simps)
qed

lemma scan_line_overflow:
  assumes ws: "\<forall>w \<in> set (line_words segs lst). plain_word w" "MAX_ARGS < length (line_words segs lst)"
    and buf: "inbuf = spaced_line g segs lst @ rest"
    and sz: "int (length (spaced_line g segs lst)) \<le> in_size"
  shows "scan_loop in_size (scan_start inbuf) = None"
proof -
  define s1 s2 where "s1 = take MAX_ARGS segs" and "s2 = drop MAX_ARGS segs"
  have s: "segs = s1 @ s2" "length s1 = MAX_ARGS"
    using ws(2) by (auto simp: s1_def s2_def line_words_def split: if_splits)
  obtain w post where w: "segments s2 @ lst = w @ post" "plain_word w"
  proof (cases s2)
    case Nil
    then show ?thesis using that [of lst "[]"] ws s by (auto simp: line_words_def split: if_splits)
  next
    case (Cons a s3)
    then obtain w k where "s2 = (w, k) # s3" by (cases a) auto
    then show ?thesis using that [of w "CH_SPACE # replicate k CH_SPACE @ segments s3 @ lst"] ws s
      by (auto simp: line_words_def)
  qed
  then have wn: "0 < length w" by (simp add: plain_word_def)
  have len: "length (spaced_line g segs lst) = g + length (segments s1) + length w + length post"
    using arg_cong [OF w(1), of length] s by (simp add: spaced_line_def segments_append)
  have b0: "inbuf = replicate g CH_SPACE @ segments s1 @ w @ post @ rest"
    using buf s w(1) by (simp add: spaced_line_def segments_append)
  obtain sc0 where sc0: "scan_loop in_size (scan_start inbuf) = scan_on in_size sc0" "idle sc0"
      "sc_buf sc0 = replicate g CH_SPACE @ segments s1 @ w @ post @ rest"
      "sc_i sc0 = length (replicate g CH_SPACE :: u8 list)" "words_read (replicate g CH_SPACE) sc0 []"
    using scan_start_blanks [OF b0, of in_size] sz len wn by auto
  have segs: "\<forall>(w, k) \<in> set s1. plain_word w" using line_words_segs [OF ws(1)] s by simp
  obtain sc1 pre where sc1: "scan_on in_size sc0 = scan_on in_size sc1" "idle sc1"
      "sc_buf sc1 = pre @ w @ post @ rest" "length pre = g + length (segments s1)"
      "sc_i sc1 = length pre" "words_read pre sc1 (map fst s1)"
    using scan_segments [OF sc0(2-4) segs sc0(5), of in_size] sz s len by auto
  have "int (length pre) < in_size" using sz len wn sc1(4) by linarith
  then have "scan_on in_size sc1 = None"
    by (intro scan_overflow [OF sc1(2,3,5) w(2) sc1(6)]) (use s in simp_all)
  then show ?thesis using sc0 sc1 by simp
qed

section \<open>Whole lines\<close>

lemma clear_out_whole: "clear_out (int (length ob)) (Some ob) = Some (Some (replicate (length ob) 0))"
  by (simp add: clear_out_def)

lemma segments_replicate_length: "length (segments (replicate n (w, k))) = n * (length w + 1 + k)"
  by (induction n) simp_all

lemma segments_nul: "\<forall>(w, k) \<in> set segs. plain_word w \<Longrightarrow> 0 \<notin> set (segments segs)"
  by (induction segs rule: segments.induct) (simp_all add: plain_word_nul)

lemma line_not_nul:
  assumes ws: "\<forall>w \<in> set (line_words segs lst). plain_word w" and ne: "line_words segs lst \<noteq> []"
  shows "spaced_line g segs lst \<noteq> [] \<and> spaced_line g segs lst ! 0 \<noteq> 0"
proof -
  have "0 \<notin> set lst" using ws plain_word_nul [of lst] by (cases "lst = []") (simp_all add: line_words_def)
  then have "0 \<notin> set (spaced_line g segs lst)"
    using segments_nul [OF line_words_segs [OF ws]] by (simp add: spaced_line_def)
  moreover have "spaced_line g segs lst \<noteq> []"
    using ne by (cases segs rule: segments.cases) (simp_all add: spaced_line_def line_words_def split: if_splits)
  ultimately show ?thesis by (metis length_greater_0_conv nth_mem)
qed

lemma takeWhile_id: "x \<notin> set w \<Longrightarrow> takeWhile (\<lambda>y. y \<noteq> x) w = w"
  by (induction w) auto

lemma dot_pos_none: "CH_DOT \<notin> set w \<Longrightarrow> dot_pos w = 0"
  by (simp add: dot_pos_def takeWhile_id)

lemma cmd_matches_full:
  "cmd_ok mem c \<Longrightarrow> 0 \<notin> set w \<Longrightarrow> cmd_matches mem w 0 c \<longleftrightarrow> cmd_name (mem c) = Some w"
  by (auto simp: cmd_ok_def cmd_matches_def name_matches_def strcmp_eq_def takeWhile_id
      split: option.splits)

lemma lookup_full:
  assumes wf: "sys_wf mem s" and w: "CH_DOT \<notin> set w" "0 \<notin> set w"
    and c: "find (\<lambda>c. cmd_name (mem c) = Some w) (sys_cmds s) = Some c"
  shows "c \<noteq> NULL \<and>
    (\<exists>i. lookup_command mem w (dot_pos w) s = Some (c, s\<lparr>s_running_command_index := i\<rparr>))"
proof -
  obtain p where p: "pCli s = Some p" "cli_wf mem p"
    using wf by (auto simp: sys_wf_def split: option.splits)
  have "find (cmd_matches mem w 0) (registered p) = find (\<lambda>c. cmd_name (mem c) = Some w) (registered p)"
    by (rule find_cong_list) (rule cmd_matches_full [OF registered_ok [OF p(2)] w(2)])
  then have eq: "find (cmd_matches mem w 0) (registered p) = Some c"
    using c p(1) by (simp add: sys_cmds_def)
  then have "c \<in> set (registered p)" by (auto simp: find_Some_iff)
  then have "c \<noteq> NULL" using registered_ok [OF p(2)] by (auto simp: cmd_ok_def)
  then show ?thesis using lookup_spec [OF p(2,1), of w 0] eq dot_pos_none [OF w(1)] by auto
qed

lemma first_argument:
  assumes "arg_strings sc = map Some ws" and "sc_argc sc = length ws" and "ws \<noteq> []"
    and "length (sc_argv sc) = MAX_ARGS"
  shows "\<exists>q. sc_argv sc ! 0 = Some q \<and> str_at (sc_buf sc) q = Some (hd ws)"
proof -
  obtain a as where as: "sc_argv sc = a # as" using assms(4) by (cases "sc_argv sc") auto
  obtain w ws' where "ws = w # ws'" using assms(3) by (cases ws) auto
  then show ?thesis using assms as by (auto simp: arg_strings_def bind_eq_Some_conv)
qed

text \<open>A table with one command, \<^verbatim>\<open>ps\<close>, for the examples.\<close>

definition sample_mem :: cli_mem where
  "sample_mem a = (if a = 0x100 \<or> a = 0x10C
     then \<lparr>cmd_name = Some [0x70, 0x73], cmd_help = None, cmd_function = 0x9000\<rparr>
     else \<lparr>cmd_name = None, cmd_help = None, cmd_function = NULL\<rparr>)"

definition sample_cli :: cli_sys where
  "sample_cli = \<lparr>pCli = Some \<lparr>initialized = 1, commands = 0x100 # replicate 319 NULL, num_commands = 1\<rparr>,
     s_running_command_index = 320, s_running_status = 0, cli_calls = []\<rparr>"

definition sample_run :: cli_run where
  "sample_run f args out s = (out, s)"

lemma sample_cmds: "sys_cmds sample_cli = [0x100]"
  by (simp add: sys_cmds_def sample_cli_def registered_def)

lemma sample_wf: "sys_wf sample_mem sample_cli"
  by (simp add: sys_wf_def cli_wf_def registered_def sample_cli_def sample_mem_def cmd_ok_def)

text \<open>The state a command is called in.\<close>

definition calling :: "addr \<Rightarrow> u8 list list \<Rightarrow> u16 \<Rightarrow> cli_sys \<Rightarrow> cli_sys" where
  "calling f ws i s = s\<lparr>s_running_command_index := i,
     s_running_status := s_running_status s OR CLI_COMMAND_IS_RUNNING,
     cli_calls := cli_calls s @ [(f, map Some ws)]\<rparr>"

text \<open>
  C12. A line of one to sixteen plain words, with any number of blanks around them, whose first word
  is the name of a registered command, calls the first such command with exactly the words of the
  line as its arguments and with a cleared response buffer; the call is bracketed by the running
  status, and the result is 0. The line may be given with or without its NUL counted.
\<close>

theorem shell_line_runs_command:
  assumes wf: "sys_wf mem s"
    and ws: "ws = line_words segs lst" "\<forall>w \<in> set ws. plain_word w" "ws \<noteq> []" "length ws \<le> MAX_ARGS"
    and dot: "CH_DOT \<notin> set (hd ws)"
    and c: "find (\<lambda>c. cmd_name (mem c) = Some (hd ws)) (sys_cmds s) = Some c"
    and buf: "inbuf = spaced_line g segs lst @ 0 # rest"
    and sz: "int (length (spaced_line g segs lst)) \<le> n"
  shows "\<exists>b i. handle_shell_input mem run inbuf n (Some ob) (int (length ob)) s =
    (case run (cmd_function (mem c)) (map Some ws) (Some (replicate (length ob) 0))
            (calling (cmd_function (mem c)) ws i s) of
       (out, t) \<Rightarrow>
         Some (0, b, out, t\<lparr>s_running_status := s_running_status t AND NOT CLI_COMMAND_IS_RUNNING\<rparr>))"
proof -
  have first: "inbuf \<noteq> [] \<and> inbuf ! 0 \<noteq> 0"
    using line_not_nul [of segs lst g] ws(1-3) buf by (simp add: nth_append)
  obtain sc where sc: "scan_loop n (scan_start inbuf) = Some (Go sc)" "\<not> inQuote sc"
      "sc_argc sc = length ws" "length (sc_argv sc) = MAX_ARGS" "arg_strings sc = map Some ws"
    using scan_line [OF ws buf sz] by blast
  obtain q where q: "sc_argv sc ! 0 = Some q" "str_at (sc_buf sc) q = Some (hd ws)"
    using first_argument [OF sc(5,3) ws(3) sc(4)] by blast
  have "0 \<notin> set (hd ws)" using plain_word_nul ws(2,3) by simp
  from lookup_full [OF wf dot this c] obtain i where
    l: "c \<noteq> NULL" "lookup_command mem (hd ws) (dot_pos (hd ws)) s = Some (c, s\<lparr>s_running_command_index := i\<rparr>)"
    by blast
  have "sc_argc sc \<noteq> 0" using sc(3) ws(3) by simp
  then show ?thesis
    using first sc(1,2,5) q l
    by (intro exI [of _ "sc_buf sc"] exI [of _ i])
       (simp add: handle_shell_input_def clear_out_whole run_scanned_def calling_def split: prod.splits)
qed

theorem shell_line_runs_command_witness:
  "\<exists>b t. handle_shell_input sample_mem sample_run
       (spaced_line 1 [([0x70, 0x73], 2)] [0x6F, 0x6E] @ [0]) 8 (Some (replicate 4 7)) 4 sample_cli =
     Some (0, b, Some [0, 0, 0, 0], t) \<and>
     cli_calls t = [(0x9000, [Some [0x70, 0x73], Some [0x6F, 0x6E]])] \<and> s_running_status t = 0"
proof -
  have "\<exists>b i. handle_shell_input sample_mem sample_run
       (spaced_line 1 [([0x70, 0x73], 2)] [0x6F, 0x6E] @ 0 # []) 8 (Some (replicate 4 7))
       (int (length (replicate 4 (7 :: u8)))) sample_cli =
     (case sample_run (cmd_function (sample_mem 0x100)) (map Some [[0x70, 0x73], [0x6F, 0x6E]])
            (Some (replicate (length (replicate 4 (7 :: u8))) 0))
            (calling (cmd_function (sample_mem 0x100)) [[0x70, 0x73], [0x6F, 0x6E]] i sample_cli) of
       (out, t) \<Rightarrow> Some (0, b, out, t\<lparr>s_running_status := s_running_status t AND NOT 1\<rparr>))"
    by (rule shell_line_runs_command [OF sample_wf, where segs = "[([0x70, 0x73], 2)]"
          and lst = "[0x6F, 0x6E]" and g = 1 and rest = "[]"])
       (simp_all add: line_words_def plain_word_def plain_def sample_cmds spaced_line_def sample_mem_def)
  then obtain b i where "handle_shell_input sample_mem sample_run
       (spaced_line 1 [([0x70, 0x73], 2)] [0x6F, 0x6E] @ [0]) 8 (Some (replicate 4 7)) 4 sample_cli =
     Some (0, b, Some (replicate 4 0), (calling 0x9000 [[0x70, 0x73], [0x6F, 0x6E]] i sample_cli)\<lparr>
       s_running_status := (0 OR 1) AND NOT 1\<rparr>)"
    by (auto simp: sample_run_def sample_mem_def calling_def sample_cli_def)
  then show ?thesis by (simp add: calling_def sample_cli_def numeral_eq_Suc)
qed

text \<open>
  C34. A line of more than sixteen plain words has no defined result, whatever its first word is: the
  seventeenth word is stored behind the sixteen entries of \<^verbatim>\<open>argv\<close>.
\<close>

theorem shell_argv_overflow:
  assumes "\<forall>w \<in> set (line_words segs lst). plain_word w" and "MAX_ARGS < length (line_words segs lst)"
    and "inbuf = spaced_line g segs lst @ 0 # rest" and "int (length (spaced_line g segs lst)) \<le> n"
  shows "handle_shell_input mem run inbuf n (Some ob) (int (length ob)) s = None"
proof -
  have "line_words segs lst \<noteq> []" using assms(2) by auto
  then have "inbuf \<noteq> [] \<and> inbuf ! 0 \<noteq> 0"
    using line_not_nul [OF assms(1)] assms(3) by (simp add: nth_append)
  then show ?thesis using scan_line_overflow [OF assms] by (simp add: handle_shell_input_def clear_out_whole)
qed

theorem shell_argv_overflow_witness:
  "handle_shell_input sample_mem sample_run (spaced_line 0 (replicate 16 ([0x61], 0)) [0x61] @ [0]) 33
     (Some (replicate 200 0)) 200 sample_cli = None"
  using shell_argv_overflow [of "replicate 16 ([0x61], 0)" "[0x61]" _ 0 "[]" 33 sample_mem sample_run
      "replicate 200 0" sample_cli, OF _ _ refl]
  by (simp add: line_words_def plain_word_def plain_def spaced_line_def segments_replicate_length)



text \<open>
  C25. The table of commands behaves as a list of distinct commands with room for 320: registering
  appends a command that is not there (and is refused when the table is full), removing takes it out
  and keeps the order, a lookup returns the first command whose name matches, and registering an
  array that fits adds its new members in order. Every operation keeps the table well formed.
\<close>

theorem cli_table_is_list:
  assumes wf: "sys_wf mem s" and c: "cmd_ok mem c"
    and arr: "list_all (cmd_ok mem) (cmd_array c k)" "length (sys_cmds s) + k \<le> MAX_COMMANDS"
  shows "(\<exists>t. cli_register_command mem c s = Some (if length (sys_cmds s) < MAX_COMMANDS then 0 else 1, t) \<and>
            sys_wf mem t \<and> sys_cmds t = (if c \<in> set (sys_cmds s) \<or> length (sys_cmds s) \<ge> MAX_COMMANDS
                                        then sys_cmds s else sys_cmds s @ [c])) \<and>
         (\<exists>t. cli_unregister_command mem c s = Some (if c \<in> set (sys_cmds s) then 0 else 1, t) \<and>
            sys_wf mem t \<and> sys_cmds t = remove1 c (sys_cmds s)) \<and>
         (\<exists>i. lookup_command mem name len s =
            Some (case find (cmd_matches mem name len) (sys_cmds s) of
                    None \<Rightarrow> (NULL, s) | Some d \<Rightarrow> (d, s\<lparr>s_running_command_index := i\<rparr>))) \<and>
         (\<exists>t. cli_register_commands mem c (int k) s = Some (0, t) \<and> sys_wf mem t \<and>
            sys_cmds t = foldl add_new (sys_cmds s) (cmd_array c k))"
proof -
  obtain p where p: "pCli s = Some p" "cli_wf mem p"
    using wf by (auto simp: sys_wf_def split: option.splits)
  have "sys_cmds s = registered p" using p(1) by (simp add: sys_cmds_def)
  then have "\<exists>i. lookup_command mem name len s =
      Some (case find (cmd_matches mem name len) (sys_cmds s) of
              None \<Rightarrow> (NULL, s) | Some d \<Rightarrow> (d, s\<lparr>s_running_command_index := i\<rparr>))"
    using lookup_spec [OF p(2,1)] by simp
  then show ?thesis
    using cli_tab.enrol_law [OF wf c] cli_tab.withdraw_law [OF wf c] register_loop_spec [OF wf arr]
    by (simp add: cli_register_commands_def)
qed

theorem cli_table_is_list_witness:
  "(\<exists>t. cli_register_command sample_mem 0x10C sample_cli = Some (0, t) \<and> sys_cmds t = [0x100, 0x10C]) \<and>
   (\<exists>t. cli_register_commands sample_mem 0x10C 1 sample_cli = Some (0, t) \<and> sys_cmds t = [0x100, 0x10C])"
proof -
  have "cmd_ok sample_mem 0x10C" by (simp add: cmd_ok_def sample_mem_def)
  moreover have "cmd_array 0x10C 1 = [0x10C]" by (simp add: cmd_array_def)
  ultimately show ?thesis
    using cli_table_is_list [OF sample_wf, of "0x10C" 1] by (auto simp: sample_cmds add_new_def)
qed

end
