(* ===== verification/Crc32.thy ===== *)
theory Crc32
  imports Prelude
begin

text \<open>
  The checksum of the stored environment, \<^verbatim>\<open>components/easy_flash/src/ef_utils.c\<close>: a CRC-32 computed
  byte by byte with a table. It is compared with the definition of the checksum, the division by
  the polynomial one bit at a time, and shown to notice every change within one byte.
\<close>

section \<open>The code\<close>

definition crc32_table :: "u32 list" where
  "crc32_table =
     [0x00000000, 0x77073096, 0xee0e612c, 0x990951ba, 0x076dc419, 0x706af48f, 0xe963a535, 0x9e6495a3,
      0x0edb8832, 0x79dcb8a4, 0xe0d5e91e, 0x97d2d988, 0x09b64c2b, 0x7eb17cbd, 0xe7b82d07, 0x90bf1d91,
      0x1db71064, 0x6ab020f2, 0xf3b97148, 0x84be41de, 0x1adad47d, 0x6ddde4eb, 0xf4d4b551, 0x83d385c7,
      0x136c9856, 0x646ba8c0, 0xfd62f97a, 0x8a65c9ec, 0x14015c4f, 0x63066cd9, 0xfa0f3d63, 0x8d080df5,
      0x3b6e20c8, 0x4c69105e, 0xd56041e4, 0xa2677172, 0x3c03e4d1, 0x4b04d447, 0xd20d85fd, 0xa50ab56b,
      0x35b5a8fa, 0x42b2986c, 0xdbbbc9d6, 0xacbcf940, 0x32d86ce3, 0x45df5c75, 0xdcd60dcf, 0xabd13d59,
      0x26d930ac, 0x51de003a, 0xc8d75180, 0xbfd06116, 0x21b4f4b5, 0x56b3c423, 0xcfba9599, 0xb8bda50f,
      0x2802b89e, 0x5f058808, 0xc60cd9b2, 0xb10be924, 0x2f6f7c87, 0x58684c11, 0xc1611dab, 0xb6662d3d,
      0x76dc4190, 0x01db7106, 0x98d220bc, 0xefd5102a, 0x71b18589, 0x06b6b51f, 0x9fbfe4a5, 0xe8b8d433,
      0x7807c9a2, 0x0f00f934, 0x9609a88e, 0xe10e9818, 0x7f6a0dbb, 0x086d3d2d, 0x91646c97, 0xe6635c01,
      0x6b6b51f4, 0x1c6c6162, 0x856530d8, 0xf262004e, 0x6c0695ed, 0x1b01a57b, 0x8208f4c1, 0xf50fc457,
      0x65b0d9c6, 0x12b7e950, 0x8bbeb8ea, 0xfcb9887c, 0x62dd1ddf, 0x15da2d49, 0x8cd37cf3, 0xfbd44c65,
      0x4db26158, 0x3ab551ce, 0xa3bc0074, 0xd4bb30e2, 0x4adfa541, 0x3dd895d7, 0xa4d1c46d, 0xd3d6f4fb,
      0x4369e96a, 0x346ed9fc, 0xad678846, 0xda60b8d0, 0x44042d73, 0x33031de5, 0xaa0a4c5f, 0xdd0d7cc9,
      0x5005713c, 0x270241aa, 0xbe0b1010, 0xc90c2086, 0x5768b525, 0x206f85b3, 0xb966d409, 0xce61e49f,
      0x5edef90e, 0x29d9c998, 0xb0d09822, 0xc7d7a8b4, 0x59b33d17, 0x2eb40d81, 0xb7bd5c3b, 0xc0ba6cad,
      0xedb88320, 0x9abfb3b6, 0x03b6e20c, 0x74b1d29a, 0xead54739, 0x9dd277af, 0x04db2615, 0x73dc1683,
      0xe3630b12, 0x94643b84, 0x0d6d6a3e, 0x7a6a5aa8, 0xe40ecf0b, 0x9309ff9d, 0x0a00ae27, 0x7d079eb1,
      0xf00f9344, 0x8708a3d2, 0x1e01f268, 0x6906c2fe, 0xf762575d, 0x806567cb, 0x196c3671, 0x6e6b06e7,
      0xfed41b76, 0x89d32be0, 0x10da7a5a, 0x67dd4acc, 0xf9b9df6f, 0x8ebeeff9, 0x17b7be43, 0x60b08ed5,
      0xd6d6a3e8, 0xa1d1937e, 0x38d8c2c4, 0x4fdff252, 0xd1bb67f1, 0xa6bc5767, 0x3fb506dd, 0x48b2364b,
      0xd80d2bda, 0xaf0a1b4c, 0x36034af6, 0x41047a60, 0xdf60efc3, 0xa867df55, 0x316e8eef, 0x4669be79,
      0xcb61b38c, 0xbc66831a, 0x256fd2a0, 0x5268e236, 0xcc0c7795, 0xbb0b4703, 0x220216b9, 0x5505262f,
      0xc5ba3bbe, 0xb2bd0b28, 0x2bb45a92, 0x5cb36a04, 0xc2d7ffa7, 0xb5d0cf31, 0x2cd99e8b, 0x5bdeae1d,
      0x9b64c2b0, 0xec63f226, 0x756aa39c, 0x026d930a, 0x9c0906a9, 0xeb0e363f, 0x72076785, 0x05005713,
      0x95bf4a82, 0xe2b87a14, 0x7bb12bae, 0x0cb61b38, 0x92d28e9b, 0xe5d5be0d, 0x7cdcefb7, 0x0bdbdf21,
      0x86d3d2d4, 0xf1d4e242, 0x68ddb3f8, 0x1fda836e, 0x81be16cd, 0xf6b9265b, 0x6fb077e1, 0x18b74777,
      0x88085ae6, 0xff0f6a70, 0x66063bca, 0x11010b5c, 0x8f659eff, 0xf862ae69, 0x616bffd3, 0x166ccf45,
      0xa00ae278, 0xd70dd2ee, 0x4e048354, 0x3903b3c2, 0xa7672661, 0xd06016f7, 0x4969474d, 0x3e6e77db,
      0xaed16a4a, 0xd9d65adc, 0x40df0b66, 0x37d83bf0, 0xa9bcae53, 0xdebb9ec5, 0x47b2cf7f, 0x30b5ffe9,
      0xbdbdf21c, 0xcabac28a, 0x53b39330, 0x24b4a3a6, 0xbad03605, 0xcdd70693, 0x54de5729, 0x23d967bf,
      0xb3667a2e, 0xc4614ab8, 0x5d681b02, 0x2a6f2b94, 0xb40bbe37, 0xc30c8ea1, 0x5a05df1b, 0x2d02ef8d]"

text \<open>The loop consumes the buffer; \<open>size\<close> is the length of the list.\<close>

fun ef_crc32_loop :: "u32 \<Rightarrow> u8 list \<Rightarrow> u32" where
  "ef_crc32_loop crc [] = crc"
| "ef_crc32_loop crc (p # buf) =
     ef_crc32_loop (crc32_table ! unat ((crc XOR ucast p) AND 0xFF) XOR drop_bit 8 crc) buf"

definition ef_calc_crc32 :: "u32 \<Rightarrow> u8 list \<Rightarrow> u32" where
  "ef_calc_crc32 crc buf = ef_crc32_loop (crc XOR NOT 0) buf XOR NOT 0"

section \<open>The definition of the checksum\<close>

text \<open>One step of the division: the lowest bit leaves, and the reversed polynomial is subtracted if it was set.\<close>

definition crc_bit :: "u32 \<Rightarrow> u32" where
  "crc_bit w = (if bit w 0 then drop_bit 1 w XOR 0xEDB88320 else drop_bit 1 w)"

definition crc8 :: "u32 \<Rightarrow> u32" where
  "crc8 w = (crc_bit ^^ 8) w"

definition crc_byte :: "u32 \<Rightarrow> u8 \<Rightarrow> u32" where
  "crc_byte w p = crc8 (w XOR ucast p)"

definition crc32_ref :: "u32 \<Rightarrow> u8 list \<Rightarrow> u32" where
  "crc32_ref crc buf = foldl crc_byte (crc XOR NOT 0) buf XOR NOT 0"

section \<open>Laws of the division\<close>

lemma crc_bit_xor: "crc_bit (v XOR w) = crc_bit v XOR crc_bit w"
  by (rule bit_word_eqI) (auto simp: crc_bit_def bit_simps)

lemma crc_bits_xor: "(crc_bit ^^ n) (v XOR w) = (crc_bit ^^ n) v XOR (crc_bit ^^ n) w"
  by (induction n) (simp_all add: crc_bit_xor)

lemma crc_bit_shift: "\<not> bit w 0 \<Longrightarrow> crc_bit w = drop_bit 1 w"
  by (simp add: crc_bit_def)

lemma crc_bits_shift: "\<forall>i < n. \<not> bit w i \<Longrightarrow> (crc_bit ^^ n) w = drop_bit n w"
proof (induction n)
  case (Suc n)
  then have "(crc_bit ^^ n) w = drop_bit n w" "\<not> bit (drop_bit n w) 0" by (auto simp: bit_simps)
  then show ?case by (simp add: crc_bit_shift)
qed simp

text \<open>
  The table is linear too: the entry of a sum of bits is the sum of their entries, so that the table
  doubles with every further bit.
\<close>

definition double :: "u32 list \<Rightarrow> u32 \<Rightarrow> u32 list" where
  "double t b = t @ map ((XOR) b) t"

definition crc_entries :: "nat \<Rightarrow> u32 list" where
  "crc_entries k = map (\<lambda>i. crc8 (of_nat i)) [0..<2 ^ k]"

lemma crc8_xor: "crc8 (v XOR w) = crc8 v XOR crc8 w"
  by (simp only: crc8_def crc_bits_xor)

lemma of_nat_add_xor:
  assumes "i < 2 ^ k"
  shows "(of_nat (2 ^ k + i) :: u32) = 2 ^ k XOR of_nat i"
proof -
  have high: "\<not> bit i n" if "k \<le> n" for n
    using assms that by (metis bit_take_bit_iff not_less take_bit_nat_eq_self)
  then have "(2 ^ k :: u32) AND of_nat i = 0"
    by (intro bit_word_eqI) (auto simp: bit_simps)
  then have "(2 ^ k :: u32) + of_nat i = 2 ^ k OR of_nat i" by (rule disjunctive_add_eq_or)
  also have "\<dots> = 2 ^ k XOR of_nat i"
    using high by (intro bit_word_eqI) (auto simp: bit_simps)
  finally show ?thesis by simp
qed

lemma crc_entries_Suc: "crc_entries (Suc k) = double (crc_entries k) (crc8 (2 ^ k))"
proof -
  have "[0..<2 ^ Suc k] = [0..<2 ^ k] @ map (\<lambda>i. i + 2 ^ k) [0..<2 ^ k]"
    using upt_add_eq_append [of 0 "2 ^ k" "2 ^ k"] map_add_upt [of "2 ^ k" "2 ^ k"] by (simp only: power_Suc mult_2 le0)
  moreover have "map (\<lambda>i. crc8 (of_nat (i + 2 ^ k))) [0..<2 ^ k] = map (\<lambda>i. crc8 (2 ^ k) XOR crc8 (of_nat i)) [0..<2 ^ k]"
    by (rule map_cong [OF refl]) (simp only: add.commute [of _ "2 ^ k"] of_nat_add_xor crc8_xor atLeastLessThan_iff set_upt)
  ultimately show ?thesis by (simp only: crc_entries_def double_def map_append map_map comp_def)
qed

lemma crc_basis:
  "crc8 1 = 0x77073096" "crc8 2 = 0xee0e612c" "crc8 4 = 0x076dc419" "crc8 8 = 0x0edb8832"
  "crc8 16 = 0x1db71064" "crc8 32 = 0x3b6e20c8" "crc8 64 = 0x76dc4190" "crc8 128 = 0xedb88320"
  by code_simp+

lemma crc_entries_8:
  "crc_entries 8 =
     foldl double [0] [0x77073096, 0xee0e612c, 0x076dc419, 0x0edb8832, 0x1db71064, 0x3b6e20c8, 0x76dc4190, 0xedb88320]"
proof -
  have "crc_entries 0 = [0]" by code_simp
  moreover have "8 = Suc (Suc (Suc (Suc (Suc (Suc (Suc (Suc 0)))))))" by simp
  ultimately show ?thesis by (simp only: crc_entries_Suc foldl.simps) (simp add: crc_basis)
qed

lemma crc32_table_ref: "crc32_table = crc_entries 8"
  unfolding crc_entries_8 by (simp add: double_def crc32_table_def)

lemma low_byte: "w AND 0xFF = take_bit 8 w" for w :: u32
proof -
  have "(mask 8 :: u32) = 0xFF" by (simp add: mask_eq_exp_minus_1)
  then show ?thesis by (simp only: take_bit_eq_mask)
qed

lemma crc32_table_nth: "crc32_table ! unat (take_bit 8 w) = crc8 (take_bit 8 w)"
proof -
  have "unat (take_bit 8 w) < 2 ^ 8"
    unfolding unsigned_take_bit_eq by (rule take_bit_nat_less_exp)
  then show ?thesis unfolding crc32_table_ref crc_entries_def by simp
qed

lemma table_step: "crc32_table ! unat ((w XOR ucast p) AND 0xFF) XOR drop_bit 8 w = crc_byte w p"
proof -
  let ?v = "w XOR ucast p"
  let ?h = "?v AND NOT (mask 8)"
  have split: "?v = take_bit 8 ?v XOR ?h"
    by (rule bit_word_eqI) (auto simp: bit_simps)
  have high: "crc8 ?h = drop_bit 8 ?h"
    unfolding crc8_def by (rule crc_bits_shift) (auto simp: bit_simps)
  have shift: "drop_bit 8 ?h = drop_bit 8 w"
    by (rule bit_word_eqI) (auto simp: bit_simps dest: bit_imp_le_length)
  have "crc_byte w p = crc8 (take_bit 8 ?v) XOR crc8 ?h"
    unfolding crc_byte_def by (subst split) (rule crc8_xor)
  then show ?thesis by (simp only: high shift low_byte crc32_table_nth)
qed

lemma ef_crc32_loop_foldl: "ef_crc32_loop crc buf = foldl crc_byte crc buf"
  by (induction buf arbitrary: crc) (simp_all only: ef_crc32_loop.simps foldl.simps table_step)

lemma crc_not_not: "(w XOR NOT 0) XOR NOT 0 = w" for w :: u32
  by (simp add: xor.assoc)

section \<open>Injectivity\<close>

lemma xor_right_cancel: "v XOR u = w XOR u \<Longrightarrow> v = w" for v :: u32
  by (metis xor.assoc xor.right_neutral xor_self_eq)

lemma ucast_u8_inj: "(ucast p :: u32) = ucast q \<Longrightarrow> p = q" for p :: u8
proof -
  have "(ucast (ucast r :: u32) :: u8) = r" for r :: u8 by (rule bit_word_eqI) (simp add: bit_simps)
  then show "(ucast p :: u32) = ucast q \<Longrightarrow> p = q" by metis
qed

lemma crc_bit_top: "bit (crc_bit u) 31 \<longleftrightarrow> bit u 0"
  by (auto simp: crc_bit_def bit_simps dest: bit_imp_le_length)

lemma crc_bit_inj:
  assumes "crc_bit v = crc_bit w"
  shows "v = w"
proof -
  have low: "bit v 0 \<longleftrightarrow> bit w 0" using assms crc_bit_top [of v] crc_bit_top [of w] by simp
  have "drop_bit 1 v = drop_bit 1 w"
  proof (cases "bit v 0")
    case True
    with low assms show ?thesis unfolding crc_bit_def by (simp only: if_True) (rule xor_right_cancel)
  next
    case False
    with low assms show ?thesis unfolding crc_bit_def by (simp only: if_False)
  qed
  then have "bit (drop_bit 1 v) n = bit (drop_bit 1 w) n" for n by (rule arg_cong)
  then have "bit v (Suc n) = bit w (Suc n)" for n by (simp add: bit_drop_bit_eq)
  with low have "bit v n = bit w n" for n by (cases n) simp_all
  then show ?thesis by (intro bit_word_eqI)
qed

lemma crc8_inj: "crc8 v = crc8 w \<Longrightarrow> v = w"
proof -
  have "inj crc_bit" by (rule injI) (rule crc_bit_inj)
  then have "inj (crc_bit ^^ 8)" by (rule inj_fn)
  then show "crc8 v = crc8 w \<Longrightarrow> v = w" unfolding crc8_def by (rule injD)
qed

lemma crc_byte_inj:
  "crc_byte v p = crc_byte w p \<Longrightarrow> v = w" "crc_byte v p = crc_byte v q \<Longrightarrow> p = q"
proof -
  show "v = w" if "crc_byte v p = crc_byte w p"
    using crc8_inj [OF that [unfolded crc_byte_def]] by (rule xor_right_cancel)
  show "p = q" if "crc_byte v p = crc_byte v q"
    using crc8_inj [OF that [unfolded crc_byte_def]] ucast_u8_inj xor_right_cancel by (metis xor.commute)
qed

lemma foldl_crc_inj: "foldl crc_byte v buf = foldl crc_byte w buf \<Longrightarrow> v = w"
  by (induction buf arbitrary: v w) (auto dest: crc_byte_inj)

section \<open>Properties\<close>

text \<open>
  C15. The table-driven routine computes the CRC-32 as it is defined, the division of the message by
  the polynomial one bit at a time, for every start value and every buffer; and it may be called
  on the pieces of a message one after the other, each with the result of the one before.
\<close>

theorem ef_crc32_equiv:
  "ef_calc_crc32 crc buf = crc32_ref crc buf \<and>
   ef_calc_crc32 crc (xs @ ys) = ef_calc_crc32 (ef_calc_crc32 crc xs) ys"
  by (simp only: ef_calc_crc32_def crc32_ref_def ef_crc32_loop_foldl foldl_append crc_not_not)

text \<open>
  The checksum notices every change within one byte: two buffers that differ in one byte, wherever it
  is and whatever comes before and after it, never have the same checksum.
\<close>

theorem ef_crc32_detects:
  assumes "p \<noteq> q"
  shows "ef_calc_crc32 crc (xs @ p # ys) \<noteq> ef_calc_crc32 crc (xs @ q # ys)"
proof
  assume "ef_calc_crc32 crc (xs @ p # ys) = ef_calc_crc32 crc (xs @ q # ys)"
  then have "foldl crc_byte (crc_byte (foldl crc_byte (crc XOR NOT 0) xs) p) ys =
      foldl crc_byte (crc_byte (foldl crc_byte (crc XOR NOT 0) xs) q) ys"
    unfolding ef_calc_crc32_def ef_crc32_loop_foldl foldl_append foldl.simps by (rule xor_right_cancel)
  then show False using foldl_crc_inj crc_byte_inj(2) assms by blast
qed

theorem ef_crc32_detects_witness:
  "ef_calc_crc32 0 [1, 2, 3] \<noteq> ef_calc_crc32 0 [1, 7, 3]"
  using ef_crc32_detects [of 2 7 0 "[1]" "[3]"] by simp

end
