(* ===== verification/Spec2Isabelle.thy ===== *)
theory Spec2Isabelle
  imports Prelude Base64 Bk_Event Aon_Rtc_Api Multi_Button Dma_Api Mailbox_Channel Uart_Setup Cli_Parse Crc32
begin

text \<open>
  Verification of parts of the software development kit for the Beken bk7235, as OpenHarmony uses it.
  Paths below are relative to \<^verbatim>\<open>src/bk7235/liteos_m/bk_sdk_armino\<close>.

  \<^bold>\<open>The program and its parts.\<close> The kit is a layer of register accessors
  (\<^verbatim>\<open>middleware/soc\<close>), drivers over them (\<^verbatim>\<open>middleware/driver\<close>), and components over the
  drivers (\<^verbatim>\<open>components\<close>). Modelled are ten of these parts; where one calls
  another the model composes them as the code does: the alarm and DMA drivers over their registers, the
  mailbox channels over the mailbox driver over its registers, and the UART driver over its registers, the byte
  queue and the semaphores of the operating system, with the console port over it.

  \<^bold>\<open>Theories.\<close>

  \<^item> \<^theory_text>\<open>Prelude\<close>: machine types, the error codes of \<^verbatim>\<open>include/common/bk_err.h\<close>, heap accounting,
    assertions, and the generic arguments: a locale for pools of slots and one for invariants of transition systems,
    interpreted in the theories of the drivers. \<^theory_text>\<open>Bitfield\<close>: C bit fields of machine words.

  \<^item> \<^theory_text>\<open>Base64\<close>: \<^verbatim>\<open>components/base64/base_64.c\<close>. Decoding inverts encoding, and the encoder stays
    within the length it announces.

  \<^item> \<^theory_text>\<open>Bk_Event\<close>: \<^verbatim>\<open>components/bk_event/event.c\<close>. The registry of callbacks refines a table of
    subscriptions; posted events reach their subscribers once and in order; in every reachable state heap blocks,
    queue and semaphores are accounted for. One message is leaked when the component is stopped.

  \<^item> \<^theory_text>\<open>Aon_Rtc_Hw\<close>, \<^theory_text>\<open>Aon_Rtc\<close>, \<^theory_text>\<open>Aon_Rtc_Api\<close>: \<^verbatim>\<open>middleware/driver/rtc/aon_rtc_driver.c\<close> and its
    registers. The alarms form a list sorted by expiry; registration, removal and the tick interrupt keep it and set
    the comparator to its head. Three runs show where the interrupt loses an overflow, loses an alarm, and stops
    at an assertion.

  \<^item> \<^theory_text>\<open>Multi_Button\<close>: \<^verbatim>\<open>components/key/multi_button.c\<close>. Every tick refines one step of an abstract gesture
    recogniser; clicks, long presses and glitches are recognised as they should be.

  \<^item> \<^theory_text>\<open>Dma_Hw\<close>, \<^theory_text>\<open>Dma\<close>, \<^theory_text>\<open>Dma_Api\<close>: \<^verbatim>\<open>middleware/driver/general_dma/dma_driver.c\<close> and its
    registers. A channel has one owner; what the registers are programmed to; which interrupt handlers run; what the
    memory copy copies, and for which lengths that is what was asked for.

  \<^item> \<^theory_text>\<open>Mailbox\<close>, \<^theory_text>\<open>Mailbox_Channel\<close>: \<^verbatim>\<open>middleware/driver/mailbox/mailbox_driver_base.c\<close> with its registers,
    and \<^verbatim>\<open>mailbox_channel.c\<close>. Messages and acknowledgements travel between the processors unchanged; waiting channels
    are served by priority; the synchronous send returns exactly when the box is seen empty; the control blocks are well
    formed in every reachable state. A write can report success without sending, and channels cannot be opened after
    the driver has been initialised. The default configuration of the product sets neither \<^verbatim>\<open>CONFIG_MAILBOX\<close> nor
    the dual-core options, so these two theories are about code that other configurations compile.

  \<^item> \<^theory_text>\<open>Kfifo\<close>: \<^verbatim>\<open>components/bk_common/include/bk_fifo.h\<close>. The ring buffer refines a bounded list of bytes through all
    wrap-arounds, if its size is a power of two. The contract of such a queue is a locale, with the statement
    about sequences of calls proved in it and the ring buffer as its instance.

  \<^item> \<^theory_text>\<open>Rtos_Sem\<close>: the semaphore calls of \<^verbatim>\<open>components/bk_os/liteos_m_mst/rtos_pub.c\<close>, over a kernel that is a parameter.

  \<^item> \<^theory_text>\<open>Uart_Hw\<close>, \<^theory_text>\<open>Uart\<close>, \<^theory_text>\<open>Uart_Api\<close>: \<^verbatim>\<open>middleware/driver/uart/uart_driver.c\<close>, its registers and hardware layer,
    and the console port of \<^verbatim>\<open>components/bk_system/printf_base.c\<close>. \<^theory_text>\<open>Uart_Rx\<close>: the receive path from the hardware FIFO
    through the interrupt handler and the queue to the blocking read, with interrupts during the read. Bytes are
    dropped only when the queue is full, and never invented, repeated or reordered. \<^theory_text>\<open>Uart_Setup\<close>: starting, settings,
    sending and the console port. Four theorems show faults: a failed allocation that is reported as
    success, a read without waiting that spoils the next one, the lowest baud rate, and a port number that loses the console.

  \<^item> \<^theory_text>\<open>Cli\<close>, \<^theory_text>\<open>Cli_Parse\<close>: the command interpreter of \<^verbatim>\<open>components/bk_cli/cli_main.c\<close>: the table of commands
    (\<^verbatim>\<open>cli_register_command\<close> and its relatives, \<^verbatim>\<open>lookup_command\<close>) and the parser \<^verbatim>\<open>handle_shell_input\<close>. The table is
    a bounded list of distinct commands, which is a locale with the table as its instance; a line of up to
    sixteen plain words calls its command with exactly these words; parsing 32 bytes of any line stays in its buffers; and
    a seventeenth word is written outside \<^verbatim>\<open>argv\<close>.

  \<^item> \<^theory_text>\<open>Crc32\<close>: \<^verbatim>\<open>components/easy_flash/src/ef_utils.c\<close>. The table-driven checksum equals the bitwise definition of
    CRC-32 and notices every change within a byte.

  \<^bold>\<open>How code becomes a definition.\<close> A C structure is a record and an enumeration a datatype or a
  word; integers are words of their width, and error codes are integers. A function is a definition of its name that passes
  the state explicitly. Static variables are fields of the state. A loop inside a function is a definition of its own.
  Function pointers are addresses; running one is either an entry of a trace or a function that is an argument.
  Registers that change by themselves are functions of the number of reads, and the other processor is such a function too.
  An allocation may fail at any request. A missing result (\<^const>\<open>None\<close>) means that the call does not return: an assertion
  failed, a loop does not end, or an access would leave its buffer.

  \<^bold>\<open>Bounds and fuel.\<close> The walks over the alarms have fuel of eight steps, the number of nodes of the
  pool; for lists of the pool's nodes the theorems show that the result is there. The walks over the work list of the buttons,
  the wait of the memory copy, the polling of the synchronous send, and the loops of the UART driver over its FIFO status are
  partial functions without fuel; for each it is proved when they return. The loops of the interpreter are total functions: the search by the
  320 entries of the table, the parser by the position in the line and the length of what is left of it. The retries of a send without a chosen box are the 1000 of the code.

  \<^bold>\<open>Assumptions.\<close> Callbacks keep the invariant of the module that calls them, whose variables they
  reach only through its functions; what a command of the command line does is arbitrary. The DMA controller transfers what it is programmed to, as stated in \<^theory_text>\<open>Dma_Api\<close>.
  The binary semaphores of LiteOS-M behave as stated in \<^theory_text>\<open>Rtos_Sem\<close>. The UART runs out of received bytes, and has
  room to send, again and again, and its callbacks do not touch the port that calls them.
  Each is a named hypothesis of the theorems that use it, and a witness shows that it can hold. An operation is
  one atomic step: the masking of interrupts and the mutexes are not modelled, and nothing is said about interrupts inside
  an operation. The exception is the blocking read of the UART, which takes the interrupts of its port at each point where the code
  has not masked them as a parameter.

  \<^bold>\<open>Not modelled.\<close> The larger part of the kit: the other drivers and their registers, the storage of the
  environment, the commands of the command line and the task that collects its lines, the command layer over the mailbox channels, the locks between the processors, and the adapters. Most
  of that is ordinary code that has been left out so far. Out of reach of these models are what rests on libraries that
  are not in the repository (wireless, LiteOS-M, lwIP, mbed TLS), start-up code in assembly, and the reaction of
  the hardware. Within the modelled parts, log statements and debug dumps are left out.
\<close>

end
